(* ===== verification/Prelude.thy ===== *)
theory Prelude
  imports Main
begin

text \<open>
  Shared vocabulary of the development: the shape of fallible, stateful Rust code
  (\<open>Result\<close> values threaded through a world), the calculus of preserved invariants the
  handlers are verified with, instants and durations, and small facts on lists and
  options that several components use.
\<close>

section \<open>Collections of rules\<close>

named_theorems text_defs \<open>definitions of the string operations of the Rust standard library\<close>
named_theorems table_defs \<open>definitions of the statements on the database tables\<close>
named_theorems handler_defs \<open>definitions of the request handlers and their helpers\<close>

section \<open>Fallible actions\<close>

text \<open>
  A Rust function \<open>async fn f(..) -> Result<A, E>\<close> that reads and writes shared state is an
  action: it takes the world and gives the result with the world it leaves behind. \<open>Inl\<close>
  carries the error and \<open>Inr\<close> the value.
\<close>

type_synonym ('w, 'e, 'a) action = "'w \<Rightarrow> ('e + 'a) \<times> 'w"

definition succeed :: "'a \<Rightarrow> ('w, 'e, 'a) action" where
  "succeed x w = (Inr x, w)"

definition fail :: "'e \<Rightarrow> ('w, 'e, 'a) action" where
  "fail e w = (Inl e, w)"

text \<open>The \<open>?\<close> operator: an error returns at once, a value is passed on.\<close>

definition attempt :: "('w, 'e, 'a) action \<Rightarrow> ('a \<Rightarrow> ('w, 'e, 'b) action) \<Rightarrow> ('w, 'e, 'b) action" where
  "attempt m k w = (case m w of (Inl e, w') \<Rightarrow> (Inl e, w') | (Inr x, w') \<Rightarrow> k x w')"

text \<open>\<open>Result::map_err\<close>.\<close>

definition map_err :: "('e \<Rightarrow> 'f) \<Rightarrow> ('w, 'e, 'a) action \<Rightarrow> ('w, 'f, 'a) action" where
  "map_err f m w = (case m w of (Inl e, w') \<Rightarrow> (Inl (f e), w') | (Inr x, w') \<Rightarrow> (Inr x, w'))"

text \<open>
  \<open>match\<close> on the result of a call: both outcomes continue, which is how the code swallows the
  failure of work it does not depend on.
\<close>

definition handle ::
  "('w, 'e, 'a) action \<Rightarrow> ('e \<Rightarrow> ('w, 'f, 'b) action) \<Rightarrow> ('a \<Rightarrow> ('w, 'f, 'b) action) \<Rightarrow> ('w, 'f, 'b) action" where
  "handle m h k w = (case m w of (Inl e, w') \<Rightarrow> h e w' | (Inr x, w') \<Rightarrow> k x w')"

text \<open>A fallible computation that touches no state.\<close>

definition of_result :: "'e + 'a \<Rightarrow> ('w, 'e, 'a) action" where
  "of_result r w = (r, w)"

lemmas action_defs = succeed_def fail_def attempt_def map_err_def handle_def of_result_def

lemma attempt_succeed [simp]: "attempt (succeed x) k = k x"
  by (simp add: fun_eq_iff action_defs)

lemma attempt_fail [simp]: "attempt (fail e) k = fail e"
  by (simp add: fun_eq_iff action_defs)

lemma attempt_okD:
  "attempt m k w = (Inr y, w'') \<Longrightarrow> \<exists>x w'. m w = (Inr x, w') \<and> k x w' = (Inr y, w'')"
  by (auto simp: attempt_def split: prod.splits sum.splits)

lemma attempt_okE:
  assumes "attempt m k w = (Inr y, w'')"
  obtains x w' where "m w = (Inr x, w')" and "k x w' = (Inr y, w'')"
  using attempt_okD [OF assms] by blast

lemma attempt_ok: "m w = (Inr x, w') \<Longrightarrow> attempt m k w = k x w'"
  by (simp add: attempt_def)

lemma attempt_err: "m w = (Inl e, w') \<Longrightarrow> attempt m k w = (Inl e, w')"
  by (simp add: attempt_def)

lemma map_err_ok [simp]: "map_err f m w = (Inr x, w') \<longleftrightarrow> m w = (Inr x, w')"
  by (auto simp: map_err_def split: prod.splits sum.splits)

lemma map_err_snd [simp]: "snd (map_err f m w) = snd (m w)"
  by (auto simp: map_err_def split: prod.splits sum.splits)

text \<open>The same on plain results: \<open>Result::and_then\<close>, and \<open>collect\<close> into a \<open>Result\<close>.\<close>

definition and_then :: "'e + 'a \<Rightarrow> ('a \<Rightarrow> 'e + 'b) \<Rightarrow> 'e + 'b" where
  "and_then r k = (case r of Inl e \<Rightarrow> Inl e | Inr x \<Rightarrow> k x)"

fun traverse :: "('a \<Rightarrow> 'e + 'b) \<Rightarrow> 'a list \<Rightarrow> 'e + 'b list" where
  "traverse f [] = Inr []"
| "traverse f (x # xs) = and_then (f x) (\<lambda>y. and_then (traverse f xs) (\<lambda>ys. Inr (y # ys)))"

lemma and_then_simps [simp]: "and_then (Inl e) k = Inl e" "and_then (Inr x) k = k x"
  by (simp_all add: and_then_def)

lemma and_then_Inr: "and_then r k = Inr y \<longleftrightarrow> (\<exists>x. r = Inr x \<and> k x = Inr y)"
  by (cases r) simp_all

section \<open>Preserved invariants\<close>

text \<open>
  \<open>keeps I m\<close>: whatever the outcome of \<open>m\<close>, errors included, it leaves a world satisfying
  \<open>I\<close> when it started in one. The rules follow the structure of the code, so the
  invariant of a handler is proved by \<open>intro\<close> down to the statements on the tables.
\<close>

definition keeps :: "('w \<Rightarrow> bool) \<Rightarrow> ('w, 'e, 'a) action \<Rightarrow> bool" where
  "keeps I m \<longleftrightarrow> (\<forall>w. I w \<longrightarrow> I (snd (m w)))"

named_theorems keeps_intros \<open>rules for preserved invariants\<close>

lemma keepsI: "(\<And>w. I w \<Longrightarrow> I (snd (m w))) \<Longrightarrow> keeps I m"
  by (simp add: keeps_def)

lemma keepsD: "keeps I m \<Longrightarrow> I w \<Longrightarrow> I (snd (m w))"
  by (simp add: keeps_def)

lemma keepsD': "keeps I m \<Longrightarrow> m w = (r, w') \<Longrightarrow> I w \<Longrightarrow> I w'"
  by (auto simp: keeps_def dest: spec [of _ w])

lemma keeps_succeed [keeps_intros]: "keeps I (succeed x)"
  by (simp add: keeps_def succeed_def)

lemma keeps_fail [keeps_intros]: "keeps I (fail e)"
  by (simp add: keeps_def fail_def)

lemma keeps_of_result [keeps_intros]: "keeps I (of_result r)"
  by (simp add: keeps_def of_result_def)

lemma keeps_attempt [keeps_intros]:
  assumes "keeps I m" and "\<And>x. keeps I (k x)"
  shows "keeps I (attempt m k)"
proof (rule keepsI)
  fix w assume w: "I w"
  obtain r w' where m: "m w = (r, w')" by fastforce
  have w': "I w'" using keepsD' [OF assms(1) m w] .
  show "I (snd (attempt m k w))"
    using w' keepsD [OF assms(2) w'] by (cases r) (auto simp: attempt_def m)
qed

text \<open>As \<open>keeps_attempt\<close>, where what follows may rely on a value the first action can deliver.\<close>

lemma keeps_attempt_of:
  assumes "keeps I m" and "\<And>x w w'. m w = (Inr x, w') \<Longrightarrow> keeps I (k x)"
  shows "keeps I (attempt m k)"
proof (rule keepsI)
  fix w assume w: "I w"
  obtain r w' where m: "m w = (r, w')" by fastforce
  have w': "I w'" using keepsD' [OF assms(1) m w] .
  show "I (snd (attempt m k w))"
    using w' m keepsD [OF assms(2) w'] by (cases r) (auto simp: attempt_def)
qed

lemma keeps_map_err [keeps_intros]: "keeps I m \<Longrightarrow> keeps I (map_err f m)"
  by (simp add: keeps_def)

lemma keeps_handle [keeps_intros]:
  assumes "keeps I m" and "\<And>e. keeps I (h e)" and "\<And>x. keeps I (k x)"
  shows "keeps I (handle m h k)"
proof (rule keepsI)
  fix w assume w: "I w"
  obtain r w' where m: "m w = (r, w')" by fastforce
  have w': "I w'" using keepsD' [OF assms(1) m w] .
  show "I (snd (handle m h k w))"
    using keepsD [OF assms(2) w'] keepsD [OF assms(3) w'] by (cases r) (auto simp: handle_def m)
qed

lemma keeps_if [keeps_intros]: "(b \<Longrightarrow> keeps I m) \<Longrightarrow> (\<not> b \<Longrightarrow> keeps I n) \<Longrightarrow> keeps I (if b then m else n)"
  by simp

lemma keeps_case_option [keeps_intros]:
  "(v = None \<Longrightarrow> keeps I m) \<Longrightarrow> (\<And>x. v = Some x \<Longrightarrow> keeps I (k x)) \<Longrightarrow>
   keeps I (case v of None \<Rightarrow> m | Some x \<Rightarrow> k x)"
  by (cases v) simp_all

lemma keeps_case_prod [keeps_intros]:
  "(\<And>a b. v = (a, b) \<Longrightarrow> keeps I (k a b)) \<Longrightarrow> keeps I (case v of (a, b) \<Rightarrow> k a b)"
  by (cases v) simp

section \<open>Instants\<close>

text \<open>
  \<open>OffsetDateTime\<close> and \<open>timestamptz\<close> values are instants, durations are differences of
  instants; both are counted in nanoseconds, the resolution of the \<open>time\<close> crate.
  \<open>whole_seconds\<close> and \<open>whole_milliseconds\<close> truncate toward zero, as the crate does.
\<close>

type_synonym instant = int
type_synonym duration = int

definition nanos_per_milli :: int where "nanos_per_milli = 1000000"
definition nanos_per_second :: int where "nanos_per_second = 1000000000"

definition millis :: "int \<Rightarrow> duration" where "millis n = n * nanos_per_milli"
definition seconds :: "int \<Rightarrow> duration" where "seconds n = n * nanos_per_second"

definition trunc_div :: "int \<Rightarrow> int \<Rightarrow> int" where
  "trunc_div a b = sgn a * sgn b * (\<bar>a\<bar> div \<bar>b\<bar>)"

definition whole_seconds :: "duration \<Rightarrow> int" where
  "whole_seconds d = trunc_div d nanos_per_second"

definition whole_milliseconds :: "duration \<Rightarrow> int" where
  "whole_milliseconds d = trunc_div d nanos_per_milli"

lemmas duration_defs = nanos_per_milli_def nanos_per_second_def millis_def seconds_def
  whole_seconds_def whole_milliseconds_def trunc_div_def

lemma whole_seconds_le_iff:
  assumes "0 \<le> n"
  shows "whole_seconds d \<le> n \<longleftrightarrow> d < seconds (n + 1)"
proof (cases "0 \<le> d")
  case True
  have "whole_seconds d = d div 1000000000"
    using True by (cases "d = 0") (simp_all add: duration_defs)
  then show ?thesis by (simp add: duration_defs) linarith
next
  case False
  then have "whole_seconds d \<le> 0"
    by (simp add: duration_defs)
  with False assms show ?thesis by (simp add: duration_defs)
qed

section \<open>Lists\<close>

lemma find_map_Some: "find P xs = Some x \<Longrightarrow> P x \<and> x \<in> set xs"
  by (induction xs) (auto split: if_splits)

lemma find_distinct_key:
  "distinct (map f xs) \<Longrightarrow> x \<in> set xs \<Longrightarrow> find (\<lambda>y. f y = f x) xs = Some x"
  by (induction xs) force+

lemma filter_distinct_key:
  assumes "distinct (map f xs)" and "x \<in> set xs"
  shows "filter (\<lambda>y. f y = f x) xs = [x]"
  using assms
proof (induction xs)
  case (Cons y ys)
  show ?case
  proof (cases "x = y")
    case True
    with Cons.prems have "\<forall>z \<in> set ys. f z \<noteq> f x" by (metis distinct.simps(2) image_eqI list.simps(9) set_map)
    with True show ?thesis by (simp add: filter_empty_conv)
  next
    case False
    with Cons.prems have "x \<in> set ys" and "f y \<noteq> f x" by (auto simp: rev_image_eqI)
    with Cons show ?thesis by auto
  qed
qed simp

lemma distinct_map_filter_key: "distinct (map f xs) \<Longrightarrow> distinct (map f (filter P xs))"
  by (induction xs) auto

lemma inj_on_mapD: "distinct (map f xs) \<Longrightarrow> x \<in> set xs \<Longrightarrow> y \<in> set xs \<Longrightarrow> f x = f y \<Longrightarrow> x = y"
  by (simp add: distinct_map inj_on_def)

end
