(* ===== verification/Text.thy ===== *)
theory Text
  imports Prelude "HOL-Library.Word"
begin

text \<open>
  The string operations of the Rust standard library that the program uses. A Rust
  \<open>String\<close> is a sequence of bytes holding valid UTF-8, so it is a HOL \<open>string\<close> whose
  elements are bytes; a Rust \<open>char\<close> is the group of bytes that encodes it. \<open>chars\<close>
  splits a string into those groups by the width the leading byte announces, as the
  standard library's decoder does. \<open>utf8_valid\<close> is the type invariant of \<open>str\<close>; the
  theorems that need it say so.

  What the standard library takes from the Unicode tables for characters beyond ASCII
  (case mapping, the alphabetic and alphanumeric classes) is a parameter of the operations
  that use it.
\<close>

section \<open>Bytes and characters\<close>

abbreviation byte :: "char \<Rightarrow> nat" where
  "byte c \<equiv> of_char c"

definition utf8_width :: "char \<Rightarrow> nat" where
  "utf8_width b = (if byte b < 128 then 1 else if byte b < 224 then 2 else if byte b < 240 then 3 else 4)"

definition is_continuation :: "char \<Rightarrow> bool" where
  "is_continuation b \<longleftrightarrow> 128 \<le> byte b \<and> byte b < 192"

fun chars :: "string \<Rightarrow> string list" where
  "chars [] = []"
| "chars (b # bs) = (b # take (utf8_width b - 1) bs) # chars (drop (utf8_width b - 1) bs)"

definition wf_char :: "string \<Rightarrow> bool" where
  "wf_char c \<longleftrightarrow> (case c of [] \<Rightarrow> False
     | b # bs \<Rightarrow> length c = utf8_width b \<and> \<not> is_continuation b \<and> list_all is_continuation bs)"

definition utf8_valid :: "string \<Rightarrow> bool" where
  "utf8_valid s \<longleftrightarrow> list_all wf_char (chars s)"

text \<open>\<open>str::is_char_boundary\<close>.\<close>

definition is_char_boundary :: "string \<Rightarrow> nat \<Rightarrow> bool" where
  "is_char_boundary s i \<longleftrightarrow> i = 0 \<or> i = length s \<or> (i < length s \<and> \<not> is_continuation (s ! i))"

text \<open>
  The loop \<open>while end > 0 && !s.is_char_boundary(end) { end -= 1; }\<close>, which the audit log and the
  error summary both run before cutting a string.
\<close>

fun floor_boundary :: "string \<Rightarrow> nat \<Rightarrow> nat" where
  "floor_boundary s 0 = 0"
| "floor_boundary s (Suc n) = (if is_char_boundary s (Suc n) then Suc n else floor_boundary s n)"

lemma concat_chars [simp]: "concat (chars s) = s"
  by (induction s rule: chars.induct) simp_all

lemma chars_eq_Nil [simp]: "chars s = [] \<longleftrightarrow> s = []"
  by (cases s) simp_all

lemma utf8_width_pos: "0 < utf8_width b"
  by (simp add: utf8_width_def)

lemma chars_wf_append: "wf_char c \<Longrightarrow> chars (c @ s) = c # chars s"
proof (cases c)
  case (Cons b bs)
  assume "wf_char c"
  with Cons have "utf8_width b = Suc (length bs)" by (auto simp: wf_char_def)
  with Cons show ?thesis by simp
qed (simp add: wf_char_def)

lemma chars_concat: "list_all wf_char cs \<Longrightarrow> chars (concat cs) = cs"
  by (induction cs) (simp_all add: chars_wf_append)

lemma utf8_valid_concat: "list_all wf_char cs \<Longrightarrow> utf8_valid (concat cs)"
  by (simp add: utf8_valid_def chars_concat)

lemma chars_append: "utf8_valid s \<Longrightarrow> chars (s @ t) = chars s @ chars t"
proof -
  have "list_all wf_char cs \<Longrightarrow> chars (concat cs @ t) = cs @ chars t" for cs
    by (induction cs) (simp_all add: chars_wf_append)
  then show "utf8_valid s \<Longrightarrow> chars (s @ t) = chars s @ chars t"
    by (metis concat_chars utf8_valid_def)
qed

lemma utf8_valid_Nil [simp]: "utf8_valid []"
  by (simp add: utf8_valid_def)

lemma utf8_valid_append: "utf8_valid s \<Longrightarrow> utf8_valid (s @ t) \<longleftrightarrow> utf8_valid t"
  by (simp add: utf8_valid_def chars_append)

lemma wf_char_ascii [simp]: "wf_char [b] \<longleftrightarrow> byte b < 128"
  by (auto simp: wf_char_def utf8_width_def is_continuation_def)

lemma chars_ascii: "byte b < 128 \<Longrightarrow> chars (b # s) = [b] # chars s"
  by (simp add: utf8_width_def)

lemma utf8_valid_ascii: "list_all (\<lambda>b. byte b < 128) s \<Longrightarrow> utf8_valid s"
  by (induction s) (simp_all add: utf8_valid_def utf8_width_def)

lemma chars_all_ascii: "list_all (\<lambda>b. byte b < 128) s \<Longrightarrow> chars s = map (\<lambda>b. [b]) s"
  by (induction s) (simp_all add: utf8_width_def)

lemma wf_char_byte_ge: "wf_char c \<Longrightarrow> length c \<noteq> 1 \<Longrightarrow> b \<in> set c \<Longrightarrow> 128 \<le> byte b"
  by (cases c) (auto simp: wf_char_def utf8_width_def is_continuation_def list_all_iff split: if_splits)

text \<open>In a valid string a byte below 128 is a character of its own.\<close>

lemma ascii_byte_is_char:
  assumes "utf8_valid s" and "byte b < 128"
  shows "b \<in> set s \<longleftrightarrow> [b] \<in> set (chars s)"
proof
  assume "b \<in> set s"
  then obtain c where c: "c \<in> set (chars s)" "b \<in> set c"
    by (metis (no_types, lifting) UN_E concat_chars set_concat)
  with assms have "wf_char c" by (auto simp: utf8_valid_def list_all_iff)
  with c(2) assms(2) have "length c = 1" using wf_char_byte_ge by fastforce
  then have "c = [b]" using c(2) by (auto simp: length_Suc_conv)
  with c(1) show "[b] \<in> set (chars s)" by simp
next
  assume "[b] \<in> set (chars s)"
  then have "b \<in> set (concat (chars s))" unfolding set_concat by force
  then show "b \<in> set s" by simp
qed

lemma floor_boundary_le: "floor_boundary s n \<le> n"
  by (induction n) auto

lemma floor_boundary_boundary: "is_char_boundary s (floor_boundary s n)"
  by (induction n) (auto simp: is_char_boundary_def)

lemma floor_boundary_greatest: "is_char_boundary s m \<Longrightarrow> m \<le> n \<Longrightarrow> m \<le> floor_boundary s n"
  by (induction n) (auto simp: le_Suc_eq)

text \<open>Cutting a valid string at a boundary leaves a valid string.\<close>

lemma take_boundary_valid:
  assumes "utf8_valid s" and "is_char_boundary s n"
  shows "utf8_valid (take n s)"
proof -
  have "list_all wf_char cs \<Longrightarrow> is_char_boundary (concat cs) n \<Longrightarrow> utf8_valid (take n (concat cs))" for cs
  proof (induction cs arbitrary: n)
    case (Cons c cs)
    from Cons.prems(1) have c: "wf_char c" "list_all wf_char cs" by simp_all
    consider "n = 0" | "length c \<le> n" | "0 < n" "n < length c" by linarith
    then show ?case
    proof cases
      case 2
      have "is_char_boundary (concat cs) (n - length c)"
        using Cons.prems(2) 2 by (auto simp: is_char_boundary_def nth_append)
      from Cons.IH [OF c(2) this] c(1) 2 show ?thesis
        by (simp add: utf8_valid_def chars_wf_append)
    next
      case 3
      then have "is_continuation (c ! n)"
        using c(1) by (cases c) (auto simp: wf_char_def list_all_length nth_Cons')
      with 3 Cons.prems(2) show ?thesis
        by (auto simp: is_char_boundary_def nth_append)
    qed simp
  qed simp
  from this [of "chars s"] assms show ?thesis by (simp add: utf8_valid_def)
qed

section \<open>Classes of characters\<close>

definition ascii_digit :: "char \<Rightarrow> bool" where
  "ascii_digit b \<longleftrightarrow> 48 \<le> byte b \<and> byte b \<le> 57"

definition ascii_alpha :: "char \<Rightarrow> bool" where
  "ascii_alpha b \<longleftrightarrow> (65 \<le> byte b \<and> byte b \<le> 90) \<or> (97 \<le> byte b \<and> byte b \<le> 122)"

definition ascii_alphanumeric :: "char \<Rightarrow> bool" where
  "ascii_alphanumeric b \<longleftrightarrow> ascii_digit b \<or> ascii_alpha b"

definition ascii_graphic :: "char \<Rightarrow> bool" where
  "ascii_graphic b \<longleftrightarrow> 33 \<le> byte b \<and> byte b \<le> 126"

text \<open>\<open>char::is_control\<close>: the Unicode category Cc, U+0000 to U+001F and U+007F to U+009F.\<close>

definition is_control :: "string \<Rightarrow> bool" where
  "is_control c \<longleftrightarrow> (case c of
     [b] \<Rightarrow> byte b < 32 \<or> byte b = 127
   | [a, b] \<Rightarrow> byte a = 194 \<and> 128 \<le> byte b \<and> byte b < 160
   | _ \<Rightarrow> False)"

text \<open>\<open>char::is_whitespace\<close>: the Unicode property White\_Space.\<close>

definition is_whitespace :: "string \<Rightarrow> bool" where
  "is_whitespace c \<longleftrightarrow> (case c of
     [b] \<Rightarrow> (9 \<le> byte b \<and> byte b \<le> 13) \<or> byte b = 32
   | [a, b] \<Rightarrow> byte a = 194 \<and> (byte b = 133 \<or> byte b = 160)
   | [a, b, d] \<Rightarrow>
       (byte a = 225 \<and> byte b = 154 \<and> byte d = 128)
     \<or> (byte a = 226 \<and> byte b = 128 \<and> ((128 \<le> byte d \<and> byte d \<le> 138) \<or> byte d = 168 \<or> byte d = 169 \<or> byte d = 175))
     \<or> (byte a = 226 \<and> byte b = 129 \<and> byte d = 159)
     \<or> (byte a = 227 \<and> byte b = 128 \<and> byte d = 128)
   | _ \<Rightarrow> False)"

text \<open>
  \<open>char::is_alphanumeric\<close> and \<open>char::is_alphabetic\<close>: the ASCII part written out, the rest
  from the Unicode tables given by \<open>u\<close>.
\<close>

definition is_alphanumeric :: "(string \<Rightarrow> bool) \<Rightarrow> string \<Rightarrow> bool" where
  "is_alphanumeric u c \<longleftrightarrow> (case c of [b] \<Rightarrow> ascii_alphanumeric b | _ \<Rightarrow> u c)"

definition is_alphabetic :: "(string \<Rightarrow> bool) \<Rightarrow> string \<Rightarrow> bool" where
  "is_alphabetic u c \<longleftrightarrow> (case c of [b] \<Rightarrow> ascii_alpha b | _ \<Rightarrow> u c)"

definition ascii_lower :: "char \<Rightarrow> char" where
  "ascii_lower b = (if 65 \<le> byte b \<and> byte b \<le> 90 then char_of (byte b + 32) else b)"

definition ascii_upper :: "char \<Rightarrow> char" where
  "ascii_upper b = (if 97 \<le> byte b \<and> byte b \<le> 122 then char_of (byte b - 32) else b)"

text \<open>\<open>str::to_lowercase\<close> and \<open>str::to_uppercase\<close>; \<open>u\<close> maps the characters beyond ASCII.\<close>

definition to_lowercase :: "(string \<Rightarrow> string) \<Rightarrow> string \<Rightarrow> string" where
  "to_lowercase u s = concat (map (\<lambda>c. case c of [b] \<Rightarrow> [ascii_lower b] | _ \<Rightarrow> u c) (chars s))"

definition to_uppercase :: "(string \<Rightarrow> string) \<Rightarrow> string \<Rightarrow> string" where
  "to_uppercase u s = concat (map (\<lambda>c. case c of [b] \<Rightarrow> [ascii_upper b] | _ \<Rightarrow> u c) (chars s))"

section \<open>Trimming, searching and splitting\<close>

definition trim_chars :: "string list \<Rightarrow> string list" where
  "trim_chars cs = rev (dropWhile is_whitespace (rev (dropWhile is_whitespace cs)))"

text \<open>\<open>str::trim\<close>.\<close>

definition trim :: "string \<Rightarrow> string" where
  "trim s = concat (trim_chars (chars s))"

definition starts_with :: "string \<Rightarrow> string \<Rightarrow> bool" where
  "starts_with p s \<longleftrightarrow> take (length p) s = p"

definition ends_with :: "string \<Rightarrow> string \<Rightarrow> bool" where
  "ends_with p s \<longleftrightarrow> starts_with (rev p) (rev s)"

text \<open>\<open>str::find\<close> with a string pattern: the byte offset of the first occurrence.\<close>

fun find_sub :: "string \<Rightarrow> string \<Rightarrow> nat option" where
  "find_sub p s = (if starts_with p s then Some 0 else
     (case s of [] \<Rightarrow> None | _ # t \<Rightarrow> map_option Suc (find_sub p t)))"

declare find_sub.simps [simp del]

definition contains :: "string \<Rightarrow> string \<Rightarrow> bool" where
  "contains p s \<longleftrightarrow> find_sub p s \<noteq> None"

text \<open>\<open>str::split_once\<close>.\<close>

definition split_once :: "string \<Rightarrow> string \<Rightarrow> (string \<times> string) option" where
  "split_once p s = (case find_sub p s of None \<Rightarrow> None | Some i \<Rightarrow> Some (take i s, drop (i + length p) s))"

text \<open>\<open>s.split(c).next()\<close> and \<open>s.rsplit(c).next()\<close> for a one-byte separator: both always give a segment.\<close>

definition before_first :: "char \<Rightarrow> string \<Rightarrow> string" where
  "before_first x s = takeWhile (\<lambda>c. c \<noteq> x) s"

definition after_last :: "char \<Rightarrow> string \<Rightarrow> string" where
  "after_last x s = rev (takeWhile (\<lambda>c. c \<noteq> x) (rev s))"

text \<open>\<open>[..].join(sep)\<close>.\<close>

fun join :: "string \<Rightarrow> string list \<Rightarrow> string" where
  "join sep [] = []"
| "join sep [s] = s"
| "join sep (s # t # ts) = s @ sep @ join sep (t # ts)"

text \<open>\<open>s.replace("\r\n", "\n")\<close>: one pass from the left, occurrences do not overlap.\<close>

abbreviation CR :: char where "CR \<equiv> CHR 0x0D"
abbreviation LF :: char where "LF \<equiv> CHR 0x0A"
abbreviation TAB :: char where "TAB \<equiv> CHR 0x09"

fun replace_crlf :: "string \<Rightarrow> string" where
  "replace_crlf [] = []"
| "replace_crlf [c] = [c]"
| "replace_crlf (c # d # s) = (if c = CR \<and> d = LF then LF # replace_crlf s else c # replace_crlf (d # s))"

text \<open>\<open>str::split_whitespace\<close>: the nonempty runs of characters that are not white space.\<close>

function split_whitespace :: "string list \<Rightarrow> string list list" where
  "split_whitespace cs = (case dropWhile is_whitespace cs of
     [] \<Rightarrow> []
   | c # r \<Rightarrow> takeWhile (\<lambda>x. \<not> is_whitespace x) (c # r) #
       split_whitespace (dropWhile (\<lambda>x. \<not> is_whitespace x) r))"
  by pat_completeness auto
termination
proof (relation "measure length")
  fix cs c r
  assume "dropWhile is_whitespace cs = c # r"
  then have "length (c # r) \<le> length cs" by (metis length_dropWhile_le)
  moreover have "length (dropWhile (\<lambda>x. \<not> is_whitespace x) r) \<le> length r"
    by (rule length_dropWhile_le)
  ultimately show "(dropWhile (\<lambda>x. \<not> is_whitespace x) r, cs) \<in> measure length" by simp
qed simp

declare split_whitespace.simps [simp del]

lemma starts_with_iff: "starts_with p s \<longleftrightarrow> (\<exists>t. s = p @ t)"
  by (auto simp: starts_with_def) (metis append_take_drop_id)

lemma starts_with_append [simp]: "starts_with p (p @ t)"
  by (simp add: starts_with_def)

lemma ends_with_iff: "ends_with p s \<longleftrightarrow> (\<exists>t. s = t @ p)"
  by (auto simp: ends_with_def starts_with_iff) (metis rev_append rev_rev_ident)

lemma find_sub_Some:
  "find_sub p s = Some i \<Longrightarrow> s = take i s @ p @ drop (i + length p) s"
proof (induction p s arbitrary: i rule: find_sub.induct)
  case (1 p s)
  show ?case
  proof (cases "starts_with p s")
    case True
    with 1(2) show ?thesis
      by (auto simp: find_sub.simps [of p s] starts_with_iff)
  next
    case False
    with 1(2) obtain c t j where t: "s = c # t" "find_sub p t = Some j" "i = Suc j"
      by (auto simp: find_sub.simps [of p s] split: list.splits)
    from 1(1) [OF False t(1) t(2)] t show ?thesis by simp
  qed
qed

lemma find_sub_None: "find_sub p s = None \<longleftrightarrow> (\<nexists>a b. s = a @ p @ b)"
proof (induction p s rule: find_sub.induct)
  case (1 p s)
  show ?case
  proof (cases "starts_with p s")
    case True
    then have "\<exists>b. s = [] @ p @ b" by (simp add: starts_with_iff)
    with True show ?thesis by (simp add: find_sub.simps [of p s]) blast
  next
    case False
    show ?thesis
    proof (cases s)
      case Nil
      with False have "p \<noteq> []" by (auto simp: starts_with_iff)
      with Nil show ?thesis by (simp add: find_sub.simps [of p "[]"] starts_with_def)
    next
      case (Cons c t)
      with False have "(\<exists>a b. s = a @ p @ b) \<longleftrightarrow> (\<exists>a b. t = a @ p @ b)"
        by (auto simp: starts_with_iff Cons_eq_append_conv)
      with 1 [OF False Cons] Cons False show ?thesis
        by (simp add: find_sub.simps [of p "c # t"])
    qed
  qed
qed

lemma contains_iff: "contains p s \<longleftrightarrow> (\<exists>a b. s = a @ p @ b)"
  by (simp add: contains_def find_sub_None)

lemma split_once_Some: "split_once p s = Some (a, b) \<Longrightarrow> s = a @ p @ b"
  by (auto simp: split_once_def split: option.splits dest: find_sub_Some)

lemma after_last_append: "x \<notin> set t \<Longrightarrow> after_last x (s @ x # t) = t"
proof -
  assume "x \<notin> set t"
  then have "takeWhile (\<lambda>c. c \<noteq> x) (rev t @ x # rev s) = rev t"
    by (subst takeWhile_append2) auto
  then show ?thesis by (simp add: after_last_def)
qed

lemma after_last_notin [simp]: "x \<notin> set (after_last x s)"
  by (auto simp: after_last_def dest: set_takeWhileD)

lemma set_after_last: "set (after_last x s) \<subseteq> set s"
  by (auto simp: after_last_def dest: set_takeWhileD)

lemma replace_crlf_id: "CR \<notin> set s \<Longrightarrow> replace_crlf s = s"
  by (induction s rule: replace_crlf.induct) auto

lemma set_replace_crlf: "set (replace_crlf s) \<subseteq> set s"
  by (induction s rule: replace_crlf.induct) auto

lemma set_trim_chars: "set (trim_chars cs) \<subseteq> set cs"
  unfolding trim_chars_def by (metis set_dropWhileD set_rev subsetI)

lemma dropWhile_rev_idem:
  "dropWhile P (rev (dropWhile P (rev (dropWhile P cs)))) = rev (dropWhile P (rev (dropWhile P cs)))"
proof (cases "rev (dropWhile P (rev (dropWhile P cs)))")
  case (Cons c r)
  define ds where "ds = dropWhile P cs"
  have "\<exists>r'. ds = c # r'"
  proof -
    have "rev (dropWhile P (rev ds)) @ rev (takeWhile P (rev ds)) = ds"
      by (metis rev_append rev_rev_ident takeWhile_dropWhile_id)
    with Cons show ?thesis unfolding ds_def by (metis append_Cons)
  qed
  then have "\<not> P c" unfolding ds_def by (metis dropWhile_eq_Cons_conv)
  with Cons show ?thesis by simp
next
  case Nil
  show ?thesis unfolding Nil by simp
qed

lemma trim_chars_idem: "trim_chars (trim_chars cs) = trim_chars cs"
  unfolding trim_chars_def by (simp add: dropWhile_rev_idem)

lemma wf_trim_chars: "list_all wf_char cs \<Longrightarrow> list_all wf_char (trim_chars cs)"
  using set_trim_chars [of cs] by (auto simp: list_all_iff)

lemma chars_trim: "utf8_valid s \<Longrightarrow> chars (trim s) = trim_chars (chars s)"
  by (simp add: trim_def chars_concat wf_trim_chars utf8_valid_def)

lemma utf8_valid_trim: "utf8_valid s \<Longrightarrow> utf8_valid (trim s)"
  unfolding trim_def utf8_valid_def [of s] by (rule utf8_valid_concat [OF wf_trim_chars])

lemma trim_idem: "utf8_valid s \<Longrightarrow> trim (trim s) = trim s"
  by (simp add: trim_def [of "trim s"] chars_trim trim_chars_idem) (simp add: trim_def)

text \<open>Replacing line endings keeps a string valid: both characters involved are single bytes.\<close>

lemma utf8_valid_cons_char: "wf_char c \<Longrightarrow> utf8_valid t \<Longrightarrow> utf8_valid (c @ t)"
  by (simp add: utf8_valid_def chars_wf_append)

lemma replace_crlf_no_CR: "CR \<notin> set c \<Longrightarrow> replace_crlf (c @ t) = c @ replace_crlf t"
proof (induction c)
  case (Cons x c)
  then have "replace_crlf (x # (c @ t)) = x # replace_crlf (c @ t)"
    by (cases "c @ t") auto
  with Cons show ?case by simp
qed simp

lemma wf_char_CR: "wf_char c \<Longrightarrow> CR \<in> set c \<Longrightarrow> c = [CR]"
  using wf_char_byte_ge [of c CR] by (cases "length c = 1") (auto simp: length_Suc_conv)

text \<open>A carriage return is dropped before a line feed, which is a character of its own, and kept otherwise.\<close>

lemma replace_crlf_CR:
  assumes "list_all wf_char ds"
  obtains "ds = []" and "replace_crlf (CR # concat ds) = [CR]"
  | es where "ds = [LF] # es" and "replace_crlf (CR # concat ds) = LF # replace_crlf (concat es)"
  | "ds \<noteq> []" and "replace_crlf (CR # concat ds) = CR # replace_crlf (concat ds)"
proof (cases ds)
  case Nil
  then show ?thesis using that(1) by simp
next
  case Ds: (Cons d es)
  then obtain x y where d: "d = x # y" using assms by (cases d) (auto simp: wf_char_def)
  show ?thesis
  proof (cases "x = LF")
    case True
    with d Ds assms have "d = [LF]" by (auto simp: wf_char_def utf8_width_def)
    then show ?thesis using that(2) Ds by simp
  next
    case False
    then show ?thesis using that(3) Ds d by simp
  qed
qed

lemma replace_crlf_chars: "list_all wf_char cs \<Longrightarrow> utf8_valid (replace_crlf (concat cs))"
proof (induction "length cs" arbitrary: cs rule: less_induct)
  case less
  have ascii: "utf8_valid (LF # t)" "utf8_valid (CR # t)" if "utf8_valid t" for t
    using utf8_valid_cons_char [of "[LF]" t] utf8_valid_cons_char [of "[CR]" t] that by simp_all
  show ?case
  proof (cases cs)
    case (Cons c ds)
    with less.prems have c: "wf_char c" and ds: "list_all wf_char ds" by simp_all
    note IH = less.hyps [OF _ ds]
    show ?thesis
    proof (cases "CR \<in> set c")
      case False
      then show ?thesis using Cons c IH by (simp add: replace_crlf_no_CR utf8_valid_cons_char)
    next
      case True
      have "utf8_valid (replace_crlf (CR # concat ds))"
      proof (cases rule: replace_crlf_CR [OF ds])
        case 1
        then show ?thesis using ascii(2) [of "[]"] by (simp add: utf8_valid_def)
      next
        case (2 es)
        then show ?thesis using ascii(1) less.hyps [of es] Cons ds by simp
      next
        case 3
        then show ?thesis using ascii(2) IH Cons by simp
      qed
      then show ?thesis using Cons wf_char_CR [OF c True] by simp
    qed
  qed simp
qed

lemma utf8_valid_replace_crlf: "utf8_valid s \<Longrightarrow> utf8_valid (replace_crlf s)"
  using replace_crlf_chars [of "chars s"] by (simp add: utf8_valid_def)

end
