(* ===== verification/Encoding.thy ===== *)
theory Encoding
  imports Text
begin

text \<open>
  Numbers, identifiers and URLs as text: the formatting and parsing of integers by the
  Rust standard library, the hexadecimal forms of a UUID, and the percent-encoding that the
  code writes out by hand. Each encoding comes with its decoder and the round trip between them.
\<close>

section \<open>Decimal numbers\<close>

definition digit :: "nat \<Rightarrow> char" where
  "digit n = char_of (48 + n)"

definition digit_value :: "char \<Rightarrow> nat" where
  "digit_value b = byte b - 48"

text \<open>The \<open>Display\<close> of an unsigned and of a signed integer.\<close>

fun dec :: "nat \<Rightarrow> string" where
  "dec n = (if n < 10 then [digit n] else dec (n div 10) @ [digit (n mod 10)])"

declare dec.simps [simp del]

definition dec_int :: "int \<Rightarrow> string" where
  "dec_int i = (if i < 0 then CHR 0x2D # dec (nat (- i)) else dec (nat i))"

text \<open>\<open>{:02}\<close>, \<open>{:04}\<close>: zeros to the left up to the width.\<close>

definition pad :: "nat \<Rightarrow> nat \<Rightarrow> string" where
  "pad w n = replicate (w - length (dec n)) (digit 0) @ dec n"

definition digits_value :: "string \<Rightarrow> nat" where
  "digits_value ds = foldl (\<lambda>a d. a * 10 + digit_value d) 0 ds"

text \<open>
  \<open>str::parse\<close> of an unsigned integer with the given largest value: an optional plus sign, then
  at least one digit; anything else, and a value that does not fit, is an error.
\<close>

definition parse_digits :: "nat \<Rightarrow> string \<Rightarrow> nat option" where
  "parse_digits max_value ds =
     (if ds \<noteq> [] \<and> list_all ascii_digit ds \<and> digits_value ds \<le> max_value then Some (digits_value ds) else None)"

definition parse_unsigned :: "nat \<Rightarrow> string \<Rightarrow> nat option" where
  "parse_unsigned max_value s =
     (case s of CHR 0x2B # ds \<Rightarrow> parse_digits max_value ds | _ \<Rightarrow> parse_digits max_value s)"

text \<open>The signed parser also takes a minus sign.\<close>

definition parse_signed :: "nat \<Rightarrow> string \<Rightarrow> int option" where
  "parse_signed max_value s =
     (case s of CHR 0x2D # ds \<Rightarrow> map_option (\<lambda>n. - int n) (parse_digits (max_value + 1) ds)
      | _ \<Rightarrow> map_option int (parse_unsigned max_value s))"

abbreviation u16_max :: nat where "u16_max \<equiv> 65535"
abbreviation u32_max :: nat where "u32_max \<equiv> 4294967295"
abbreviation u64_max :: nat where "u64_max \<equiv> 18446744073709551615"
abbreviation i32_max :: nat where "i32_max \<equiv> 2147483647"
abbreviation i64_max :: nat where "i64_max \<equiv> 9223372036854775807"

lemma byte_digit: "n < 10 \<Longrightarrow> byte (digit n) = 48 + n"
  by (simp add: digit_def)

lemma digit_value_digit [simp]: "n < 10 \<Longrightarrow> digit_value (digit n) = n"
  by (simp add: digit_value_def byte_digit)

lemma ascii_digit_digit [simp]: "n < 10 \<Longrightarrow> ascii_digit (digit n)"
  by (simp add: ascii_digit_def byte_digit)

lemma dec_digits: "list_all ascii_digit (dec n)"
  by (induction n rule: dec.induct) (subst dec.simps, simp)

lemma dec_nonempty [simp]: "dec n \<noteq> []"
  by (subst dec.simps) simp

lemma digits_value_dec: "digits_value (dec n) = n"
proof (induction n rule: dec.induct)
  case (1 n)
  then show ?case
    by (subst dec.simps) (auto simp: digits_value_def)
qed

lemma dec_inj: "dec m = dec n \<longleftrightarrow> m = n"
  by (metis digits_value_dec)

lemma hd_dec_digit: "ascii_digit (hd (dec n))"
  using dec_digits [of n] dec_nonempty [of n] by (cases "dec n") (simp_all del: dec_nonempty)

lemma parse_digits_dec: "n \<le> m \<Longrightarrow> parse_digits m (dec n) = Some n"
  by (simp add: parse_digits_def dec_digits digits_value_dec)

lemma parse_unsigned_dec: "n \<le> m \<Longrightarrow> parse_unsigned m (dec n) = Some n"
proof -
  assume n: "n \<le> m"
  have "hd (dec n) \<noteq> CHR 0x2B" using hd_dec_digit [of n] by (auto simp: ascii_digit_def)
  then have "parse_unsigned m (dec n) = parse_digits m (dec n)"
    by (cases "dec n") (auto simp: parse_unsigned_def split: char.split bool.split)
  with n show ?thesis by (simp add: parse_digits_dec)
qed

lemma parse_unsigned_le: "parse_unsigned m s = Some n \<Longrightarrow> n \<le> m"
  by (auto simp: parse_unsigned_def parse_digits_def split: list.splits char.splits bool.splits if_splits)

lemma dec_ascii: "list_all (\<lambda>b. byte b < 128) (dec n)"
  using dec_digits [of n] by (auto simp: list_all_iff ascii_digit_def)

section \<open>Hexadecimal\<close>

definition hex_digit :: "nat \<Rightarrow> char" where
  "hex_digit n = (if n < 10 then char_of (48 + n) else char_of (87 + n))"

definition upper_hex_digit :: "nat \<Rightarrow> char" where
  "upper_hex_digit n = (if n < 10 then char_of (48 + n) else char_of (55 + n))"

definition hex_value :: "char \<Rightarrow> nat option" where
  "hex_value b = (
     if 48 \<le> byte b \<and> byte b \<le> 57 then Some (byte b - 48)
     else if 65 \<le> byte b \<and> byte b \<le> 70 then Some (byte b - 55)
     else if 97 \<le> byte b \<and> byte b \<le> 102 then Some (byte b - 87)
     else None)"

lemma hex_value_hex_digit: "n < 16 \<Longrightarrow> hex_value (hex_digit n) = Some n"
  by (simp add: hex_value_def hex_digit_def)

lemma hex_value_upper_hex_digit: "n < 16 \<Longrightarrow> hex_value (upper_hex_digit n) = Some n"
  by (simp add: hex_value_def upper_hex_digit_def)

lemma hex_digit_inj: "m < 16 \<Longrightarrow> n < 16 \<Longrightarrow> hex_digit m = hex_digit n \<longleftrightarrow> m = n"
  by (metis hex_value_hex_digit option.inject)

text \<open>The first \<open>n\<close> digits of a number, most significant first.\<close>

fun hex_digits :: "nat \<Rightarrow> nat \<Rightarrow> string" where
  "hex_digits 0 v = []"
| "hex_digits (Suc n) v = hex_digits n (v div 16) @ [hex_digit (v mod 16)]"

lemma length_hex_digits [simp]: "length (hex_digits n v) = n"
  by (induction n arbitrary: v) simp_all

lemma hex_digits_inj: "v < 16 ^ n \<Longrightarrow> w < 16 ^ n \<Longrightarrow> hex_digits n v = hex_digits n w \<Longrightarrow> v = w"
proof (induction n arbitrary: v w)
  case (Suc n)
  then have "v div 16 < 16 ^ n" "w div 16 < 16 ^ n" by (simp_all add: less_mult_imp_div_less mult.commute)
  with Suc have "v div 16 = w div 16" "v mod 16 = w mod 16"
    by (auto simp: hex_digit_inj)
  then show ?case by (metis div_mult_mod_eq)
qed simp

section \<open>UUIDs\<close>

type_synonym uuid = "128 word"

text \<open>\<open>Uuid::simple\<close>: 32 lower-case digits; \<open>Display\<close>: the same, hyphenated.\<close>

definition uuid_simple :: "uuid \<Rightarrow> string" where
  "uuid_simple u = hex_digits 32 (unat u)"

definition uuid_string :: "uuid \<Rightarrow> string" where
  "uuid_string u = (let s = uuid_simple u in
     take 8 s @ ''-'' @ take 4 (drop 8 s) @ ''-'' @ take 4 (drop 12 s) @ ''-'' @
     take 4 (drop 16 s) @ ''-'' @ drop 20 s)"

lemma uuid_simple_inj: "uuid_simple u = uuid_simple v \<longleftrightarrow> u = v"
proof
  assume eq: "uuid_simple u = uuid_simple v"
  have "unat x < 16 ^ 32" for x :: uuid using unsigned_less [of x] by simp
  from hex_digits_inj [OF this this] eq show "u = v" by (simp add: uuid_simple_def word_unat_eq_iff)
qed simp

lemma uuid_string_inj: "uuid_string u = uuid_string v \<longleftrightarrow> u = v"
proof
  define a b where "a = uuid_simple u" and "b = uuid_simple v"
  have len: "length a = 32" "length b = 32" by (simp_all add: a_def b_def uuid_simple_def)
  assume "uuid_string u = uuid_string v"
  then have parts: "take 8 a = take 8 b" "take 4 (drop 8 a) = take 4 (drop 8 b)"
    "take 4 (drop 12 a) = take 4 (drop 12 b)" "take 4 (drop 16 a) = take 4 (drop 16 b)" "drop 20 a = drop 20 b"
    using len by (auto simp: uuid_string_def Let_def a_def [symmetric] b_def [symmetric])
  have join: "x = y" if "take n x = take n y" "drop n x = drop n y" for n and x y :: string
    using that by (metis append_take_drop_id)
  have "drop 16 a = drop 16 b" by (rule join [OF parts(4)]) (simp add: parts(5))
  then have "drop 12 a = drop 12 b" by (intro join [OF parts(3)]) simp
  then have "drop 8 a = drop 8 b" by (intro join [OF parts(2)]) simp
  then have "a = b" by (rule join [OF parts(1)])
  then show "u = v" by (simp add: a_def b_def uuid_simple_inj)
qed simp

lemma set_hex_digits: "set (hex_digits n v) \<subseteq> hex_digit ` {..<16}"
  by (induction n arbitrary: v) auto

lemma length_uuid_string: "length (uuid_string u) = 36"
  by (simp add: uuid_string_def uuid_simple_def Let_def)

lemma set_uuid_string: "set (uuid_string u) \<subseteq> insert CHR ''-'' (hex_digit ` {..<16})"
proof -
  have "set (uuid_simple u) \<subseteq> hex_digit ` {..<16}" by (simp add: uuid_simple_def set_hex_digits)
  then show ?thesis
    by (auto simp: uuid_string_def Let_def dest!: in_set_takeD in_set_dropD)
qed

lemma uuid_string_all:
  assumes "P CHR ''-''" and "\<forall>n \<in> {..<16}. P (hex_digit n)"
  shows "list_all P (uuid_string u)"
  using assms set_uuid_string [of u] by (auto simp: list_all_iff)

section \<open>Percent-encoding\<close>

text \<open>The unreserved characters of RFC 3986.\<close>

definition unreserved :: "char \<Rightarrow> bool" where
  "unreserved b \<longleftrightarrow> ascii_alphanumeric b \<or> b \<in> {CHR 0x2D, CHR 0x5F, CHR 0x2E, CHR 0x7E}"

definition percent_byte :: "char \<Rightarrow> string" where
  "percent_byte b = [CHR 0x25, upper_hex_digit (byte b div 16), upper_hex_digit (byte b mod 16)]"

text \<open>What a server does with an encoded component, so that the encoders can be judged by it.\<close>

fun percent_decode :: "string \<Rightarrow> string option" where
  "percent_decode [] = Some []"
| "percent_decode (CHR 0x25 # a # b # s) = (case (hex_value a, hex_value b) of
     (Some m, Some n) \<Rightarrow> map_option (Cons (char_of (m * 16 + n))) (percent_decode s) | _ \<Rightarrow> None)"
| "percent_decode (c # s) = (if c = CHR 0x25 then None else map_option (Cons c) (percent_decode s))"

lemma percent_decode_plain:
  "c \<noteq> CHR 0x25 \<Longrightarrow> percent_decode (c # s) = map_option (Cons c) (percent_decode s)"
  by (cases "(c # s)" rule: percent_decode.cases) auto

lemma percent_decode_byte:
  "percent_decode (percent_byte b @ s) = map_option (Cons b) (percent_decode s)"
proof -
  have "byte b < 256" by (simp add: of_char_def)
  then have "byte b div 16 < 16" "byte b mod 16 < 16" by (auto intro: less_mult_imp_div_less)
  then show ?thesis by (simp add: percent_byte_def hex_value_upper_hex_digit)
qed

lemma percent_decode_encoded:
  assumes "\<And>b. safe b \<Longrightarrow> b \<noteq> CHR 0x25"
  shows "percent_decode (concat (map (\<lambda>b. if safe b then [b] else percent_byte b) s)) = Some s"
  using assms by (induction s) (simp_all add: percent_decode_plain percent_decode_byte)

lemma set_percent_byte: "set (percent_byte b) \<subseteq> {c. c = CHR 0x25 \<or> ascii_alphanumeric c}"
proof -
  have "byte b < 256" by (simp add: of_char_def)
  then have "byte b div 16 < 16" "byte b mod 16 < 16" by (auto intro: less_mult_imp_div_less)
  moreover have "ascii_alphanumeric (upper_hex_digit n)" if "n < 16" for n
    using that by (simp add: upper_hex_digit_def ascii_alphanumeric_def ascii_digit_def ascii_alpha_def)
  ultimately show ?thesis by (simp add: percent_byte_def)
qed

text \<open>
  The common shape of the program's percent-encoders: unreserved characters stand for themselves,
  every other byte is escaped.
\<close>

definition percent_encoded :: "string \<Rightarrow> string" where
  "percent_encoded s = concat (map (\<lambda>b. if unreserved b then [b] else percent_byte b) s)"

lemma percent_decode_percent_encoded [simp]: "percent_decode (percent_encoded s) = Some s"
  unfolding percent_encoded_def
  by (rule percent_decode_encoded) (auto simp: unreserved_def ascii_alphanumeric_def ascii_digit_def ascii_alpha_def)

lemma set_percent_encoded: "set (percent_encoded s) \<subseteq> {c. c = CHR 0x25 \<or> unreserved c}"
  unfolding percent_encoded_def using set_percent_byte by (fastforce simp: unreserved_def split: if_splits)

lemma percent_encoded_no: "\<not> unreserved c \<Longrightarrow> c \<noteq> CHR 0x25 \<Longrightarrow> c \<notin> set (percent_encoded s)"
  using set_percent_encoded by blast

end
