(* ===== verification/I18n.thy ===== *)
theory I18n
  imports Encoding
begin

text \<open>
  The catalogue of user-facing text (\<open>crates/domain/src/i18n.rs\<close>, module \<open>nb\<close>): the strings
  that the modelled code returns, as the UTF-8 bytes of the source. The labels that only
  templates show are not repeated.
\<close>

section \<open>Letters beyond ASCII\<close>

abbreviation ae :: string where "ae \<equiv> [CHR 0xC3, CHR 0xA6]"
abbreviation oe :: string where "oe \<equiv> [CHR 0xC3, CHR 0xB8]"
abbreviation aa :: string where "aa \<equiv> [CHR 0xC3, CHR 0xA5]"
abbreviation dash :: string where "dash \<equiv> [CHR 0xE2, CHR 0x80, CHR 0x93]"
abbreviation dots :: string where "dots \<equiv> [CHR 0xE2, CHR 0x80, CHR 0xA6]"

section \<open>Constants\<close>

definition UNKNOWN_USER :: string where
  "UNKNOWN_USER = ''Ukjent bruker''"

definition MEDIA_IMAGE :: string where
  "MEDIA_IMAGE = ''Bilde''"

definition MEDIA_AUDIO :: string where
  "MEDIA_AUDIO = ''Lyd''"

definition MEDIA_VIDEO :: string where
  "MEDIA_VIDEO = ''Video''"

definition ERR_REFERENCE_TOO_LARGE :: string where
  "ERR_REFERENCE_TOO_LARGE = ''Referansebildet er for stort. Maks 10 MB.''"

definition ERR_REFERENCE_TYPE :: string where
  "ERR_REFERENCE_TYPE = ''Referansebildet m'' @ aa @ '' v'' @ ae @ ''re PNG, JPEG eller WebP.''"

definition STATUS_QUEUED :: string where
  "STATUS_QUEUED = ''I k'' @ oe @ '' '' @ dots"

definition STATUS_RUNNING :: string where
  "STATUS_RUNNING = ''Genererer '' @ dots"

definition PAGE_HISTORY_TITLE :: string where
  "PAGE_HISTORY_TITLE = ''Min historikk''"

definition PAGE_HISTORY_LEAD :: string where
  "PAGE_HISTORY_LEAD = ''Her finner du alt du har generert, med nyeste f'' @ oe @ ''rst.''"

definition PAGE_ARCHIVE_TITLE :: string where
  "PAGE_ARCHIVE_TITLE = ''Ferdig generert innhold''"

definition PAGE_ARCHIVE_LEAD :: string where
  "PAGE_ARCHIVE_LEAD = ''Arkiv over generert innhold. Du kan velge mellom dine egne og alle, sortere etter dato og filtrere p'' @ aa @ '' bilde, lyd og video.''"

definition ERROR_HEADING_SIGN_IN :: string where
  "ERROR_HEADING_SIGN_IN = ''Du m'' @ aa @ '' logge inn''"

definition ERROR_HEADING_NO_ACCESS :: string where
  "ERROR_HEADING_NO_ACCESS = ''Ingen tilgang''"

definition ERROR_HEADING_NOT_FOUND :: string where
  "ERROR_HEADING_NOT_FOUND = ''Fant ikke siden''"

definition ERROR_HEADING_TOO_MUCH :: string where
  "ERROR_HEADING_TOO_MUCH = ''Vent litt''"

definition ERROR_HEADING_SOMETHING_WRONG :: string where
  "ERROR_HEADING_SOMETHING_WRONG = ''Noe gikk galt''"

definition RATE_LIMIT_REMAINING_LABEL :: string where
  "RATE_LIMIT_REMAINING_LABEL = ''igjen denne timen''"

definition ERR_INTERNAL :: string where
  "ERR_INTERNAL = ''Noe gikk galt hos oss. Pr'' @ oe @ ''v igjen om litt '' @ dash @ '' feilen er logget.''"

definition ERR_UNAUTHENTICATED :: string where
  "ERR_UNAUTHENTICATED = ''Du m'' @ aa @ '' logge inn for '' @ aa @ '' bruke Mediagenerator.''"

definition ERR_FORBIDDEN :: string where
  "ERR_FORBIDDEN = ''Du har ikke tilgang til Mediagenerator. Kontakt Oslofjord IT for '' @ aa @ '' f'' @ aa @ '' tilgang.''"

definition ERR_NOT_FOUND :: string where
  "ERR_NOT_FOUND = ''Fant ikke det du lette etter.''"

definition ERR_RATE_LIMITED :: string where
  "ERR_RATE_LIMITED = ''Du har generert mye p'' @ aa @ '' kort tid. Vent litt f'' @ oe @ ''r du pr'' @ oe @ ''ver igjen.''"

definition ERR_CONTENT_FILTER :: string where
  "ERR_CONTENT_FILTER = ''Beskrivelsen ble avvist av innholdsfilteret. Pr'' @ oe @ ''v '' @ aa @ '' formulere den annerledes.''"

definition ERR_NOT_DEPLOYED :: string where
  "ERR_NOT_DEPLOYED = ''Denne medietypen er ikke satt opp enn'' @ aa @ ''. Si fra til Oslofjord IT.''"

definition ERR_UPSTREAM :: string where
  "ERR_UPSTREAM = ''AI-tjenesten svarer ikke akkurat n'' @ aa @ ''. Pr'' @ oe @ ''v igjen om noen minutter.''"

definition ERR_CSRF :: string where
  "ERR_CSRF = ''Sikkerhetssjekken feilet. Last siden p'' @ aa @ '' nytt og pr'' @ oe @ ''v igjen.''"

definition ERR_GENERATION_TIMEOUT :: string where
  "ERR_GENERATION_TIMEOUT = ''Genereringen tok for lang tid og ble avbrutt. Pr'' @ oe @ ''v igjen, gjerne med en kortere beskrivelse.''"

definition ERR_QUEUE_FULL :: string where
  "ERR_QUEUE_FULL = ''Det er mye som genereres akkurat n'' @ aa @ ''. Pr'' @ oe @ ''v igjen om et par minutter.''"

definition ERR_JOB_INTERRUPTED :: string where
  "ERR_JOB_INTERRUPTED = ''Genereringen ble avbrutt fordi tjenesten startet p'' @ aa @ '' nytt. Pr'' @ oe @ ''v igjen.''"

definition ERR_VALIDATION :: string where
  "ERR_VALIDATION = ''Det du sendte inn kunne ikke brukes.''"

definition ERR_LOGIN_FAILED :: string where
  "ERR_LOGIN_FAILED = ''Innloggingen feilet. Pr'' @ oe @ ''v '' @ aa @ '' logge inn p'' @ aa @ '' nytt.''"

definition ERR_PROMPT_EMPTY :: string where
  "ERR_PROMPT_EMPTY = ''Du m'' @ aa @ '' beskrive hva du vil lage.''"

definition ERR_PROMPT_CONTROL_CHARS :: string where
  "ERR_PROMPT_CONTROL_CHARS = ''Beskrivelsen inneholder ugyldige tegn.''"

definition ERR_UNKNOWN_MEDIA_TYPE :: string where
  "ERR_UNKNOWN_MEDIA_TYPE = ''Ukjent medietype.''"

definition SECONDS_SUFFIX :: string where
  "SECONDS_SUFFIX = ''s''"

section \<open>Composed messages\<close>

definition page_of :: "int \<Rightarrow> int \<Rightarrow> string" where
  "page_of page pages = ''Side '' @ dec_int page @ '' av '' @ dec_int pages"

definition generations_remaining :: "nat \<Rightarrow> string" where
  "generations_remaining remaining = dec remaining @ '' genereringer '' @ RATE_LIMIT_REMAINING_LABEL"

definition err_prompt_too_long :: "nat \<Rightarrow> string" where
  "err_prompt_too_long max_chars = ''Beskrivelsen kan v'' @ ae @ ''re maks '' @ dec max_chars @ '' tegn.''"

end
