(* ===== verification/Domain.thy ===== *)
theory Domain
  imports I18n
begin

text \<open>
  The domain crate (\<open>crates/domain\<close>): error codes, media types, the validation of a
  prompt, the lifecycle of a job and the data the other crates exchange. A value that is
  stored or put on the wire as text has an encoder and a parser; the locale \<open>codec\<close> states
  the law they share, and each pair is an interpretation of it.
\<close>

section \<open>Values that are stored as text\<close>

locale codec =
  fixes encode :: "'a \<Rightarrow> 'b" and decode :: "'b \<Rightarrow> 'a option"
  assumes decode_encode: "decode (encode x) = Some x"
begin

lemma encode_inj: "encode x = encode y \<longleftrightarrow> x = y"
  by (metis decode_encode option.inject)

lemma inj_encode: "inj encode"
  by (simp add: inj_def encode_inj)

lemma decoded_iff: "b \<in> range encode \<Longrightarrow> decode b = Some x \<longleftrightarrow> b = encode x"
  using decode_encode encode_inj by auto

end

section \<open>JSON\<close>

text \<open>
  \<open>serde_json::Value\<close>. A number is kept as an integer when it is one; any other number is
  kept by its text, since the code only ever asks whether a number is an integer.
\<close>

datatype json =
    JNull
  | JBool bool
  | JNum int
  | JFloat string
  | JStr string
  | JArr "json list"
  | JObj "(string \<times> json) list"

text \<open>\<open>Value::get\<close>, \<open>as_str\<close> and \<open>as_u64\<close>; a repeated key of an object keeps its last value.\<close>

fun json_get :: "string \<Rightarrow> json \<Rightarrow> json option" where
  "json_get k (JObj fields) = map_of (rev fields) k"
| "json_get k _ = None"

fun json_as_str :: "json \<Rightarrow> string option" where
  "json_as_str (JStr s) = Some s"
| "json_as_str _ = None"

fun json_as_u64 :: "json \<Rightarrow> nat option" where
  "json_as_u64 (JNum i) = (if 0 \<le> i \<and> i \<le> int u64_max then Some (nat i) else None)"
| "json_as_u64 _ = None"

section \<open>Error codes\<close>

datatype error_code =
    Validation
  | Unauthenticated
  | Forbidden
  | NotFound
  | RateLimited
  | ContentFilter
  | Upstream
  | Internal

fun error_code_as_str :: "error_code \<Rightarrow> string" where
  "error_code_as_str Validation = ''validation''"
| "error_code_as_str Unauthenticated = ''unauthenticated''"
| "error_code_as_str Forbidden = ''forbidden''"
| "error_code_as_str NotFound = ''not_found''"
| "error_code_as_str RateLimited = ''rate_limited''"
| "error_code_as_str ContentFilter = ''content_filter''"
| "error_code_as_str Upstream = ''upstream''"
| "error_code_as_str Internal = ''internal''"

definition from_str_or_internal :: "string \<Rightarrow> error_code" where
  "from_str_or_internal value =
     (if value = ''validation'' then Validation
      else if value = ''unauthenticated'' then Unauthenticated
      else if value = ''forbidden'' then Forbidden
      else if value = ''not_found'' then NotFound
      else if value = ''rate_limited'' then RateLimited
      else if value = ''content_filter'' then ContentFilter
      else if value = ''upstream'' then Upstream
      else Internal)"

fun user_message :: "error_code \<Rightarrow> string" where
  "user_message Validation = ERR_VALIDATION"
| "user_message Unauthenticated = ERR_UNAUTHENTICATED"
| "user_message Forbidden = ERR_FORBIDDEN"
| "user_message NotFound = ERR_NOT_FOUND"
| "user_message RateLimited = ERR_RATE_LIMITED"
| "user_message ContentFilter = ERR_CONTENT_FILTER"
| "user_message Upstream = ERR_UPSTREAM"
| "user_message Internal = ERR_INTERNAL"

datatype domain_error = DomainValidation string | DomainNotFound string

fun domain_error_code :: "domain_error \<Rightarrow> error_code" where
  "domain_error_code (DomainValidation _) = Validation"
| "domain_error_code (DomainNotFound _) = NotFound"

fun domain_error_message :: "domain_error \<Rightarrow> string" where
  "domain_error_message (DomainValidation m) = m"
| "domain_error_message (DomainNotFound m) = m"

lemma from_str_error_code [simp]: "from_str_or_internal (error_code_as_str c) = c"
  by (cases c) (simp_all add: from_str_or_internal_def)

interpretation error_codes: codec error_code_as_str "\<lambda>s. Some (from_str_or_internal s)"
  by unfold_locales simp

instantiation error_code :: enum
begin

definition enum_error_code :: "error_code list" where
  "enum_error_code = [Validation, Unauthenticated, Forbidden, NotFound, RateLimited, ContentFilter, Upstream, Internal]"

definition enum_all_error_code :: "(error_code \<Rightarrow> bool) \<Rightarrow> bool" where
  "enum_all_error_code P \<longleftrightarrow> list_all P Enum.enum"

definition enum_ex_error_code :: "(error_code \<Rightarrow> bool) \<Rightarrow> bool" where
  "enum_ex_error_code P \<longleftrightarrow> list_ex P Enum.enum"

lemma UNIV_error_code: "UNIV = set (Enum.enum :: error_code list)"
proof -
  have "c \<in> set Enum.enum" for c :: error_code by (cases c) (simp_all add: enum_error_code_def)
  then show ?thesis by blast
qed

instance
proof
  show "UNIV = set (Enum.enum :: error_code list)" by (rule UNIV_error_code)
  show "distinct (Enum.enum :: error_code list)" by (simp add: enum_error_code_def)
  show "Enum.enum_all P \<longleftrightarrow> Ball UNIV P" for P :: "error_code \<Rightarrow> bool"
    unfolding UNIV_error_code enum_all_error_code_def by (simp add: list_all_iff)
  show "Enum.enum_ex P \<longleftrightarrow> Bex UNIV P" for P :: "error_code \<Rightarrow> bool"
    unfolding UNIV_error_code enum_ex_error_code_def by (simp add: list_ex_iff)
qed

end

section \<open>Media types\<close>

datatype media_type = Image | Audio | Video

fun media_as_str :: "media_type \<Rightarrow> string" where
  "media_as_str Image = ''image''"
| "media_as_str Audio = ''audio''"
| "media_as_str Video = ''video''"

fun media_label :: "media_type \<Rightarrow> string" where
  "media_label Image = MEDIA_IMAGE"
| "media_label Audio = MEDIA_AUDIO"
| "media_label Video = MEDIA_VIDEO"

definition media_ALL :: "media_type list" where
  "media_ALL = [Image, Audio, Video]"

definition media_from_str :: "string \<Rightarrow> domain_error + media_type" where
  "media_from_str value =
     (if value = ''image'' then Inr Image
      else if value = ''audio'' then Inr Audio
      else if value = ''video'' then Inr Video
      else Inl (DomainValidation ERR_UNKNOWN_MEDIA_TYPE))"

text \<open>\<open>Result::ok\<close> and \<open>unwrap_or\<close>.\<close>

definition ok :: "'e + 'a \<Rightarrow> 'a option" where
  "ok r = (case r of Inl _ \<Rightarrow> None | Inr x \<Rightarrow> Some x)"

definition unwrap_or :: "'a \<Rightarrow> 'e + 'a \<Rightarrow> 'a" where
  "unwrap_or d r = (case r of Inl _ \<Rightarrow> d | Inr x \<Rightarrow> x)"

lemma ok_simps [simp]: "ok (Inl e) = None" "ok (Inr x) = Some x"
  by (simp_all add: ok_def)

lemma unwrap_or_simps [simp]: "unwrap_or d (Inl e) = d" "unwrap_or d (Inr x) = x"
  by (simp_all add: unwrap_or_def)

lemma media_from_str_as_str [simp]: "media_from_str (media_as_str m) = Inr m"
  by (cases m) (simp_all add: media_from_str_def)

lemma media_from_str_Inr: "media_from_str s = Inr m \<longleftrightarrow> s = media_as_str m"
  by (cases m) (auto simp: media_from_str_def)

interpretation media_types: codec media_as_str "\<lambda>s. ok (media_from_str s)"
  by unfold_locales simp

instantiation media_type :: enum
begin

definition enum_media_type :: "media_type list" where
  "enum_media_type = media_ALL"

definition enum_all_media_type :: "(media_type \<Rightarrow> bool) \<Rightarrow> bool" where
  "enum_all_media_type P \<longleftrightarrow> list_all P media_ALL"

definition enum_ex_media_type :: "(media_type \<Rightarrow> bool) \<Rightarrow> bool" where
  "enum_ex_media_type P \<longleftrightarrow> list_ex P media_ALL"

lemma UNIV_media_type: "UNIV = set media_ALL"
proof -
  have "m \<in> set media_ALL" for m by (cases m) (simp_all add: media_ALL_def)
  then show ?thesis by blast
qed

instance
proof
  show "UNIV = set (Enum.enum :: media_type list)" by (simp add: UNIV_media_type enum_media_type_def)
  show "distinct (Enum.enum :: media_type list)" by (simp add: enum_media_type_def media_ALL_def)
  show "Enum.enum_all P \<longleftrightarrow> Ball UNIV P" for P :: "media_type \<Rightarrow> bool"
    unfolding UNIV_media_type enum_all_media_type_def by (simp add: list_all_iff)
  show "Enum.enum_ex P \<longleftrightarrow> Bex UNIV P" for P :: "media_type \<Rightarrow> bool"
    unfolding UNIV_media_type enum_ex_media_type_def by (simp add: list_ex_iff)
qed

end


section \<open>Prompts\<close>

definition validate_prompt :: "string \<Rightarrow> nat \<Rightarrow> domain_error + string" where
  "validate_prompt raw max_chars = (
     let normalised = replace_crlf raw;
         trimmed = trim normalised
     in if trimmed = [] then Inl (DomainValidation ERR_PROMPT_EMPTY)
        else if max_chars < length (chars trimmed) then Inl (DomainValidation (err_prompt_too_long max_chars))
        else if list_ex (\<lambda>c. is_control c \<and> c \<noteq> [LF] \<and> c \<noteq> [TAB]) (chars trimmed)
          then Inl (DomainValidation ERR_PROMPT_CONTROL_CHARS)
        else Inr trimmed)"

text \<open>What a stored prompt looks like.\<close>

definition clean_prompt :: "nat \<Rightarrow> string \<Rightarrow> bool" where
  "clean_prompt n p \<longleftrightarrow> utf8_valid p \<and> p \<noteq> [] \<and> trim p = p \<and> length (chars p) \<le> n \<and>
     (\<forall>c \<in> set (chars p). is_control c \<longrightarrow> c = [LF] \<or> c = [TAB])"

lemma clean_prompt_no_CR: "clean_prompt n p \<Longrightarrow> CR \<notin> set p"
  using ascii_byte_is_char [of p CR] by (auto simp: clean_prompt_def is_control_def)

lemma validate_prompt_iff:
  assumes "utf8_valid raw"
  shows "validate_prompt raw n = Inr p \<longleftrightarrow> trim (replace_crlf raw) = p \<and> clean_prompt n p"
proof -
  have "utf8_valid (trim (replace_crlf raw))" "trim (trim (replace_crlf raw)) = trim (replace_crlf raw)"
    using assms by (simp_all add: utf8_valid_trim utf8_valid_replace_crlf trim_idem)
  then show ?thesis
    by (auto simp: validate_prompt_def clean_prompt_def Let_def list_ex_iff)
qed

lemma validate_clean_prompt: "clean_prompt n p \<Longrightarrow> validate_prompt p n = Inr p"
  using clean_prompt_no_CR [of n p]
  by (subst validate_prompt_iff) (auto simp: clean_prompt_def replace_crlf_id)

text \<open>The line endings of Windows.\<close>

definition to_crlf :: "string \<Rightarrow> string" where
  "to_crlf s = concat (map (\<lambda>b. if b = LF then [CR, LF] else [b]) s)"

lemma replace_crlf_to_crlf: "CR \<notin> set s \<Longrightarrow> replace_crlf (to_crlf s) = s"
proof (induction s)
  case (Cons b s)
  have "replace_crlf (b # t) = b # replace_crlf t" if "b \<noteq> CR" for t
    using that by (cases t) auto
  with Cons show ?case by (auto simp: to_crlf_def)
qed (simp add: to_crlf_def)

section \<open>Job lifecycle\<close>

datatype job_status =
    Queued
  | Running
  | Succeeded
  | Failed (failed_code: error_code) (failed_message: string)
  | Cancelled

fun status_as_str :: "job_status \<Rightarrow> string" where
  "status_as_str Queued = ''queued''"
| "status_as_str Running = ''running''"
| "status_as_str Succeeded = ''succeeded''"
| "status_as_str (Failed _ _) = ''failed''"
| "status_as_str Cancelled = ''cancelled''"

fun is_terminal :: "job_status \<Rightarrow> bool" where
  "is_terminal Succeeded = True"
| "is_terminal (Failed _ _) = True"
| "is_terminal Cancelled = True"
| "is_terminal _ = False"

definition from_columns :: "string \<Rightarrow> string option \<Rightarrow> string option \<Rightarrow> job_status" where
  "from_columns status code message =
     (if status = ''queued'' then Queued
      else if status = ''running'' then Running
      else if status = ''succeeded'' then Succeeded
      else if status = ''cancelled'' then Cancelled
      else if status = ''failed'' then
        Failed (case code of None \<Rightarrow> Internal | Some c \<Rightarrow> from_str_or_internal c)
               (case message of None \<Rightarrow> ERR_INTERNAL | Some m \<Rightarrow> m)
      else Failed Internal ERR_INTERNAL)"

fun status_error_code :: "job_status \<Rightarrow> error_code option" where
  "status_error_code (Failed code _) = Some code"
| "status_error_code _ = None"

fun status_error_message :: "job_status \<Rightarrow> string option" where
  "status_error_message (Failed _ message) = Some message"
| "status_error_message _ = None"

text \<open>The three columns that store a status, as \<open>storage::jobs::finish\<close> fills them.\<close>

definition to_columns :: "job_status \<Rightarrow> string \<times> string option \<times> string option" where
  "to_columns s = (status_as_str s, map_option error_code_as_str (status_error_code s), status_error_message s)"

lemma from_columns_to_columns:
  "from_columns (status_as_str s) (map_option error_code_as_str (status_error_code s)) (status_error_message s) = s"
  by (cases s) (simp_all add: from_columns_def)

interpretation status_columns: codec to_columns "\<lambda>(s, c, m). Some (from_columns s c m)"
  by unfold_locales (simp add: to_columns_def from_columns_to_columns)

lemma from_columns_terminal_iff:
  "is_terminal (from_columns s c m) \<longleftrightarrow> s \<noteq> ''queued'' \<and> s \<noteq> ''running''"
  by (simp add: from_columns_def)

lemma is_terminal_iff: "is_terminal s \<longleftrightarrow> s \<noteq> Queued \<and> s \<noteq> Running"
  by (cases s) simp_all

text \<open>
  The transitions of the lifecycle: a worker claims a queued job, and any unfinished job can
  be finished with a terminal status (by the worker that holds it, by a refusal of the full
  queue, or by the sweep after a restart).
\<close>

inductive status_step :: "job_status \<Rightarrow> job_status \<Rightarrow> bool" where
  claim: "status_step Queued Running"
| finish: "\<not> is_terminal s \<Longrightarrow> is_terminal t \<Longrightarrow> status_step s t"

inductive_cases status_stepE: "status_step s t"
inductive_simps status_step_from_terminal: "status_step Succeeded t" "status_step (Failed c m) t" "status_step Cancelled t"

lemma status_step_terminal: "is_terminal s \<Longrightarrow> \<not> status_step s t"
  by (cases s) (simp_all add: status_step_from_terminal)

lemma status_steps_terminal: "status_step\<^sup>*\<^sup>* s t \<Longrightarrow> is_terminal s \<Longrightarrow> t = s"
  by (induction rule: converse_rtranclp_induct) (auto dest: status_step_terminal)

section \<open>Records exchanged with storage\<close>

record job =
  job_id :: uuid
  job_user_id :: uuid
  job_media_type :: media_type
  job_prompt :: string
  job_parameters :: json
  job_status :: job_status
  job_provider_job_id :: "string option"
  job_created_at :: instant
  job_started_at :: "instant option"
  job_completed_at :: "instant option"

definition job_duration :: "job \<Rightarrow> duration option" where
  "job_duration j = (case job_started_at j of None \<Rightarrow> None | Some started \<Rightarrow>
     (case job_completed_at j of None \<Rightarrow> None | Some completed \<Rightarrow> Some (completed - started)))"

record new_job =
  new_user_id :: uuid
  new_media_type :: media_type
  new_prompt :: string
  new_parameters :: json

record job_list_item =
  item_id :: uuid
  item_media_type :: media_type
  item_prompt :: string
  item_status :: job_status
  item_created_at :: instant
  item_asset_id :: "uuid option"
  item_owner_name :: string
  item_hidden :: bool
  item_owned_by_viewer :: bool

record list_filter =
  filter_user_id :: "uuid option"
  filter_media_type :: "media_type option"
  exclude_hidden :: bool
  only_succeeded :: bool
  newest_first :: bool
  page_limit :: int
  page_offset :: int

record asset =
  asset_id :: uuid
  asset_job_id :: uuid
  asset_blob_path :: string
  asset_content_type :: string
  asset_size_bytes :: int
  asset_duration_ms :: "int option"
  asset_width :: "int option"
  asset_height :: "int option"
  asset_created_at :: instant

record new_asset =
  na_job_id :: uuid
  na_blob_path :: string
  na_content_type :: string
  na_size_bytes :: int
  na_duration_ms :: "int option"
  na_width :: "int option"
  na_height :: "int option"

record user =
  user_id :: uuid
  entra_oid :: string
  user_email :: "string option"
  display_name :: string
  user_created_at :: instant
  last_login_at :: instant

datatype audit_action =
    SignIn | SignOut | GenerationRequested | GenerationSucceeded | GenerationFailed
  | GenerationDeleted | AssetAccessed

fun audit_action_as_str :: "audit_action \<Rightarrow> string" where
  "audit_action_as_str SignIn = ''sign_in''"
| "audit_action_as_str SignOut = ''sign_out''"
| "audit_action_as_str GenerationRequested = ''generation_requested''"
| "audit_action_as_str GenerationSucceeded = ''generation_succeeded''"
| "audit_action_as_str GenerationFailed = ''generation_failed''"
| "audit_action_as_str GenerationDeleted = ''generation_deleted''"
| "audit_action_as_str AssetAccessed = ''asset_accessed''"

record audit_entry =
  entry_user_id :: "uuid option"
  entry_action :: audit_action
  entry_entity :: string
  entry_entity_id :: "string option"
  entry_ip :: "string option"
  entry_user_agent :: "string option"

section \<open>Properties of the domain\<close>

text \<open>
  C24: prompt validation accepts exactly the prompts that are clean once line endings are folded and
  the ends are trimmed, returns that clean text (nonempty, trimmed, within the limit in characters,
  no control character but newline and tab, no carriage return), and accepts its own result
  unchanged; a refusal is always a validation error.
\<close>

theorem validate_prompt_correct:
  assumes "utf8_valid raw"
  shows "case validate_prompt raw n of
      Inr p \<Rightarrow> p = trim (replace_crlf raw) \<and> clean_prompt n p \<and> CR \<notin> set p \<and> validate_prompt p n = Inr p
    | Inl e \<Rightarrow> domain_error_code e = Validation \<and> \<not> clean_prompt n (trim (replace_crlf raw))"
proof (cases "validate_prompt raw n")
  case (Inl e)
  then have "domain_error_code e = Validation"
    by (auto simp: validate_prompt_def Let_def split: if_splits)
  moreover have "\<not> clean_prompt n (trim (replace_crlf raw))"
    using Inl validate_prompt_iff [OF assms, of n "trim (replace_crlf raw)"] by auto
  ultimately show ?thesis by (simp add: Inl)
next
  case (Inr p)
  then show ?thesis
    using validate_prompt_iff [OF assms, of n p] clean_prompt_no_CR validate_clean_prompt by auto
qed

theorem validate_prompt_correct_witness:
  "validate_prompt (''  Fj'' @ ae @ ''re'' @ [CR, LF, CR, LF] @ ''hav '') 4000 = Inr (''Fj'' @ ae @ ''re'' @ [LF, LF] @ ''hav'') \<and>
   clean_prompt 4000 (''Fj'' @ ae @ ''re'' @ [LF, LF] @ ''hav'')"
proof -
  have v: "utf8_valid (''  Fj'' @ ae @ ''re'' @ [CR, LF, CR, LF] @ ''hav '')" by code_simp
  have e: "validate_prompt (''  Fj'' @ ae @ ''re'' @ [CR, LF, CR, LF] @ ''hav '') 4000 =
      Inr (''Fj'' @ ae @ ''re'' @ [LF, LF] @ ''hav'')" by code_simp
  from validate_prompt_correct [OF v, of 4000] show ?thesis unfolding e sum.case by blast
qed

text \<open>
  The same text typed on Windows and elsewhere is the same prompt: writing every newline as
  carriage return and newline changes neither the stored prompt nor the error.
\<close>

theorem validate_prompt_line_endings:
  assumes "CR \<notin> set s"
  shows "validate_prompt (to_crlf s) n = validate_prompt s n"
  using assms by (simp add: validate_prompt_def replace_crlf_to_crlf replace_crlf_id)

theorem validate_prompt_line_endings_witness:
  "validate_prompt (''a'' @ [CR, LF] @ ''b'') 10 = Inr (''a'' @ [LF] @ ''b'')"
proof -
  have "to_crlf (''a'' @ [LF] @ ''b'') = ''a'' @ [CR, LF] @ ''b''" by (simp add: to_crlf_def)
  moreover have "validate_prompt (''a'' @ [LF] @ ''b'') 10 = Inr (''a'' @ [LF] @ ''b'')" by code_simp
  ultimately show ?thesis using validate_prompt_line_endings [of "''a'' @ [LF] @ ''b''" 10] by simp
qed

text \<open>
  C40: what is stored is read back. Error codes and media types survive their text form, a status
  survives its three columns, and no two of them share a stored form.
\<close>

theorem stored_forms_round_trip:
  "from_str_or_internal (error_code_as_str c) = c \<and> media_from_str (media_as_str m) = Inr m \<and>
   (case to_columns s of (t, e, msg) \<Rightarrow> from_columns t e msg) = s \<and>
   (error_code_as_str c = error_code_as_str d \<longleftrightarrow> c = d) \<and> (media_as_str m = media_as_str k \<longleftrightarrow> m = k) \<and>
   (to_columns s = to_columns t \<longleftrightarrow> s = t)"
  using status_columns.decode_encode [of s]
  by (simp add: error_codes.encode_inj media_types.encode_inj status_columns.encode_inj split: prod.splits)

end
