(* ===== verification/Http.thy ===== *)
theory Http
  imports Domain
begin

text \<open>
  HTTP as the program sees it through its client and server libraries: requests, responses,
  header maps and status classes. A call over the network is an action on an unspecified
  environment, so that the clients are modelled for every behaviour of the peer.
\<close>

section \<open>Messages\<close>

datatype http_method = GET | HEAD | OPTIONS | TRACE | POST | PUT | PATCH | DELETE | CONNECT | OtherMethod string

text \<open>Header names are kept in lower case, as the \<open>http\<close> crate normalises them.\<close>

type_synonym headers = "(string \<times> string) list"

text \<open>\<open>HeaderMap::get\<close> gives the first value; \<open>insert\<close> replaces every earlier one.\<close>

definition header_get :: "string \<Rightarrow> headers \<Rightarrow> string option" where
  "header_get name hs = map_of hs name"

definition header_insert :: "string \<Rightarrow> string \<Rightarrow> headers \<Rightarrow> headers" where
  "header_insert name v hs = filter (\<lambda>(n, _). n \<noteq> name) hs @ [(name, v)]"

text \<open>
  \<open>HeaderValue::from_str\<close> takes visible ASCII, space and tab, and bytes beyond ASCII;
  \<open>to_str\<close> gives back only values of visible ASCII, space and tab.
\<close>

definition header_value_ok :: "string \<Rightarrow> bool" where
  "header_value_ok s \<longleftrightarrow> list_all (\<lambda>b. (32 \<le> byte b \<and> byte b \<noteq> 127) \<or> b = TAB) s"

definition header_to_str :: "string \<Rightarrow> string option" where
  "header_to_str s = (if list_all (\<lambda>b. (32 \<le> byte b \<and> byte b < 127) \<or> b = TAB) s then Some s else None)"

record form_part =
  part_name :: string
  part_file_name :: "string option"
  part_content_type :: "string option"
  part_bytes :: string

datatype http_body = NoBody | BytesBody string | JsonBody json | FormBody "form_part list"

record http_request =
  rq_method :: http_method
  rq_url :: string
  rq_headers :: headers
  rq_body :: http_body

text \<open>
  A response carries its status code and the status as the \<open>http\<close> crate displays it, the code
  with its canonical reason.
\<close>

record http_response =
  rs_status :: nat
  rs_shown :: string
  rs_headers :: headers
  rs_body :: string

type_synonym ('w, 'a) net = "('w, string, 'a) action"

definition is_success :: "nat \<Rightarrow> bool" where
  "is_success s \<longleftrightarrow> 200 \<le> s \<and> s < 300"

definition is_server_error :: "nat \<Rightarrow> bool" where
  "is_server_error s \<longleftrightarrow> 500 \<le> s \<and> s < 600"

text \<open>\<open>body.chars().take(n).collect()\<close>.\<close>

definition take_chars :: "nat \<Rightarrow> string \<Rightarrow> string" where
  "take_chars n s = concat (take n (chars s))"

lemma header_get_insert [simp]:
  "header_get name (header_insert m v hs) = (if name = m then Some v else header_get name hs)"
proof -
  have "map_of (filter (\<lambda>(n, _). n \<noteq> m) hs) name = (if name = m then None else map_of hs name)"
    by (induction hs) auto
  then show ?thesis by (simp add: header_get_def header_insert_def map_add_def split: option.split)
qed

lemma list_all_take: "list_all P xs \<Longrightarrow> list_all P (take n xs)"
  by (auto simp: list_all_iff dest: in_set_takeD)

lemma take_chars_valid: "utf8_valid s \<Longrightarrow> utf8_valid (take_chars n s)"
  unfolding take_chars_def utf8_valid_def [of s] by (rule utf8_valid_concat [OF list_all_take])

lemma length_take_chars: "utf8_valid s \<Longrightarrow> length (chars (take_chars n s)) \<le> n"
  by (simp add: take_chars_def chars_concat list_all_take utf8_valid_def)

section \<open>Query strings\<close>

text \<open>What a server reads from a query: pairs split at the ampersands, decoded.\<close>

fun split_char :: "char \<Rightarrow> string \<Rightarrow> string list" where
  "split_char x [] = [[]]"
| "split_char x (c # s) = (if c = x then [] # split_char x s
     else (case split_char x s of t # ts \<Rightarrow> (c # t) # ts | [] \<Rightarrow> [[c]]))"

definition parse_pair :: "string \<Rightarrow> (string \<times> string) option" where
  "parse_pair s = (case split_once ''='' s of None \<Rightarrow> None
     | Some (k, v) \<Rightarrow> (case percent_decode v of None \<Rightarrow> None | Some d \<Rightarrow> Some (k, d)))"

definition parse_query :: "string \<Rightarrow> (string \<times> string) option list" where
  "parse_query s = map parse_pair (split_char CHR 0x26 s)"

lemma split_char_append:
  "x \<notin> set s \<Longrightarrow> split_char x (s @ x # t) = s # split_char x t"
  by (induction s) auto

lemma split_char_none: "x \<notin> set s \<Longrightarrow> split_char x s = [s]"
  by (induction s) auto

lemma split_join: "ss \<noteq> [] \<Longrightarrow> \<forall>s \<in> set ss. x \<notin> set s \<Longrightarrow> split_char x (join [x] ss) = ss"
  by (induction "[x]" ss rule: join.induct) (auto simp: split_char_append split_char_none)

lemma split_once_char: "x \<notin> set s \<Longrightarrow> split_once [x] (s @ x # t) = Some (s, t)"
proof -
  have "x \<notin> set s \<Longrightarrow> find_sub [x] (s @ x # t) = Some (length s)"
  proof (induction s)
    case Nil
    then show ?case by (simp add: find_sub.simps [of "[x]" "x # t"] starts_with_def)
  next
    case (Cons a s)
    then show ?case by (auto simp: find_sub.simps [of "[x]" "a # s @ x # t"] starts_with_def)
  qed
  then show "x \<notin> set s \<Longrightarrow> split_once [x] (s @ x # t) = Some (s, t)"
    by (simp add: split_once_def)
qed


lemma parse_pair_encoded: "CHR 0x3D \<notin> set name \<Longrightarrow> parse_pair (name @ ''='' @ percent_encoded v) = Some (name, v)"
  using split_once_char [of "CHR 0x3D" name "percent_encoded v"] by (simp add: parse_pair_def)

lemma parse_encoded_query:
  assumes "ps \<noteq> []" and "\<forall>(k, v) \<in> set ps. CHR 0x3D \<notin> set k \<and> CHR 0x26 \<notin> set k"
  shows "parse_query (join ''&'' (map (\<lambda>(name, value). name @ ''='' @ percent_encoded value) ps)) = map Some ps"
proof -
  have "CHR 0x26 \<notin> set (percent_encoded v)" for v
    by (rule percent_encoded_no) (simp_all add: unreserved_def ascii_alphanumeric_def ascii_digit_def ascii_alpha_def)
  then have "split_char CHR 0x26 (join ''&'' (map (\<lambda>(name, value). name @ ''='' @ percent_encoded value) ps)) =
      map (\<lambda>(name, value). name @ ''='' @ percent_encoded value) ps"
    using assms by (intro split_join) (auto split: prod.splits)
  then show ?thesis
    using assms(2) by (auto simp: parse_query_def parse_pair_encoded [simplified] split: prod.splits)
qed

lemma header_value_ok_append: "header_value_ok (s @ t) \<longleftrightarrow> header_value_ok s \<and> header_value_ok t"
  by (simp add: header_value_ok_def)

lemma header_value_ok_percent_encoded: "header_value_ok (percent_encoded s)"
proof -
  have "unreserved c \<Longrightarrow> 32 \<le> byte c \<and> byte c \<noteq> 127" for c
    by (auto simp: unreserved_def ascii_alphanumeric_def ascii_digit_def ascii_alpha_def)
  then show ?thesis using set_percent_encoded [of s] by (force simp: header_value_ok_def list_all_iff)
qed

section \<open>Requests the server receives and the responses it gives\<close>

text \<open>
  The path and query of a request target, absent in the authority form. The path of a request
  line is never empty, so \<open>as_str\<close> is the plain concatenation.
\<close>

type_synonym uri = "(string \<times> string option) option"

definition uri_path :: "uri \<Rightarrow> string" where
  "uri_path u = (case u of None \<Rightarrow> [] | Some (p, _) \<Rightarrow> p)"

definition path_and_query :: "uri \<Rightarrow> string option" where
  "path_and_query u = (case u of None \<Rightarrow> None
     | Some (p, q) \<Rightarrow> Some (p @ (case q of None \<Rightarrow> [] | Some s \<Rightarrow> ''?'' @ s)))"

datatype 'p body = EmptyContent | JsonContent json | TextContent string | PageContent 'p

record 'p outgoing =
  out_status :: nat
  out_headers :: headers
  out_body :: "'p body"

definition response_with :: "nat \<Rightarrow> headers \<Rightarrow> 'p body \<Rightarrow> 'p outgoing" where
  "response_with status hs b = \<lparr>out_status = status, out_headers = hs, out_body = b\<rparr>"

lemma response_with_simps [simp]:
  "out_status (response_with status hs b) = status" "out_headers (response_with status hs b) = hs"
  "out_body (response_with status hs b) = b"
  by (simp_all add: response_with_def)

text \<open>\<open>(status, Json(value))\<close> and \<open>Redirect::to\<close>, which answers 303 See Other.\<close>

definition json_response :: "nat \<Rightarrow> json \<Rightarrow> 'p outgoing" where
  "json_response status j = response_with status [(''content-type'', ''application/json'')] (JsonContent j)"

definition redirect_to :: "string \<Rightarrow> 'p outgoing" where
  "redirect_to dest = response_with 303 [(''location'', dest)] EmptyContent"

lemma json_response_simps [simp]:
  "out_status (json_response status j) = status" "out_body (json_response status j) = JsonContent j"
  "out_headers (json_response status j) = [(''content-type'', ''application/json'')]"
  by (simp_all add: json_response_def)

lemma redirect_to_simps [simp]:
  "out_status (redirect_to dest) = 303" "out_headers (redirect_to dest) = [(''location'', dest)]"
  "out_body (redirect_to dest) = EmptyContent"
  by (simp_all add: redirect_to_def)

section \<open>Comparison without early exit\<close>

unbundle bit_operations_syntax

text \<open>
  \<open>constant_time_eq\<close>, written out twice in the program: the differences of all bytes are
  gathered in one byte.
\<close>

definition constant_time_eq :: "string \<Rightarrow> string \<Rightarrow> bool" where
  "constant_time_eq left right =
     (if length left \<noteq> length right then False
      else foldl (\<lambda>acc (a, b). acc OR (a XOR b)) (0 :: 8 word)
             (zip (map (\<lambda>c. of_nat (byte c)) left) (map (\<lambda>c. of_nat (byte c)) right)) = 0)"

lemma word_or_eq_0_iff: "x OR y = 0 \<longleftrightarrow> x = 0 \<and> y = (0 :: 'a :: len word)"
  by (auto simp: bit_eq_iff bit_or_iff)

lemma word_xor_eq_0_iff: "x XOR y = 0 \<longleftrightarrow> x = (y :: 'a :: len word)"
  by (auto simp: bit_eq_iff bit_xor_iff)

lemma foldl_or_zero:
  "foldl (\<lambda>acc (a, b). acc OR (a XOR b)) z xs = 0 \<longleftrightarrow> z = 0 \<and> (\<forall>(a, b) \<in> set xs. a = (b :: 8 word))"
  by (induction xs arbitrary: z) (auto simp: word_or_eq_0_iff word_xor_eq_0_iff)

lemma of_nat_byte_inj: "(of_nat (byte a) :: 8 word) = of_nat (byte b) \<longleftrightarrow> a = b"
proof
  assume eq: "(of_nat (byte a) :: 8 word) = of_nat (byte b)"
  have "unat (of_nat (byte a) :: 8 word) = byte a" "unat (of_nat (byte b) :: 8 word) = byte b"
    using nat_of_char_less_256 [of a] nat_of_char_less_256 [of b]
    by (simp_all add: unat_of_nat)
  with eq show "a = b" by (metis of_char_eq_iff)
qed simp

lemma constant_time_eq_iff: "constant_time_eq s t \<longleftrightarrow> s = t"
proof (cases "length s = length t")
  case True
  then show ?thesis
    by (induction s t rule: list_induct2)
       (auto simp: constant_time_eq_def foldl_or_zero of_nat_byte_inj word_xor_eq_0_iff)
qed (auto simp: constant_time_eq_def)

end
