(* ===== verification/Session.thy ===== *)
theory Session
  imports Http
begin

text \<open>
  The auth crate's vocabulary: its configuration (\<open>config.rs\<close>), its errors (\<open>error.rs\<close>), the
  claims of an ID token (\<open>claims.rs\<close>) and what it keeps in the server-side session
  (\<open>session.rs\<close>). The session store is a library: its operations are the fields of
  \<open>session_lib\<close>, its documented behaviour is \<open>session_laws\<close>.
\<close>

section \<open>Errors\<close>

datatype session_failure = StoreFailed string | UndecodableEntry

datatype auth_error =
    AuthDiscovery string
  | AuthProvider string
  | AuthStateMismatch
  | AuthNoFlowInProgress
  | AuthFlowExpired
  | AuthTokenExchange string
  | AuthMissingIdToken
  | AuthInvalidIdToken string
  | AuthAccessTokenMismatch
  | AuthMissingIdentity
  | AuthMissingRole
  | AuthSession session_failure
  | AuthInvalidUrl string

fun auth_error_code :: "auth_error \<Rightarrow> error_code" where
  "auth_error_code AuthMissingRole = Forbidden"
| "auth_error_code (AuthDiscovery _) = Upstream"
| "auth_error_code (AuthTokenExchange _) = Upstream"
| "auth_error_code (AuthSession _) = Internal"
| "auth_error_code (AuthInvalidUrl _) = Internal"
| "auth_error_code _ = Unauthenticated"

fun auth_user_message :: "auth_error \<Rightarrow> string" where
  "auth_user_message AuthMissingRole = ERR_FORBIDDEN"
| "auth_user_message (AuthDiscovery _) = ERR_UPSTREAM"
| "auth_user_message (AuthTokenExchange _) = ERR_UPSTREAM"
| "auth_user_message (AuthSession _) = ERR_INTERNAL"
| "auth_user_message (AuthInvalidUrl _) = ERR_INTERNAL"
| "auth_user_message _ = ERR_LOGIN_FAILED"

fun auth_is_retryable :: "auth_error \<Rightarrow> bool" where
  "auth_is_retryable AuthStateMismatch = True"
| "auth_is_retryable AuthNoFlowInProgress = True"
| "auth_is_retryable AuthFlowExpired = True"
| "auth_is_retryable _ = False"

section \<open>Configuration\<close>

record oidc_config =
  oc_tenant_id :: string
  oc_client_id :: string
  oc_client_secret :: "string option"
  oc_redirect_uri :: string
  oc_post_logout_redirect_uri :: string
  oc_required_app_role :: "string option"

definition issuer_url :: "oidc_config \<Rightarrow> string" where
  "issuer_url config = ''https://login.microsoftonline.com/'' @ oc_tenant_id config @ ''/v2.0''"

text \<open>\<open>for .. { if .. { return Err } }\<close> over the two named URLs: the first offender is reported.\<close>

definition oidc_validate :: "oidc_config \<Rightarrow> auth_error + unit" where
  "oidc_validate config =
     (case find (\<lambda>(_, v). \<not> (starts_with ''https://'' v \<or> starts_with ''http://'' v))
        [(''OIDC_REDIRECT_URI'', oc_redirect_uri config), (''APP_BASE_URL'', oc_post_logout_redirect_uri config)] of
       Some (name, _) \<Rightarrow> Inl (AuthInvalidUrl (name @ '' must be an absolute http(s) URL''))
     | None \<Rightarrow> Inr ())"

text \<open>\<open>as_deref().map(str::trim).filter(|role| !role.is_empty())\<close>.\<close>

definition non_blank :: "string option \<Rightarrow> string option" where
  "non_blank v = (case v of None \<Rightarrow> None | Some s \<Rightarrow> if trim s = [] then None else Some (trim s))"

definition oidc_required_app_role :: "oidc_config \<Rightarrow> string option" where
  "oidc_required_app_role config = non_blank (oc_required_app_role config)"

section \<open>Claims and the session user\<close>

text \<open>
  The verified claims the program reads: the standard ones, the name in its default language,
  and those Entra ID adds.
\<close>

record entra_claims =
  ec_oid :: "string option"
  ec_roles :: "string list"
  ec_groups :: "string list"
  ec_upn :: "string option"
  ec_tid :: "string option"

record claims =
  cl_subject :: string
  cl_email :: "string option"
  cl_name :: "string option"
  cl_preferred_username :: "string option"
  cl_access_token_hash :: "string option"
  cl_extra :: entra_claims

record session_user =
  su_oid :: string
  su_email :: "string option"
  su_upn :: "string option"
  su_display_name :: string
  su_roles :: "string list"
  su_groups :: "string list"
  su_authenticated_at :: instant

definition or_else :: "'a option \<Rightarrow> 'a option \<Rightarrow> 'a option" where
  "or_else a b = (case a of None \<Rightarrow> b | Some x \<Rightarrow> Some x)"

definition option_or :: "'a option \<Rightarrow> 'a \<Rightarrow> 'a" where
  "option_or a d = (case a of None \<Rightarrow> d | Some x \<Rightarrow> x)"

definition from_claims :: "instant \<Rightarrow> claims \<Rightarrow> auth_error + session_user" where
  "from_claims now c = (
     let extra = cl_extra c; oid = option_or (ec_oid extra) (cl_subject c) in
     if oid = [] then Inl AuthMissingIdentity
     else
       let email = or_else (cl_email c) (ec_upn extra);
           display_name = option_or (or_else (or_else (cl_name c) (cl_preferred_username c)) email) UNKNOWN_USER
       in Inr \<lparr>su_oid = oid, su_email = email, su_upn = ec_upn extra, su_display_name = display_name,
            su_roles = ec_roles extra, su_groups = ec_groups extra, su_authenticated_at = now\<rparr>)"

definition has_role :: "session_user \<Rightarrow> string \<Rightarrow> bool" where
  "has_role u role \<longleftrightarrow> role \<in> set (su_roles u) \<or> role \<in> set (su_groups u)"

text \<open>\<open>alphabetic\<close> and \<open>upper\<close> are the Unicode tables beyond ASCII.\<close>

definition initials :: "(string \<Rightarrow> bool) \<Rightarrow> (string \<Rightarrow> string) \<Rightarrow> session_user \<Rightarrow> string" where
  "initials alphabetic upper u = (
     let letters = concat (take 2 (filter (is_alphabetic alphabetic)
           (map hd (split_whitespace (chars (su_display_name u))))))
     in if letters = [] then ''?'' else to_uppercase upper letters)"

section \<open>The session\<close>

definition LOGIN_FLOW_KEY :: string where "LOGIN_FLOW_KEY = ''auth.flow''"
definition USER_KEY :: string where "USER_KEY = ''auth.user''"
definition ID_TOKEN_KEY :: string where "ID_TOKEN_KEY = ''auth.id_token''"
definition LOGIN_FLOW_TTL_SECONDS :: int where "LOGIN_FLOW_TTL_SECONDS = 15 * 60"

record login_flow =
  lf_pkce_verifier :: string
  lf_state :: string
  lf_nonce :: string
  lf_return_to :: string

text \<open>
  What the program puts under a key. Reading an entry as another type than it was written with
  is a decoding error of the store; a key holds entries of one kind only, so that no text is ever read
  as a UUID or the other way round (theory \<open>Stored\<close>).
\<close>

datatype session_value =
    FlowEntry login_flow instant
  | UserEntry session_user
  | TextEntry string
  | UuidEntry uuid

fun as_flow :: "session_value \<Rightarrow> (login_flow \<times> instant) option" where
  "as_flow (FlowEntry f t) = Some (f, t)"
| "as_flow _ = None"

fun as_user :: "session_value \<Rightarrow> session_user option" where
  "as_user (UserEntry u) = Some u"
| "as_user _ = None"

fun as_text :: "session_value \<Rightarrow> string option" where
  "as_text (TextEntry s) = Some s"
| "as_text _ = None"

fun as_uuid :: "session_value \<Rightarrow> uuid option" where
  "as_uuid (UuidEntry u) = Some u"
| "as_uuid _ = None"

text \<open>The handle of \<open>tower_sessions\<close>, on the state \<open>'s\<close> of the session of one request.\<close>

record 's session_lib =
  sl_get :: "string \<Rightarrow> ('s, session_failure, session_value option) action"
  sl_insert :: "string \<Rightarrow> session_value \<Rightarrow> ('s, session_failure, unit) action"
  sl_remove :: "string \<Rightarrow> ('s, session_failure, session_value option) action"
  sl_cycle_id :: "('s, session_failure, unit) action"
  sl_flush :: "('s, session_failure, unit) action"

text \<open>
  Its documented behaviour, with \<open>view\<close> the entries and \<open>sid\<close> the id of the session: a call that
  fails leaves the entries as they were, one that succeeds does what its name says.
\<close>

definition session_laws ::
  "'s session_lib \<Rightarrow> ('s \<Rightarrow> string \<Rightarrow> session_value option) \<Rightarrow> ('s \<Rightarrow> nat) \<Rightarrow> bool" where
  "session_laws sl view sid \<longleftrightarrow>
     (\<forall>k s r s'. sl_get sl k s = (r, s') \<longrightarrow> view s' = view s \<and> sid s' = sid s \<and> (\<forall>v. r = Inr v \<longrightarrow> v = view s k)) \<and>
     (\<forall>k x s r s'. sl_insert sl k x s = (r, s') \<longrightarrow> sid s' = sid s \<and>
        view s' = (case r of Inl _ \<Rightarrow> view s | Inr _ \<Rightarrow> (view s)(k \<mapsto> x))) \<and>
     (\<forall>k s r s'. sl_remove sl k s = (r, s') \<longrightarrow> sid s' = sid s \<and>
        view s' = (case r of Inl _ \<Rightarrow> view s | Inr _ \<Rightarrow> (view s)(k := None)) \<and> (\<forall>v. r = Inr v \<longrightarrow> v = view s k)) \<and>
     (\<forall>s r s'. sl_cycle_id sl s = (r, s') \<longrightarrow> view s' = view s \<and> (r = Inr () \<longrightarrow> sid s' \<noteq> sid s)) \<and>
     (\<forall>s r s'. sl_flush sl s = (r, s') \<longrightarrow> view s' = (case r of Inl _ \<Rightarrow> view s | Inr _ \<Rightarrow> Map.empty))"

text \<open>\<open>session.get::<T>(key)\<close> and \<open>session.remove::<T>(key)\<close>: \<open>None\<close> when there is no entry.\<close>

definition decode_entry :: "(session_value \<Rightarrow> 'a option) \<Rightarrow> session_value option \<Rightarrow> ('s, session_failure, 'a option) action" where
  "decode_entry as v = (case v of None \<Rightarrow> succeed None
     | Some x \<Rightarrow> (case as x of None \<Rightarrow> fail UndecodableEntry | Some y \<Rightarrow> succeed (Some y)))"

definition session_get :: "'s session_lib \<Rightarrow> string \<Rightarrow> (session_value \<Rightarrow> 'a option) \<Rightarrow> ('s, session_failure, 'a option) action" where
  "session_get sl key as = attempt (sl_get sl key) (decode_entry as)"

definition session_remove :: "'s session_lib \<Rightarrow> string \<Rightarrow> (session_value \<Rightarrow> 'a option) \<Rightarrow> ('s, session_failure, 'a option) action" where
  "session_remove sl key as = attempt (sl_remove sl key) (decode_entry as)"

definition put_login_flow :: "'s session_lib \<Rightarrow> instant \<Rightarrow> login_flow \<Rightarrow> ('s, auth_error, unit) action" where
  "put_login_flow sl now flow = map_err AuthSession (sl_insert sl LOGIN_FLOW_KEY (FlowEntry flow now))"

text \<open>The clock is read after the entry has been removed; \<open>now\<close> is that reading.\<close>

definition take_login_flow :: "'s session_lib \<Rightarrow> instant \<Rightarrow> ('s, auth_error, login_flow) action" where
  "take_login_flow sl now =
     attempt (map_err AuthSession (session_remove sl LOGIN_FLOW_KEY as_flow)) (\<lambda>entry. case entry of
       None \<Rightarrow> fail AuthNoFlowInProgress
     | Some (flow, created_at) \<Rightarrow>
         if whole_seconds (now - created_at) > LOGIN_FLOW_TTL_SECONDS then fail AuthFlowExpired
         else succeed flow)"

definition put_user :: "'s session_lib \<Rightarrow> session_user \<Rightarrow> string \<Rightarrow> ('s, auth_error, unit) action" where
  "put_user sl u id_token =
     attempt (map_err AuthSession (sl_insert sl USER_KEY (UserEntry u))) (\<lambda>_.
     attempt (map_err AuthSession (sl_insert sl ID_TOKEN_KEY (TextEntry id_token))) (\<lambda>_. succeed ()))"

definition current_user :: "'s session_lib \<Rightarrow> ('s, auth_error, session_user option) action" where
  "current_user sl = map_err AuthSession (session_get sl USER_KEY as_user)"

definition session_id_token :: "'s session_lib \<Rightarrow> ('s, auth_error, string option) action" where
  "session_id_token sl = map_err AuthSession (session_get sl ID_TOKEN_KEY as_text)"

lemmas session_defs = session_get_def session_remove_def decode_entry_def put_login_flow_def take_login_flow_def
  put_user_def current_user_def session_id_token_def

lemmas session_keys = LOGIN_FLOW_KEY_def USER_KEY_def ID_TOKEN_KEY_def


section \<open>Consequences of the behaviour of the store\<close>

lemma session_getD:
  assumes "session_laws sl view sid" and "session_get sl k as s = (r, s')"
  shows "view s' = view s" and "sid s' = sid s"
    and "r = Inr None \<Longrightarrow> view s k = None" and "r = Inr (Some y) \<Longrightarrow> \<exists>v. view s k = Some v \<and> as v = Some y"
proof -
  obtain q t where g: "sl_get sl k s = (q, t)" by fastforce
  have "view t = view s \<and> sid t = sid s \<and> (\<forall>v. q = Inr v \<longrightarrow> v = view s k)"
    using assms(1) [unfolded session_laws_def, THEN conjunct1] g by blast
  then have g': "view t = view s" "sid t = sid s" "\<And>v. q = Inr v \<Longrightarrow> v = view s k" by simp_all
  have "s' = t" using assms(2) g
    by (auto simp: session_get_def decode_entry_def action_defs split: sum.splits option.splits)
  with g' show "view s' = view s" and "sid s' = sid s" by simp_all
  show "r = Inr None \<Longrightarrow> view s k = None"
    using assms(2) g g'(3) by (auto simp: session_get_def decode_entry_def action_defs split: sum.splits option.splits)
  show "r = Inr (Some y) \<Longrightarrow> \<exists>v. view s k = Some v \<and> as v = Some y"
    using assms(2) g g'(3) by (auto simp: session_get_def decode_entry_def action_defs split: sum.splits option.splits)
qed

lemma session_insertD:
  assumes "session_laws sl view sid" and "sl_insert sl k x s = (r, s')"
  shows "sid s' = sid s" and "view s' = (case r of Inl _ \<Rightarrow> view s | Inr _ \<Rightarrow> (view s)(k \<mapsto> x))"
  using assms unfolding session_laws_def by blast+

lemma session_removeD:
  assumes "session_laws sl view sid" and "sl_remove sl k s = (r, s')"
  shows "sid s' = sid s" and "view s' = (case r of Inl _ \<Rightarrow> view s | Inr _ \<Rightarrow> (view s)(k := None))"
    and "r = Inr v \<Longrightarrow> v = view s k"
  using assms unfolding session_laws_def by blast+

lemma session_cycleD:
  assumes "session_laws sl view sid" and "sl_cycle_id sl s = (r, s')"
  shows "view s' = view s" and "r = Inr () \<Longrightarrow> sid s' \<noteq> sid s"
  using assms unfolding session_laws_def by blast+

lemma session_flushD:
  assumes "session_laws sl view sid" and "sl_flush sl s = (r, s')"
  shows "view s' = (case r of Inl _ \<Rightarrow> view s | Inr _ \<Rightarrow> Map.empty)"
  using assms unfolding session_laws_def by blast

text \<open>What taking the login flow does, whatever the session holds.\<close>

lemma take_login_flowD:
  assumes laws: "session_laws sl view sid" and take: "take_login_flow sl now s = (r, s')"
  shows "sid s' = sid s"
    and "view s' = view s \<or> view s' = (view s)(LOGIN_FLOW_KEY := None)"
    and "(\<nexists>e. r = Inl (AuthSession e)) \<Longrightarrow> view s' = (view s)(LOGIN_FLOW_KEY := None)"
    and "(\<nexists>e. r = Inl (AuthSession e)) \<Longrightarrow> r = (case view s LOGIN_FLOW_KEY of
           Some (FlowEntry flow t) \<Rightarrow> if now - t < seconds (LOGIN_FLOW_TTL_SECONDS + 1) then Inr flow else Inl AuthFlowExpired
         | _ \<Rightarrow> Inl AuthNoFlowInProgress)"
proof -
  obtain q t where g: "sl_remove sl LOGIN_FLOW_KEY s = (q, t)" by fastforce
  note g' = session_removeD [OF laws g]
  have age: "LOGIN_FLOW_TTL_SECONDS < whole_seconds d \<longleftrightarrow> \<not> d < seconds (LOGIN_FLOW_TTL_SECONDS + 1)" for d
    using whole_seconds_le_iff [of LOGIN_FLOW_TTL_SECONDS d] by (simp add: LOGIN_FLOW_TTL_SECONDS_def) linarith
  have t: "s' = t" using take g
    by (auto simp: session_defs action_defs split: sum.splits option.splits prod.splits if_splits)
  show "sid s' = sid s" using g'(1) t by simp
  show "view s' = view s \<or> view s' = (view s)(LOGIN_FLOW_KEY := None)" using g'(2) t by (cases q) simp_all
  show "view s' = (view s)(LOGIN_FLOW_KEY := None)" if "\<nexists>e. r = Inl (AuthSession e)"
    using that take g g'(2) t by (cases q) (auto simp: session_defs action_defs)
  show "r = (case view s LOGIN_FLOW_KEY of
           Some (FlowEntry flow t) \<Rightarrow> if now - t < seconds (LOGIN_FLOW_TTL_SECONDS + 1) then Inr flow else Inl AuthFlowExpired
         | _ \<Rightarrow> Inl AuthNoFlowInProgress)" if "\<nexists>e. r = Inl (AuthSession e)"
  proof (cases q)
    case (Inl e)
    with that take g show ?thesis by (auto simp: session_defs action_defs)
  next
    case (Inr v)
    with g'(3) have v: "view s LOGIN_FLOW_KEY = v" by simp
    show ?thesis
    proof (cases v)
      case None
      with take g Inr v show ?thesis by (simp add: session_defs action_defs)
    next
      case (Some x)
      with that take g Inr v show ?thesis
        by (cases x) (auto simp: session_defs action_defs age)
    qed
  qed
qed

lemma put_userD:
  assumes laws: "session_laws sl view sid" and put: "put_user sl u tok s = (Inr (), s')"
  shows "view s' = (view s)(USER_KEY \<mapsto> UserEntry u, ID_TOKEN_KEY \<mapsto> TextEntry tok)" and "sid s' = sid s"
proof -
  from put obtain t where 1: "sl_insert sl USER_KEY (UserEntry u) s = (Inr (), t)"
    and 2: "sl_insert sl ID_TOKEN_KEY (TextEntry tok) t = (Inr (), s')"
    by (auto simp: put_user_def action_defs split: sum.splits prod.splits)
  show "view s' = (view s)(USER_KEY \<mapsto> UserEntry u, ID_TOKEN_KEY \<mapsto> TextEntry tok)"
    using session_insertD(2) [OF laws 1] session_insertD(2) [OF laws 2] by simp
  show "sid s' = sid s"
    using session_insertD(1) [OF laws 1] session_insertD(1) [OF laws 2] by simp
qed

lemma put_user_effect:
  assumes laws: "session_laws sl view sid" and put: "put_user sl u tok s = (r, s')"
  shows "sid s' = sid s" and "view s' USER_KEY = view s USER_KEY \<or> view s' USER_KEY = Some (UserEntry u)"
    and "k \<notin> {USER_KEY, ID_TOKEN_KEY} \<Longrightarrow> view s' k = view s k"
proof -
  obtain q t where 1: "sl_insert sl USER_KEY (UserEntry u) s = (q, t)" by fastforce
  note a = session_insertD [OF laws 1]
  obtain q' t' where 2: "sl_insert sl ID_TOKEN_KEY (TextEntry tok) t = (q', t')" by fastforce
  note b = session_insertD [OF laws 2]
  have s': "s' = (case q of Inl _ \<Rightarrow> t | Inr _ \<Rightarrow> t')"
    using put 1 2 by (cases q; cases q') (auto simp: put_user_def action_defs)
  show "sid s' = sid s" using a(1) b(1) s' by (cases q) auto
  show "view s' USER_KEY = view s USER_KEY \<or> view s' USER_KEY = Some (UserEntry u)"
    using a(2) b(2) s' by (cases q; cases q') (auto simp: session_keys)
  show "view s' k = view s k" if "k \<notin> {USER_KEY, ID_TOKEN_KEY}"
    using a(2) b(2) s' that by (cases q; cases q') auto
qed

section \<open>Correctness\<close>

text \<open>A store in memory, for evaluation: the id of the session and its entries.\<close>

definition memory_sessions :: "(nat \<times> (string \<Rightarrow> session_value option)) session_lib" where
  "memory_sessions = \<lparr>
     sl_get = (\<lambda>k (i, m). (Inr (m k), (i, m))),
     sl_insert = (\<lambda>k v (i, m). (Inr (), (i, m(k \<mapsto> v)))),
     sl_remove = (\<lambda>k (i, m). (Inr (m k), (i, m(k := None)))),
     sl_cycle_id = (\<lambda>(i, m). (Inr (), (i + 1, m))),
     sl_flush = (\<lambda>(i, m). (Inr (), (i + 1, Map.empty)))\<rparr>"

lemma memory_sessions_laws: "session_laws memory_sessions snd fst"
  by (simp add: session_laws_def memory_sessions_def)

definition sample_flow :: login_flow where
  "sample_flow = \<lparr>lf_pkce_verifier = ''verifier'', lf_state = ''state'', lf_nonce = ''nonce'', lf_return_to = ''/historikk''\<rparr>"

text \<open>
  C23: a sign-in that has been started can be completed once, and only for fifteen minutes. With a
  store that behaves as documented, the first callback gets exactly the flow that was stored if
  less than 901 seconds have passed (the whole seconds of the age are compared), and is told that the
  flow has expired otherwise; either way the flow is gone, so that a second callback finds none, and
  no other entry of the session has changed.
\<close>
theorem login_flow_single_use:
  assumes laws: "session_laws sl view sid"
    and put: "put_login_flow sl t0 flow s = (Inr (), s1)"
    and between: "view s1' = view s1"
    and first: "take_login_flow sl t1 s1' = (r, s2)" and stored: "\<nexists>e. r = Inl (AuthSession e)"
    and second: "take_login_flow sl t2 s2 = (r', s3)"
  shows "r = (if t1 - t0 < seconds 901 then Inr flow else Inl AuthFlowExpired) \<and>
    (r' = Inl AuthNoFlowInProgress \<or> (\<exists>e. r' = Inl (AuthSession e))) \<and>
    view s3 = (view s)(LOGIN_FLOW_KEY := None)"
proof -
  have s1: "view s1 = (view s)(LOGIN_FLOW_KEY \<mapsto> FlowEntry flow t0)"
    using put session_insertD(2) [OF laws, of LOGIN_FLOW_KEY "FlowEntry flow t0" s]
    by (auto simp: put_login_flow_def action_defs split: prod.splits sum.splits)
  note one = take_login_flowD(3,4) [OF laws first stored]
  have s2: "view s2 = (view s)(LOGIN_FLOW_KEY := None)" using one(1) s1 between by simp
  have s3: "view s3 = view s2" using take_login_flowD(2) [OF laws second] s2 by auto
  have "r' = Inl AuthNoFlowInProgress \<or> (\<exists>e. r' = Inl (AuthSession e))"
    using take_login_flowD(4) [OF laws second] s2 by auto
  then show ?thesis
    using one(2) s1 between s2 s3 by (simp add: LOGIN_FLOW_TTL_SECONDS_def)
qed

theorem login_flow_single_use_witness:
  "fst (take_login_flow memory_sessions (seconds 900) (0, [LOGIN_FLOW_KEY \<mapsto> FlowEntry sample_flow 0])) = Inr sample_flow \<and>
   fst (take_login_flow memory_sessions 0 (0, Map.empty)) = Inl AuthNoFlowInProgress"
proof -
  define e :: "nat \<times> (string \<Rightarrow> session_value option)" where "e = (0, Map.empty)"
  define m :: "nat \<times> (string \<Rightarrow> session_value option)" where "m = (0, [LOGIN_FLOW_KEY \<mapsto> FlowEntry sample_flow 0])"
  have put: "put_login_flow memory_sessions 0 sample_flow e = (Inr (), m)"
    by (simp add: e_def m_def put_login_flow_def memory_sessions_def action_defs)
  have take: "take_login_flow memory_sessions (seconds 900) m = (Inr sample_flow, e)"
    and again: "take_login_flow memory_sessions 0 e = (Inl AuthNoFlowInProgress, e)"
    by (simp_all add: e_def m_def session_defs memory_sessions_def action_defs LOGIN_FLOW_TTL_SECONDS_def duration_defs)
  have stored: "\<nexists>x. (Inr sample_flow :: auth_error + login_flow) = Inl (AuthSession x)" by simp
  show ?thesis
    using login_flow_single_use [OF memory_sessions_laws put refl take stored again] take again
    by (simp add: e_def m_def)
qed

end
