(* ===== verification/Guards.thy ===== *)
theory Guards
  imports Session
begin

text \<open>
  The route guards of the auth crate (\<open>middleware.rs\<close>): who reaches a handler and what everyone
  else is answered. A handler together with everything inside it is a \<open>service\<close>; a guard
  wraps one. The locale \<open>guard\<close> is what all guards of the program share, those of the web crate
  included.
\<close>

section \<open>Requests in the stack\<close>

text \<open>
  A request with the extensions the layers attach to it: the peer address, whether the session
  layer has run, the signed-in user, the correlation id.
\<close>

record incoming =
  in_method :: http_method
  in_uri :: uri
  in_headers :: headers
  in_peer :: "string option"
  in_session :: bool
  in_user :: "session_user option"
  in_correlation :: "string option"

type_synonym ('w, 'p) service = "incoming \<Rightarrow> 'w \<Rightarrow> 'p outgoing \<times> 'w"

section \<open>The role policy\<close>

record role_policy =
  rp_required :: "string option"

definition role_policy_new :: "string option \<Rightarrow> role_policy" where
  "role_policy_new role = \<lparr>rp_required = non_blank role\<rparr>"

definition permits :: "role_policy \<Rightarrow> session_user \<Rightarrow> bool" where
  "permits policy u \<longleftrightarrow> (case rp_required policy of None \<Rightarrow> True | Some role \<Rightarrow> has_role u role)"

section \<open>Rejections\<close>

definition API_PREFIX :: string where "API_PREFIX = ''/api/''"
definition LOGIN_PATH :: string where "LOGIN_PATH = ''/auth/login''"
definition RETURN_TO_PARAM :: string where "RETURN_TO_PARAM = ''return_to''"

definition rejection_body :: "error_code \<Rightarrow> string \<Rightarrow> json" where
  "rejection_body code message = JObj [(''code'', JStr (error_code_as_str code)), (''message'', JStr message)]"

definition wants_json :: "uri \<Rightarrow> bool" where
  "wants_json u \<longleftrightarrow> starts_with API_PREFIX (uri_path u)"

definition is_htmx :: "headers \<Rightarrow> bool" where
  "is_htmx hs \<longleftrightarrow> header_get ''hx-request'' hs \<noteq> None"

definition percent_encode :: "string \<Rightarrow> string" where
  "percent_encode s = concat (map (\<lambda>b.
     if (65 \<le> byte b \<and> byte b \<le> 90) \<or> (97 \<le> byte b \<and> byte b \<le> 122) \<or> (48 \<le> byte b \<and> byte b \<le> 57) \<or>
        b \<in> {CHR 0x2D, CHR 0x5F, CHR 0x2E, CHR 0x7E}
     then [b] else percent_byte b) s)"

definition login_url :: "uri \<Rightarrow> string" where
  "login_url u = (let target = option_or (path_and_query u) ''/'' in
     if target = ''/'' then LOGIN_PATH
     else LOGIN_PATH @ ''?'' @ RETURN_TO_PARAM @ ''='' @ percent_encode target)"

definition unauthenticated :: "uri \<Rightarrow> headers \<Rightarrow> 'p outgoing" where
  "unauthenticated u hs =
     (if wants_json u then json_response 401 (rejection_body Unauthenticated ERR_UNAUTHENTICATED)
      else let destination = login_url u in
        if is_htmx hs then
          response_with 204 (if header_value_ok destination then [(''hx-redirect'', destination)] else []) EmptyContent
        else redirect_to destination)"

definition forbidden :: "uri \<Rightarrow> headers \<Rightarrow> 'p outgoing" where
  "forbidden u hs =
     (if wants_json u \<or> is_htmx hs then json_response 403 (rejection_body Forbidden ERR_FORBIDDEN)
      else response_with 403 [(''content-type'', ''text/plain; charset=utf-8'')] (TextContent ERR_FORBIDDEN))"

definition internal_error :: "'p outgoing" where
  "internal_error = json_response 500 (rejection_body Internal ERR_INTERNAL)"

section \<open>The guards\<close>

text \<open>\<open>read_user\<close> is \<open>current_user\<close> on the session of the request.\<close>

definition require_auth ::
  "('w, auth_error, session_user option) action \<Rightarrow> ('w, 'p) service \<Rightarrow> ('w, 'p) service" where
  "require_auth read_user rest req w =
     (if \<not> in_session req then (internal_error, w)
      else case read_user w of
        (Inr (Some u), w') \<Rightarrow> rest (req\<lparr>in_user := Some u\<rparr>) w'
      | (Inr None, w') \<Rightarrow> (unauthenticated (in_uri req) (in_headers req), w')
      | (Inl _, w') \<Rightarrow> (internal_error, w'))"

definition require_role :: "role_policy \<Rightarrow> ('w, 'p) service \<Rightarrow> ('w, 'p) service" where
  "require_role policy rest req w = (case rp_required policy of
     None \<Rightarrow> rest req w
   | Some required \<Rightarrow> (case in_user req of
       None \<Rightarrow> (internal_error, w)
     | Some u \<Rightarrow> if \<not> has_role u required then (forbidden (in_uri req) (in_headers req), w) else rest req w))"

section \<open>What guards share\<close>

text \<open>
  A guard looks at the request and either hands it on, unchanged but for the extensions, or
  answers itself, with one of its \<open>answers\<close> and without running what it wraps.
\<close>

locale guard =
  fixes wrap :: "('w, 'p) service \<Rightarrow> ('w, 'p) service"
    and pass :: "incoming \<Rightarrow> 'w \<Rightarrow> (incoming \<times> 'w) option"
    and deny :: "incoming \<Rightarrow> 'w \<Rightarrow> 'p outgoing \<times> 'w"
    and answers :: "nat set"
  assumes decides: "wrap s req w = (case pass req w of Some (req', w') \<Rightarrow> s req' w' | None \<Rightarrow> deny req w)"
    and same_message: "pass req w = Some (req', w') \<Longrightarrow>
      in_method req' = in_method req \<and> in_uri req' = in_uri req \<and> in_headers req' = in_headers req"
    and answers_deny: "pass req w = None \<Longrightarrow> out_status (fst (deny req w)) \<in> answers"
begin

lemma stopped: "pass req w = None \<Longrightarrow> wrap s req w = deny req w"
  by (simp add: decides)

text \<open>What a guard stops is not run: the outcome is the same for every service behind it.\<close>

lemma stopped_same: "pass req w = None \<Longrightarrow> wrap s req w = wrap s' req w"
  by (simp add: decides)

lemma runs: "pass req w = Some (req', w') \<Longrightarrow> wrap s req w = s req' w'"
  by (simp add: decides)

lemma other_status_means_run:
  assumes "wrap s req w = (out, w')" and "out_status out \<notin> answers"
  shows "\<exists>req' w''. pass req w = Some (req', w'') \<and> s req' w'' = (out, w')"
  using assms answers_deny [of req w] by (cases "pass req w") (auto simp: decides)

end

lemma guard_compose:
  assumes "guard f pf df af" and "guard g pg dg ag"
  shows "guard (\<lambda>s. f (g s))
    (\<lambda>req w. case pf req w of None \<Rightarrow> None | Some (req', w') \<Rightarrow> pg req' w')
    (\<lambda>req w. case pf req w of None \<Rightarrow> df req w | Some (req', w') \<Rightarrow> dg req' w') (af \<union> ag)"
  unfolding guard_def
proof (intro conjI allI impI)
  note f = assms(1) [unfolded guard_def] and g = assms(2) [unfolded guard_def]
  fix s req w
  show "f (g s) req w =
    (case case pf req w of None \<Rightarrow> None | Some (req', w') \<Rightarrow> pg req' w' of
       None \<Rightarrow> case pf req w of None \<Rightarrow> df req w | Some (req', w') \<Rightarrow> dg req' w'
     | Some (req', w') \<Rightarrow> s req' w')"
    using f [THEN conjunct1] g [THEN conjunct1] by (auto split: option.splits)
next
  note f = assms(1) [unfolded guard_def] and g = assms(2) [unfolded guard_def]
  fix req w req' w'
  assume "(case pf req w of None \<Rightarrow> None | Some (req', w') \<Rightarrow> pg req' w') = Some (req', w')"
  then obtain r v where "pf req w = Some (r, v)" "pg r v = Some (req', w')" by (auto split: option.splits)
  with f [THEN conjunct2, THEN conjunct1] g [THEN conjunct2, THEN conjunct1]
  show "in_method req' = in_method req" and "in_uri req' = in_uri req" and "in_headers req' = in_headers req"
    by metis+
next
  note f = assms(1) [unfolded guard_def] and g = assms(2) [unfolded guard_def]
  fix req w
  assume "(case pf req w of None \<Rightarrow> None | Some (req', w') \<Rightarrow> pg req' w') = None"
  then show "out_status (fst (case pf req w of None \<Rightarrow> df req w | Some (req', w') \<Rightarrow> dg req' w')) \<in> af \<union> ag"
    using f [THEN conjunct2, THEN conjunct2] g [THEN conjunct2, THEN conjunct2] by (auto split: option.splits)
qed

text \<open>The two guards of the auth crate.\<close>

definition auth_pass ::
  "('w, auth_error, session_user option) action \<Rightarrow> incoming \<Rightarrow> 'w \<Rightarrow> (incoming \<times> 'w) option" where
  "auth_pass read_user req w = (if in_session req
     then (case read_user w of (Inr (Some u), w') \<Rightarrow> Some (req\<lparr>in_user := Some u\<rparr>, w') | _ \<Rightarrow> None) else None)"

definition auth_deny ::
  "('w, auth_error, session_user option) action \<Rightarrow> incoming \<Rightarrow> 'w \<Rightarrow> 'p outgoing \<times> 'w" where
  "auth_deny read_user req w = (if in_session req
     then (case read_user w of (Inr None, w') \<Rightarrow> (unauthenticated (in_uri req) (in_headers req), w')
       | (_, w') \<Rightarrow> (internal_error, w')) else (internal_error, w))"

definition role_pass :: "role_policy \<Rightarrow> incoming \<Rightarrow> 'w \<Rightarrow> (incoming \<times> 'w) option" where
  "role_pass policy req w = (case rp_required policy of None \<Rightarrow> Some (req, w)
     | Some role \<Rightarrow> (case in_user req of None \<Rightarrow> None | Some u \<Rightarrow> if has_role u role then Some (req, w) else None))"

definition role_deny :: "role_policy \<Rightarrow> incoming \<Rightarrow> 'w \<Rightarrow> 'p outgoing \<times> 'w" where
  "role_deny policy req w = (case in_user req of None \<Rightarrow> (internal_error, w)
     | Some u \<Rightarrow> (forbidden (in_uri req) (in_headers req), w))"

interpretation auth_guard: guard "require_auth read_user" "auth_pass read_user" "auth_deny read_user" "{204, 303, 401, 500}"
  for read_user
  by unfold_locales
     (auto simp: require_auth_def auth_pass_def auth_deny_def unauthenticated_def internal_error_def Let_def
       split: prod.splits sum.splits option.splits if_splits)

interpretation role_guard: guard "require_role policy" "role_pass policy" "role_deny policy" "{403, 500}"
  for policy
  by unfold_locales
     (auto simp: require_role_def role_pass_def role_deny_def forbidden_def internal_error_def
       split: option.splits if_splits)

lemma protected_guard:
  "guard (\<lambda>s. require_auth read_user (require_role policy s))
    (\<lambda>req w. case auth_pass read_user req w of None \<Rightarrow> None | Some (req', w') \<Rightarrow> role_pass policy req' w')
    (\<lambda>req w. case auth_pass read_user req w of None \<Rightarrow> auth_deny read_user req w | Some (req', w') \<Rightarrow> role_deny policy req' w')
    ({204, 303, 401, 500} \<union> {403, 500})"
  by (rule guard_compose [OF auth_guard.guard_axioms role_guard.guard_axioms])


section \<open>The sign-in link\<close>

lemma percent_encode_eq [simp]: "percent_encode s = percent_encoded s"
  by (auto simp: percent_encode_def percent_encoded_def unreserved_def ascii_alphanumeric_def ascii_digit_def ascii_alpha_def
      intro!: arg_cong [where f = concat] map_cong)

lemma header_value_ok_login_url: "header_value_ok (login_url u)"
proof -
  have "header_value_ok (LOGIN_PATH @ ''?'' @ RETURN_TO_PARAM @ ''='')" "header_value_ok LOGIN_PATH"
    by (simp_all add: header_value_ok_def LOGIN_PATH_def RETURN_TO_PARAM_def)
  then show ?thesis
    using header_value_ok_append [of "LOGIN_PATH @ ''?'' @ RETURN_TO_PARAM @ ''=''"] header_value_ok_percent_encoded
    by (simp add: login_url_def Let_def)
qed

lemma parse_login_query: "parse_query (RETURN_TO_PARAM @ ''='' @ percent_encode s) = [Some (RETURN_TO_PARAM, s)]"
  using parse_encoded_query [of "[(RETURN_TO_PARAM, s)]"] by (simp add: RETURN_TO_PARAM_def)

end
