(* ===== verification/Cache.thy ===== *)
theory Cache
  imports Prelude
begin

text \<open>
  The lazily refreshed caches: a value behind a read-write lock that is fetched on first use
  and again when it has gone stale. Both caches of the program (the delegation key of the blob
  store and the provider metadata of the sign-in) follow the same protocol: look under the read
  lock, and on a miss look again under the write lock before fetching. \<open>cache_step\<close> is that
  protocol with any number of callers interleaved; the locale \<open>ttl_cache\<close> states what the
  two instances share.
\<close>

section \<open>Callers of a cache\<close>

datatype 'v phase = Arrived | WaitingForWrite | Returned 'v | FetchFailed

record 'v cache_state =
  cell :: "'v option"
  callers :: "'v phase list"
  fetches :: nat

definition usable :: "(instant \<Rightarrow> 'v \<Rightarrow> bool) \<Rightarrow> instant \<Rightarrow> 'v option \<Rightarrow> bool" where
  "usable stale now c \<longleftrightarrow> (case c of None \<Rightarrow> False | Some v \<Rightarrow> \<not> stale now v)"

text \<open>
  One step of one caller at time \<open>now\<close>. The section under the write lock is one step: no reader
  and no other writer can run while the lock is held. \<open>fetched now v\<close> says that \<open>v\<close> is a
  possible outcome of the fetch.
\<close>

inductive cache_step ::
  "(instant \<Rightarrow> 'v \<Rightarrow> bool) \<Rightarrow> (instant \<Rightarrow> 'v \<Rightarrow> bool) \<Rightarrow> instant \<Rightarrow> 'v cache_state \<Rightarrow> 'v cache_state \<Rightarrow> bool"
  for stale fetched now where
  read_hit: "i < length (callers s) \<Longrightarrow> callers s ! i = Arrived \<Longrightarrow> cell s = Some v \<Longrightarrow> \<not> stale now v \<Longrightarrow>
    cache_step stale fetched now s (s\<lparr>callers := (callers s)[i := Returned v]\<rparr>)"
| read_miss: "i < length (callers s) \<Longrightarrow> callers s ! i = Arrived \<Longrightarrow> \<not> usable stale now (cell s) \<Longrightarrow>
    cache_step stale fetched now s (s\<lparr>callers := (callers s)[i := WaitingForWrite]\<rparr>)"
| write_hit: "i < length (callers s) \<Longrightarrow> callers s ! i = WaitingForWrite \<Longrightarrow> cell s = Some v \<Longrightarrow> \<not> stale now v \<Longrightarrow>
    cache_step stale fetched now s (s\<lparr>callers := (callers s)[i := Returned v]\<rparr>)"
| write_fetch: "i < length (callers s) \<Longrightarrow> callers s ! i = WaitingForWrite \<Longrightarrow> \<not> usable stale now (cell s) \<Longrightarrow>
    fetched now v \<Longrightarrow>
    cache_step stale fetched now s (s\<lparr>cell := Some v, callers := (callers s)[i := Returned v], fetches := fetches s + 1\<rparr>)"
| write_fail: "i < length (callers s) \<Longrightarrow> callers s ! i = WaitingForWrite \<Longrightarrow> \<not> usable stale now (cell s) \<Longrightarrow>
    cache_step stale fetched now s (s\<lparr>callers := (callers s)[i := FetchFailed]\<rparr>)"

inductive_cases cache_stepE: "cache_step stale fetched now s s'"

text \<open>Runs: the clock never goes back and stays below \<open>until\<close>.\<close>

inductive cache_run ::
  "(instant \<Rightarrow> 'v \<Rightarrow> bool) \<Rightarrow> (instant \<Rightarrow> 'v \<Rightarrow> bool) \<Rightarrow> instant \<Rightarrow> instant \<Rightarrow> instant \<Rightarrow> 'v cache_state \<Rightarrow> 'v cache_state \<Rightarrow> bool"
  for stale fetched until where
  stop: "now < until \<Longrightarrow> cache_run stale fetched until now now s s"
| step: "cache_run stale fetched until start now s t \<Longrightarrow> now \<le> now' \<Longrightarrow> now' < until \<Longrightarrow>
    cache_step stale fetched now' t u \<Longrightarrow> cache_run stale fetched until start now' s u"

section \<open>The contract\<close>

text \<open>
  \<open>stale\<close> is the staleness test, \<open>get\<close> the function the program calls, \<open>clock\<close> the time it reads,
  \<open>fetch\<close> the refresh. A value goes from fresh to stale and never back; a fetched value is
  fresh for at least \<open>lifetime\<close>.
\<close>

locale ttl_cache =
  fixes stale :: "instant \<Rightarrow> 'v \<Rightarrow> bool"
    and fetched :: "instant \<Rightarrow> 'v \<Rightarrow> bool"
    and lifetime :: duration
    and get :: "('w \<Rightarrow> instant) \<Rightarrow> ('w, 'e, 'v) action \<Rightarrow> ('v option \<times> 'w, 'e, 'v) action"
  assumes stale_mono: "stale t v \<Longrightarrow> t \<le> t' \<Longrightarrow> stale t' v"
    and fetched_fresh: "fetched t v \<Longrightarrow> t' < t + lifetime \<Longrightarrow> \<not> stale t' v"
    and get_hit: "\<not> stale (clock w) v \<Longrightarrow> get clock fetch (Some v, w) = (Inr v, (Some v, w))"
    and get_miss: "\<not> usable stale (clock w) c \<Longrightarrow> get clock fetch (c, w) =
      (case fetch w of (Inl e, w') \<Rightarrow> (Inl e, (c, w')) | (Inr v, w') \<Rightarrow> (Inr v, (Some v, w')))"
begin

lemma get_cases:
  "get clock fetch (c, w) = (case c of
     Some v \<Rightarrow> if \<not> stale (clock w) v then (Inr v, (Some v, w))
       else (case fetch w of (Inl e, w') \<Rightarrow> (Inl e, (c, w')) | (Inr v, w') \<Rightarrow> (Inr v, (Some v, w')))
   | None \<Rightarrow> (case fetch w of (Inl e, w') \<Rightarrow> (Inl e, (c, w')) | (Inr v, w') \<Rightarrow> (Inr v, (Some v, w'))))"
  using get_hit [of clock w _ fetch] get_miss [of clock w c fetch]
  by (auto simp: usable_def split: option.split)

text \<open>What is returned is what is kept, and it was fresh when it was handed out.\<close>

lemma get_returns_cell: "get clock fetch (c, w) = (Inr v, (c', w')) \<Longrightarrow> c' = Some v"
  by (auto simp: get_cases split: option.splits if_splits prod.splits sum.splits)

lemma get_fresh:
  assumes "get clock fetch (c, w) = (Inr v, (c', w'))"
    and "\<And>w v w'. fetch w = (Inr v, w') \<Longrightarrow> \<not> stale (clock w') v"
  shows "\<not> stale (clock w') v"
  using assms by (auto simp: get_cases split: option.splits if_splits prod.splits sum.splits)

text \<open>A failed refresh leaves the old value in place for the next attempt.\<close>

lemma get_error_keeps_cell: "get clock fetch (c, w) = (Inl e, (c', w')) \<Longrightarrow> c' = c"
  by (auto simp: get_cases split: option.splits if_splits prod.splits sum.splits)

text \<open>Within the life of a value the source is not asked again.\<close>

lemma get_twice:
  assumes "get clock fetch (c, w) = (Inr v, (c', w'))" and "\<not> stale (clock w'') v"
  shows "get clock fetch' (c', w'') = (Inr v, (c', w''))"
  using get_returns_cell [OF assms(1)] get_hit assms(2) by simp

text \<open>Any number of concurrent callers within one lifetime cause at most one successful fetch.\<close>

lemma step_fetches:
  assumes "cache_step stale fetched now s t" and "\<And>v. cell s = Some v \<Longrightarrow> \<not> stale now v"
  shows "(cell s \<noteq> None \<longrightarrow> cell t = cell s \<and> fetches t = fetches s) \<and>
    (cell s = None \<longrightarrow> (cell t = None \<and> fetches t = fetches s) \<or>
       (\<exists>u. cell t = Some u \<and> fetched now u \<and> fetches t = fetches s + 1))"
  using assms by (cases rule: cache_step.cases) (auto simp: usable_def split: option.splits)

lemma run_start: "cache_run stale fetched until start now s t \<Longrightarrow> start \<le> now \<and> now < until"
  by (induction rule: cache_run.induct) auto

lemma one_fetch:
  assumes "cache_run stale fetched until start now s t" and "until \<le> start + lifetime"
    and "cell s = None" and "fetches s = 0"
  shows "fetches t \<le> 1 \<and> (fetches t = 1 \<longleftrightarrow> cell t \<noteq> None) \<and>
    (\<forall>v. cell t = Some v \<longrightarrow> (\<exists>t0 \<ge> start. fetched t0 v))"
  using assms
proof (induction rule: cache_run.induct)
  case (step start now s t now' u)
  note IH = step.IH [OF step.prems]
  have le: "start \<le> now" using run_start [OF step.hyps(1)] by simp
  have fresh: "\<not> stale now' v" if v: "cell t = Some v" for v
  proof -
    from IH v obtain t0 where "start \<le> t0" "fetched t0 v" by blast
    then show ?thesis using fetched_fresh [of t0 v now'] step.hyps(3) step.prems(1) by simp
  qed
  show ?case
  proof (cases "cell t")
    case (Some v)
    with step_fetches [OF step.hyps(4) fresh] IH show ?thesis by auto
  next
    case None
    with IH have "fetches t = 0" by auto
    with None step_fetches [OF step.hyps(4) fresh] show ?thesis
      using le step.hyps(2) by (auto intro: order_trans)
  qed
qed simp

end

end
