(* ===== verification/Oidc.thy ===== *)
theory Oidc
  imports Guards Cache
begin

text \<open>
  The OpenID Connect relying party (\<open>oidc.rs\<close>): the cached provider metadata, and the start,
  completion and end of a sign-in. The \<open>openidconnect\<close> crate, its HTTP client and its random
  numbers are the fields of \<open>oidc_lib\<close>, on an unspecified environment \<open>'n\<close>.
\<close>

section \<open>The library\<close>

text \<open>A client is configured from the discovery document \<open>'d\<close>, which embeds the signing keys.\<close>

record 'd oidc_client =
  oi_document :: 'd
  oi_client_id :: string
  oi_client_secret :: "string option"
  oi_redirect :: string

text \<open>An ID token is its compact serialisation.\<close>

record token_response =
  tr_access_token :: string
  tr_id_token :: "string option"

record ('n, 'd, 'r) oidc_lib =
  ol_clock :: "'n \<Rightarrow> instant"
  ol_issuer :: "string \<Rightarrow> string + string"
  ol_discover :: "string \<Rightarrow> ('n, string, 'd) action"
  ol_end_session :: "'d \<Rightarrow> string option"
  ol_redirect :: "string \<Rightarrow> string + string"
  ol_pkce :: "'n \<Rightarrow> (string \<times> string) \<times> 'n"
  ol_authorize :: "'d oidc_client \<Rightarrow> string list \<Rightarrow> string \<Rightarrow> 'n \<Rightarrow> (string \<times> string \<times> string) \<times> 'n"
  ol_exchange_code :: "'d oidc_client \<Rightarrow> string \<Rightarrow> string + 'r"
  ol_request :: "'r \<Rightarrow> string \<Rightarrow> ('n, string, token_response) action"
  ol_claims :: "'d oidc_client \<Rightarrow> string \<Rightarrow> string \<Rightarrow> 'n \<Rightarrow> string + claims"
  ol_signing_alg :: "string \<Rightarrow> string + string"
  ol_signing_key :: "'d oidc_client \<Rightarrow> string \<Rightarrow> string + string"
  ol_at_hash :: "string \<Rightarrow> string \<Rightarrow> string \<Rightarrow> string + string"
  ol_post_logout :: "string \<Rightarrow> string + string"
  ol_parse_url :: "string \<Rightarrow> string + string"
  ol_logout_url :: "string \<Rightarrow> string \<Rightarrow> string \<Rightarrow> string"
  ol_append_pair :: "string \<Rightarrow> string \<Rightarrow> string \<Rightarrow> string"

section \<open>Metadata\<close>

definition METADATA_TTL :: duration where "METADATA_TTL = seconds (12 * 60 * 60)"
definition SCOPES :: "string list" where "SCOPES = [''profile'', ''email'']"

record 'd metadata =
  md_client :: "'d oidc_client"
  md_end_session_endpoint :: "string option"
  md_fetched_at :: instant

definition metadata_is_stale :: "instant \<Rightarrow> 'd metadata \<Rightarrow> bool" where
  "metadata_is_stale now md \<longleftrightarrow> now - md_fetched_at md \<ge> METADATA_TTL"

definition discover :: "('n, 'd, 'r) oidc_lib \<Rightarrow> oidc_config \<Rightarrow> ('n, auth_error, 'd metadata) action" where
  "discover lib config =
     attempt (of_result (map_sum AuthInvalidUrl id (ol_issuer lib (issuer_url config)))) (\<lambda>issuer.
     attempt (map_err AuthDiscovery (ol_discover lib issuer)) (\<lambda>discovered.
     attempt (of_result (map_sum AuthInvalidUrl id (ol_redirect lib (oc_redirect_uri config)))) (\<lambda>redirect n.
       (Inr \<lparr>md_client = \<lparr>oi_document = discovered, oi_client_id = oc_client_id config,
               oi_client_secret = oc_client_secret config, oi_redirect = redirect\<rparr>,
             md_end_session_endpoint = ol_end_session lib discovered, md_fetched_at = ol_clock lib n\<rparr>, n))))"

text \<open>The second look, under the write lock, and the function the others call.\<close>

definition refresh_metadata ::
  "('n \<Rightarrow> instant) \<Rightarrow> ('n, auth_error, 'd metadata) action \<Rightarrow> ('d metadata option \<times> 'n, auth_error, 'd metadata) action" where
  "refresh_metadata clock fetch cw = (let (c, w) = cw in
     if (case c of Some md \<Rightarrow> \<not> metadata_is_stale (clock w) md | None \<Rightarrow> False) then (Inr (the c), (c, w))
     else (case fetch w of (Inl e, w') \<Rightarrow> (Inl e, (c, w')) | (Inr fresh, w') \<Rightarrow> (Inr fresh, (Some fresh, w'))))"

definition oidc_metadata ::
  "('n \<Rightarrow> instant) \<Rightarrow> ('n, auth_error, 'd metadata) action \<Rightarrow> ('d metadata option \<times> 'n, auth_error, 'd metadata) action" where
  "oidc_metadata clock fetch cw = (let (c, w) = cw in
     if (case c of Some md \<Rightarrow> \<not> metadata_is_stale (clock w) md | None \<Rightarrow> False) then (Inr (the c), (c, w))
     else refresh_metadata clock fetch (c, w))"

definition cached_metadata ::
  "('n, 'd, 'r) oidc_lib \<Rightarrow> oidc_config \<Rightarrow> ('d metadata option \<times> 'n, auth_error, 'd metadata) action" where
  "cached_metadata lib config = oidc_metadata (ol_clock lib) (discover lib config)"

definition metadata_granted :: "instant \<Rightarrow> 'd metadata \<Rightarrow> bool" where
  "metadata_granted t md \<longleftrightarrow> md_fetched_at md = t"

interpretation metadata_cache: ttl_cache metadata_is_stale metadata_granted METADATA_TTL oidc_metadata
  by unfold_locales
     (auto simp: metadata_is_stale_def metadata_granted_def oidc_metadata_def refresh_metadata_def usable_def
       split: option.splits prod.splits sum.splits)

section \<open>Signing in and out\<close>

definition oidc_provider_new :: "(unit \<Rightarrow> string + 'h) \<Rightarrow> oidc_config \<Rightarrow> auth_error + (oidc_config \<times> 'h)" where
  "oidc_provider_new build_client config = and_then (oidc_validate config) (\<lambda>_.
     and_then (map_sum AuthDiscovery id (build_client ())) (\<lambda>http. Inr (config, http)))"

definition on_net :: "('n, 'e, 'a) action \<Rightarrow> ('c \<times> 'n, 'e, 'a) action" where
  "on_net m cn = (let (c, n) = cn; (r, n') = m n in (r, (c, n')))"

definition begin_login ::
  "('n, 'd, 'r) oidc_lib \<Rightarrow> oidc_config \<Rightarrow> string \<Rightarrow> ('d metadata option \<times> 'n, auth_error, string \<times> login_flow) action" where
  "begin_login lib config return_to =
     attempt (cached_metadata lib config) (\<lambda>md (c, n).
       let ((challenge, verifier), n1) = ol_pkce lib n;
           ((url, state, nonce), n2) = ol_authorize lib (md_client md) SCOPES challenge n1
       in (Inr (url, \<lparr>lf_pkce_verifier = verifier, lf_state = state, lf_nonce = nonce, lf_return_to = return_to\<rparr>), (c, n2)))"

text \<open>The check of the access token against the hash in the ID token, when there is one.\<close>

definition check_access_token ::
  "('n, 'd, 'r) oidc_lib \<Rightarrow> 'd oidc_client \<Rightarrow> string \<Rightarrow> string \<Rightarrow> claims \<Rightarrow> auth_error + unit" where
  "check_access_token lib client id_token access_token c = (case cl_access_token_hash c of
     None \<Rightarrow> Inr ()
   | Some expected \<Rightarrow>
       and_then (map_sum AuthInvalidIdToken id (ol_signing_alg lib id_token)) (\<lambda>signing_alg.
       and_then (map_sum AuthInvalidIdToken id (ol_signing_key lib client id_token)) (\<lambda>signing_key.
       and_then (map_sum AuthInvalidIdToken id (ol_at_hash lib access_token signing_alg signing_key)) (\<lambda>actual.
         if actual \<noteq> expected then Inl AuthAccessTokenMismatch else Inr ()))))"

definition complete_login ::
  "('n, 'd, 'r) oidc_lib \<Rightarrow> oidc_config \<Rightarrow> login_flow \<Rightarrow> string \<Rightarrow> string \<Rightarrow>
   ('d metadata option \<times> 'n, auth_error, claims \<times> string) action" where
  "complete_login lib config flow code state =
     (if \<not> constant_time_eq (lf_state flow) state then fail AuthStateMismatch
      else attempt (cached_metadata lib config) (\<lambda>md.
        attempt (of_result (map_sum AuthTokenExchange id (ol_exchange_code lib (md_client md) code))) (\<lambda>request.
        attempt (on_net (map_err AuthTokenExchange (ol_request lib request (lf_pkce_verifier flow)))) (\<lambda>response.
          case tr_id_token response of
            None \<Rightarrow> fail AuthMissingIdToken
          | Some id_token \<Rightarrow> (\<lambda>(kept, n).
              (case and_then (map_sum AuthInvalidIdToken id (ol_claims lib (md_client md) id_token (lf_nonce flow) n)) (\<lambda>c.
                    and_then (check_access_token lib (md_client md) id_token (tr_access_token response) c) (\<lambda>_.
                      Inr (c, id_token))) of r \<Rightarrow> (r, (kept, n))))))))"

definition logout_url ::
  "('n, 'd, 'r) oidc_lib \<Rightarrow> oidc_config \<Rightarrow> string option \<Rightarrow> ('d metadata option \<times> 'n, auth_error, string) action" where
  "logout_url lib config id_token_hint =
     attempt (cached_metadata lib config) (\<lambda>md.
     attempt (of_result (map_sum AuthInvalidUrl id (ol_post_logout lib (oc_post_logout_redirect_uri config)))) (\<lambda>post_logout.
       case md_end_session_endpoint md of
         None \<Rightarrow> of_result (map_sum AuthInvalidUrl id (ol_parse_url lib (oc_post_logout_redirect_uri config)))
       | Some endpoint \<Rightarrow>
           let url = ol_logout_url lib endpoint (oc_client_id config) post_logout
           in succeed (case id_token_hint of None \<Rightarrow> url | Some hint \<Rightarrow> ol_append_pair lib url ''id_token_hint'' hint)))"


section \<open>Correctness\<close>

lemma cached_metadata_fresh:
  assumes "cached_metadata lib config (c, n) = (Inr md, (c', n'))"
  shows "c' = Some md \<and> \<not> metadata_is_stale (ol_clock lib n') md"
proof -
  have "\<not> metadata_is_stale (ol_clock lib n') v" if "discover lib config m = (Inr v, n')" for m v n'
    using that by (auto simp: discover_def action_defs metadata_is_stale_def METADATA_TTL_def duration_defs
        split: sum.splits prod.splits)
  from metadata_cache.get_fresh [OF assms [unfolded cached_metadata_def] this]
    metadata_cache.get_returns_cell [OF assms [unfolded cached_metadata_def]]
  show ?thesis by simp
qed

lemma check_access_token_ok:
  "check_access_token lib client tok access c = Inr () \<longleftrightarrow> (\<forall>h. cl_access_token_hash c = Some h \<longrightarrow>
     (\<exists>alg key. ol_signing_alg lib tok = Inr alg \<and> ol_signing_key lib client tok = Inr key \<and> ol_at_hash lib access alg key = Inr h))"
  by (auto simp: check_access_token_def and_then_def map_sum_def split: option.splits sum.splits)

text \<open>
  What one request for tokens with this code and verifier gives: an ID token the library verified
  against the nonce, whose access token hash, when it has one, is that of the access token next to it.
\<close>

definition verified_exchange ::
  "('n, 'd, 'r) oidc_lib \<Rightarrow> 'd oidc_client \<Rightarrow> login_flow \<Rightarrow> string \<Rightarrow> 'n \<Rightarrow> claims \<Rightarrow> string \<Rightarrow> 'n \<Rightarrow> bool" where
  "verified_exchange lib client flow code n c tok n' \<longleftrightarrow> (\<exists>request response.
     ol_exchange_code lib client code = Inr request \<and>
     ol_request lib request (lf_pkce_verifier flow) n = (Inr response, n') \<and>
     tr_id_token response = Some tok \<and>
     ol_claims lib client tok (lf_nonce flow) n' = Inr c \<and>
     (\<forall>h. cl_access_token_hash c = Some h \<longrightarrow> (\<exists>alg key. ol_signing_alg lib tok = Inr alg \<and>
        ol_signing_key lib client tok = Inr key \<and> ol_at_hash lib (tr_access_token response) alg key = Inr h)))"

lemma complete_login_success:
  assumes "complete_login lib config flow code state (kept, n) = (Inr (c, tok), (kept', n'))"
  obtains md n1 where "state = lf_state flow" and "cached_metadata lib config (kept, n) = (Inr md, (kept', n1))" and "kept' = Some md"
    and "ol_clock lib n1 - md_fetched_at md < seconds 43200" and "verified_exchange lib (md_client md) flow code n1 c tok n'"
proof -
  note run = assms [unfolded complete_login_def]
  then have state: "state = lf_state flow" by (auto simp: constant_time_eq_iff fail_def split: if_splits)
  with run obtain md kept1 n1 where md: "cached_metadata lib config (kept, n) = (Inr md, (kept1, n1))"
    by (auto simp: constant_time_eq_iff elim!: attempt_okE)
  with run state obtain request where request: "ol_exchange_code lib (md_client md) code = Inr request"
    by (cases "ol_exchange_code lib (md_client md) code")
       (auto simp: constant_time_eq_iff attempt_def of_result_def)
  with run state md obtain response n2
    where response: "ol_request lib request (lf_pkce_verifier flow) n1 = (Inr response, n2)"
    by (cases "ol_request lib request (lf_pkce_verifier flow) n1"; cases "fst (ol_request lib request (lf_pkce_verifier flow) n1)")
       (auto simp: constant_time_eq_iff attempt_def of_result_def on_net_def map_err_def)
  note steps = run state md request response constant_time_eq_iff
  obtain t where t: "tr_id_token response = Some t"
    using steps by (cases "tr_id_token response") (auto simp: attempt_def of_result_def on_net_def map_err_def fail_def)
  have res: "and_then (map_sum AuthInvalidIdToken id (ol_claims lib (md_client md) t (lf_nonce flow) n2)) (\<lambda>c.
      and_then (check_access_token lib (md_client md) t (tr_access_token response) c) (\<lambda>_. Inr (c, t))) = Inr (c, tok)"
    "kept' = kept1" "n' = n2"
    using steps t by (auto simp: attempt_def of_result_def on_net_def map_err_def)
  then have "tok = t" "ol_claims lib (md_client md) t (lf_nonce flow) n2 = Inr c"
    "check_access_token lib (md_client md) t (tr_access_token response) c = Inr ()"
    by (auto simp: and_then_Inr map_sum_def split: sum.splits)
  then have "verified_exchange lib (md_client md) flow code n1 c tok n'"
    using request response t res(3) by (auto simp: verified_exchange_def check_access_token_ok)
  moreover have "kept' = Some md" "ol_clock lib n1 - md_fetched_at md < seconds 43200"
    using cached_metadata_fresh [OF md] res(2) by (simp_all add: metadata_is_stale_def METADATA_TTL_def)
  ultimately show ?thesis using that state md res(2) by blast
qed

text \<open>
  C15: a sign-in is completed only by a fully verified exchange. A callback whose state differs from
  the one in the session is refused before anything is sent; one that succeeds carried exactly that
  state, and its claims come from one exchange of the code, with the verifier of the flow, whose ID
  token was verified against the nonce of the flow with metadata less than twelve hours old.
\<close>

theorem complete_login_verified:
  assumes "complete_login lib config flow code state (kept, n) = (r, (kept', n'))"
  shows "(state \<noteq> lf_state flow \<longrightarrow> r = Inl AuthStateMismatch \<and> kept' = kept \<and> n' = n) \<and>
    (\<forall>c tok. r = Inr (c, tok) \<longrightarrow> state = lf_state flow \<and>
      (\<exists>md n1. cached_metadata lib config (kept, n) = (Inr md, (kept', n1)) \<and> kept' = Some md \<and>
         ol_clock lib n1 - md_fetched_at md < seconds 43200 \<and>
         verified_exchange lib (md_client md) flow code n1 c tok n'))"
proof (intro conjI impI allI)
  assume "state \<noteq> lf_state flow"
  with assms show "r = Inl AuthStateMismatch" "kept' = kept" "n' = n"
    by (auto simp: complete_login_def constant_time_eq_iff fail_def)
next
  fix c tok assume r: "r = Inr (c, tok)"
  show "state = lf_state flow" and "\<exists>md n1. cached_metadata lib config (kept, n) = (Inr md, (kept', n1)) \<and> kept' = Some md \<and>
      ol_clock lib n1 - md_fetched_at md < seconds 43200 \<and> verified_exchange lib (md_client md) flow code n1 c tok n'"
    by (rule complete_login_success [OF assms [unfolded r]], blast)+
qed

text \<open>A provider for evaluation: it accepts the code \<open>code\<close> and issues the token \<open>id\<close>.\<close>

definition sample_claims :: claims where
  "sample_claims = \<lparr>cl_subject = ''sub'', cl_email = Some ''hk@example.no'', cl_name = Some ''Hans Kristiansen'',
     cl_preferred_username = None, cl_access_token_hash = Some ''hash'',
     cl_extra = \<lparr>ec_oid = Some ''oid'', ec_roles = [''User''], ec_groups = [], ec_upn = None, ec_tid = None\<rparr>\<rparr>"

definition sample_oidc :: "(nat, unit, string) oidc_lib" where
  "sample_oidc = \<lparr>ol_clock = (\<lambda>n. int n), ol_issuer = Inr, ol_discover = (\<lambda>_ n. (Inr (), n + 1)),
     ol_end_session = (\<lambda>_. Some ''https://login/logout''), ol_redirect = Inr,
     ol_pkce = (\<lambda>n. ((''challenge'', ''verifier''), n)), ol_authorize = (\<lambda>_ _ _ n. ((''https://login/'', ''state'', ''nonce''), n)),
     ol_exchange_code = (\<lambda>_ code. Inr code),
     ol_request = (\<lambda>code verifier n. (if code = ''code'' \<and> verifier = ''verifier''
        then Inr \<lparr>tr_access_token = ''access'', tr_id_token = Some ''id''\<rparr> else Inl ''invalid_grant'', n + 1)),
     ol_claims = (\<lambda>_ tok nonce n. if tok = ''id'' \<and> nonce = ''nonce'' then Inr sample_claims else Inl ''nonce''),
     ol_signing_alg = (\<lambda>_. Inr ''RS256''), ol_signing_key = (\<lambda>_ _. Inr ''key''),
     ol_at_hash = (\<lambda>access _ _. Inr (if access = ''access'' then ''hash'' else [])),
     ol_post_logout = Inr, ol_parse_url = Inr, ol_logout_url = (\<lambda>endpoint _ _. endpoint),
     ol_append_pair = (\<lambda>url name v. url @ ''?'' @ name @ ''='' @ v)\<rparr>"

definition sample_oidc_config :: oidc_config where
  "sample_oidc_config = \<lparr>oc_tenant_id = ''t'', oc_client_id = ''c'', oc_client_secret = None,
     oc_redirect_uri = ''http://localhost/auth/callback'', oc_post_logout_redirect_uri = ''http://localhost/'',
     oc_required_app_role = None\<rparr>"

definition sample_metadata :: "unit metadata" where
  "sample_metadata = \<lparr>md_client = \<lparr>oi_document = (), oi_client_id = ''c'', oi_client_secret = None,
     oi_redirect = ''http://localhost/auth/callback''\<rparr>, md_end_session_endpoint = Some ''https://login/logout'',
     md_fetched_at = 1\<rparr>"

lemma sample_login:
  "cached_metadata sample_oidc sample_oidc_config (None, 0) = (Inr sample_metadata, (Some sample_metadata, 1))"
  "complete_login sample_oidc sample_oidc_config sample_flow ''code'' ''state'' (None, 0) =
     (Inr (sample_claims, ''id''), (Some sample_metadata, 2))"
proof -
  show md: "cached_metadata sample_oidc sample_oidc_config (None, 0) = (Inr sample_metadata, (Some sample_metadata, 1))"
    by (simp add: cached_metadata_def oidc_metadata_def refresh_metadata_def discover_def action_defs
        sample_oidc_def sample_oidc_config_def sample_metadata_def)
  show "complete_login sample_oidc sample_oidc_config sample_flow ''code'' ''state'' (None, 0) =
     (Inr (sample_claims, ''id''), (Some sample_metadata, 2))"
    by (simp add: complete_login_def constant_time_eq_iff attempt_ok [of "cached_metadata sample_oidc sample_oidc_config", OF md] sample_flow_def)
       (simp add: action_defs on_net_def check_access_token_def sample_oidc_def sample_claims_def)
qed

theorem complete_login_verified_witness:
  "verified_exchange sample_oidc (md_client sample_metadata) sample_flow ''code'' 1 sample_claims ''id'' 2"
  using complete_login_verified [OF sample_login(2)] sample_login(1) by simp

end
