(* ===== verification/Client.thy ===== *)
theory Client
  imports Http
begin

text \<open>
  What the three providers share (\<open>crates/providers/src/error.rs\<close>, \<open>config.rs\<close>, \<open>auth.rs\<close>,
  \<open>client.rs\<close>): errors, the URL of an operation, the choice of a credential, and the retry loop
  with its backoff, its treatment of \<open>Retry-After\<close> and its mapping of statuses.
\<close>

section \<open>Errors\<close>

datatype provider_error =
    ProviderValidation string
  | ProviderUnauthorized
  | DeploymentNotFound string
  | ProviderRateLimited
  | ProviderContentFilter
  | ProviderUpstream string
  | ProviderMalformed string
  | ProviderTimeout
  | ProviderInternal string

fun provider_error_code :: "provider_error \<Rightarrow> error_code" where
  "provider_error_code (ProviderValidation _) = Validation"
| "provider_error_code ProviderUnauthorized = Internal"
| "provider_error_code (DeploymentNotFound _) = Internal"
| "provider_error_code (ProviderInternal _) = Internal"
| "provider_error_code ProviderRateLimited = RateLimited"
| "provider_error_code ProviderContentFilter = ContentFilter"
| "provider_error_code (ProviderUpstream _) = Upstream"
| "provider_error_code (ProviderMalformed _) = Upstream"
| "provider_error_code ProviderTimeout = Upstream"

fun provider_user_message :: "provider_error \<Rightarrow> string" where
  "provider_user_message ProviderContentFilter = ERR_CONTENT_FILTER"
| "provider_user_message ProviderRateLimited = ERR_RATE_LIMITED"
| "provider_user_message ProviderTimeout = ERR_GENERATION_TIMEOUT"
| "provider_user_message (ProviderValidation _) = ERR_VALIDATION"
| "provider_user_message (ProviderUpstream _) = ERR_UPSTREAM"
| "provider_user_message (ProviderMalformed _) = ERR_UPSTREAM"
| "provider_user_message (DeploymentNotFound _) = ERR_NOT_DEPLOYED"
| "provider_user_message ProviderUnauthorized = ERR_INTERNAL"
| "provider_user_message (ProviderInternal _) = ERR_INTERNAL"

fun is_retryable :: "provider_error \<Rightarrow> bool" where
  "is_retryable ProviderRateLimited = True"
| "is_retryable (ProviderUpstream _) = True"
| "is_retryable _ = False"

section \<open>Configuration and credentials\<close>

record provider_config =
  pc_endpoint :: string
  pc_api_version :: string
  pc_image_deployment :: string
  pc_audio_deployment :: string
  pc_video_deployment :: string
  pc_tenant_id :: string
  pc_client_id :: string
  pc_client_secret :: "string option"
  pc_api_key :: "string option"

definition provider_url :: "provider_config \<Rightarrow> string \<Rightarrow> string" where
  "provider_url config path = (
     let base = pc_endpoint config @ ''/openai/v1/'' @ dropWhile (\<lambda>c. c = CHR ''/'') path
     in if trim (pc_api_version config) = [] then base
        else base @ ''?api-version='' @ pc_api_version config)"

text \<open>
  The credential libraries: each constructor may fail with a message; \<open>'c\<close> is the type of the
  credentials they build.
\<close>

record 'c credential_libs =
  make_client_secret :: "string \<Rightarrow> string \<Rightarrow> string \<Rightarrow> string + 'c"
  make_managed_identity :: "string + 'c"
  make_developer_tools :: "string + 'c"

datatype 'c credentials = EntraCredential 'c | ApiKeyCredential string

definition provider_running_in_azure :: "(string \<Rightarrow> bool) \<Rightarrow> bool" where
  "provider_running_in_azure var_set \<longleftrightarrow> var_set ''IDENTITY_ENDPOINT'' \<or> var_set ''MSI_ENDPOINT''"

definition credentials_new ::
  "'c credential_libs \<Rightarrow> (string \<Rightarrow> bool) \<Rightarrow> provider_config \<Rightarrow> provider_error + 'c credentials" where
  "credentials_new libs var_set config = (
     case pc_client_secret config of
       Some secret \<Rightarrow>
         (case make_client_secret libs (pc_tenant_id config) (pc_client_id config) secret of
            Inl e \<Rightarrow> Inl (ProviderInternal (''invalid client credentials: '' @ e))
          | Inr c \<Rightarrow> Inr (EntraCredential c))
     | None \<Rightarrow>
         if provider_running_in_azure var_set then
           (case make_managed_identity libs of
              Inl e \<Rightarrow> Inl (ProviderInternal (''managed identity unavailable: '' @ e))
            | Inr c \<Rightarrow> Inr (EntraCredential c))
         else (case make_developer_tools libs of
              Inr c \<Rightarrow> Inr (EntraCredential c)
            | Inl _ \<Rightarrow> (case pc_api_key config of
                None \<Rightarrow> Inl (ProviderInternal ''no Entra credential available and no API key configured'')
              | Some key \<Rightarrow> Inr (ApiKeyCredential key))))"

definition credentials_headers ::
  "('c \<Rightarrow> ('w, string) net) \<Rightarrow> 'c credentials \<Rightarrow> ('w, provider_error, headers) action" where
  "credentials_headers get_token credentials = (case credentials of
     EntraCredential c \<Rightarrow>
       attempt (map_err (\<lambda>e. ProviderInternal (''could not acquire a token: '' @ e)) (get_token c)) (\<lambda>token.
         if \<not> header_value_ok (''Bearer '' @ token)
         then fail (ProviderInternal ''token is not a valid header value'')
         else succeed (header_insert ''authorization'' (''Bearer '' @ token) []))
   | ApiKeyCredential key \<Rightarrow>
       if \<not> header_value_ok key then fail (ProviderInternal ''API key is not a valid header value'')
       else succeed (header_insert ''api-key'' key []))"

section \<open>Statuses\<close>

text \<open>\<open>lower\<close> is \<open>str::to_lowercase\<close> on characters beyond ASCII.\<close>

definition looks_like_content_filter :: "(string \<Rightarrow> string) \<Rightarrow> string \<Rightarrow> bool" where
  "looks_like_content_filter lower body = (let lowered = to_lowercase lower body in
     contains ''content_filter'' lowered \<or> contains ''responsibleaipolicyviolation'' lowered \<or>
     contains ''content_policy_violation'' lowered)"

definition SUMMARY_MAX :: nat where "SUMMARY_MAX = 400"

definition summarise :: "string \<Rightarrow> string" where
  "summarise body = (if length body \<le> SUMMARY_MAX then trim body
     else trim (take (floor_boundary body SUMMARY_MAX) body) @ dots)"

definition map_status :: "(string \<Rightarrow> string) \<Rightarrow> nat \<Rightarrow> string \<Rightarrow> string \<Rightarrow> provider_error" where
  "map_status lower status shown body =
     (if looks_like_content_filter lower body then ProviderContentFilter
      else if status = 400 then ProviderValidation (summarise body)
      else if status = 401 \<or> status = 403 then ProviderUnauthorized
      else if status = 404 then DeploymentNotFound (summarise body)
      else if status = 429 then ProviderRateLimited
      else if is_server_error status then ProviderUpstream (summarise body)
      else ProviderUpstream (''unexpected status '' @ shown @ '': '' @ summarise body))"

definition retry_after :: "headers \<Rightarrow> duration option" where
  "retry_after hs = (case header_get ''retry-after'' hs of None \<Rightarrow> None
     | Some value \<Rightarrow> (case header_to_str value of None \<Rightarrow> None
     | Some s \<Rightarrow> map_option (\<lambda>n. seconds (int n)) (parse_unsigned u64_max (trim s))))"

section \<open>The retry loop\<close>

definition MAX_ATTEMPTS :: nat where "MAX_ATTEMPTS = 4"
definition BASE_BACKOFF :: duration where "BASE_BACKOFF = millis 500"
definition MAX_BACKOFF :: duration where "MAX_BACKOFF = seconds 20"
definition MAX_RETRY_AFTER :: duration where "MAX_RETRY_AFTER = seconds 60"

datatype transport_error = TransportTimeout | TransportOther string

text \<open>
  The environment of the loop: the exchange, the sleep, and the random number in \<open>0..=n\<close>, all on
  an unspecified world.
\<close>

record 'w net_env =
  ne_send :: "http_request \<Rightarrow> 'w \<Rightarrow> (transport_error + http_response) \<times> 'w"
  ne_sleep :: "duration \<Rightarrow> 'w \<Rightarrow> 'w"
  ne_random :: "nat \<Rightarrow> 'w \<Rightarrow> nat \<times> 'w"
  ne_lower :: "string \<Rightarrow> string"

definition backoff_cap :: "nat \<Rightarrow> duration" where
  "backoff_cap att = min (BASE_BACKOFF * int (min (2 ^ (att - 1)) u32_max)) MAX_BACKOFF"

definition backoff :: "'w net_env \<Rightarrow> nat \<Rightarrow> 'w \<Rightarrow> duration \<times> 'w" where
  "backoff env att w = (
     let (n, w') = ne_random env (max (nat (whole_milliseconds (backoff_cap att))) 1) w
     in (millis (int n), w'))"

function send_attempt ::
  "'w net_env \<Rightarrow> http_request \<Rightarrow> nat \<Rightarrow> 'w \<Rightarrow> (provider_error + http_response) \<times> 'w" where
  "send_attempt env req att w = (case ne_send env req w of
     (Inr response, w') \<Rightarrow>
       if is_success (rs_status response) then (Inr response, w')
       else let error = map_status (ne_lower env) (rs_status response) (rs_shown response) (rs_body response) in
         if is_retryable error \<and> att < MAX_ATTEMPTS then
           (let (delay, w'') = (case retry_after (rs_headers response) of
                  Some d \<Rightarrow> (d, w') | None \<Rightarrow> backoff env att w')
            in if MAX_RETRY_AFTER < delay then (Inl error, w'')
               else send_attempt env req (att + 1) (ne_sleep env delay w''))
         else (Inl error, w')
   | (Inl transport, w') \<Rightarrow>
       let error = (case transport of TransportTimeout \<Rightarrow> ProviderTimeout | TransportOther s \<Rightarrow> ProviderUpstream s) in
         if att < MAX_ATTEMPTS \<and> error \<noteq> ProviderTimeout then
           (let (delay, w'') = backoff env att w' in send_attempt env req (att + 1) (ne_sleep env delay w''))
         else (Inl error, w'))"
  by pat_completeness auto
termination
  by (relation "measure (\<lambda>(env, req, att, w). MAX_ATTEMPTS - att)") auto

declare send_attempt.simps [simp del]

definition send_with_retry ::
  "'w net_env \<Rightarrow> http_request \<Rightarrow> ('w, provider_error, http_response) action" where
  "send_with_retry env req = send_attempt env req 1"

section \<open>The policy, as a specification of its traces\<close>

datatype net_event = Sent http_request "transport_error + http_response" | Slept duration

text \<open>An environment that also writes down what the loop does.\<close>

definition traced :: "'w net_env \<Rightarrow> ('w \<times> net_event list) net_env" where
  "traced env = \<lparr>
     ne_send = (\<lambda>req (w, log). let (r, w') = ne_send env req w in (r, (w', log @ [Sent req r]))),
     ne_sleep = (\<lambda>d (w, log). (ne_sleep env d w, log @ [Slept d])),
     ne_random = (\<lambda>n (w, log). let (k, w') = ne_random env n w in (k, (w', log))),
     ne_lower = ne_lower env\<rparr>"

text \<open>What one answer means on its own.\<close>

definition answer_result :: "(string \<Rightarrow> string) \<Rightarrow> transport_error + http_response \<Rightarrow> provider_error + http_response" where
  "answer_result lower ans = (case ans of
     Inr response \<Rightarrow> if is_success (rs_status response) then Inr response
       else Inl (map_status lower (rs_status response) (rs_shown response) (rs_body response))
   | Inl TransportTimeout \<Rightarrow> Inl ProviderTimeout
   | Inl (TransportOther s) \<Rightarrow> Inl (ProviderUpstream s))"

text \<open>
  At most \<open>n\<close> retries: either the answer at hand decides, or it is a retryable failure and, after a
  bounded wait, the same request is sent again.
\<close>

inductive retry_run ::
  "(string \<Rightarrow> string) \<Rightarrow> http_request \<Rightarrow> nat \<Rightarrow> net_event list \<Rightarrow> provider_error + http_response \<Rightarrow> bool"
  for lower req where
  decided: "retry_run lower req n [Sent req ans] (answer_result lower ans)"
| again: "answer_result lower ans = Inl e \<Longrightarrow> is_retryable e \<Longrightarrow> 0 \<le> d \<Longrightarrow> d \<le> MAX_RETRY_AFTER \<Longrightarrow>
    retry_run lower req n tail res \<Longrightarrow> retry_run lower req (Suc n) (Sent req ans # Slept d # tail) res"

lemma parse_unsigned_seconds_nonneg: "retry_after hs = Some d \<Longrightarrow> 0 \<le> d"
  by (auto simp: retry_after_def duration_defs split: option.splits)

lemma backoff_bounds:
  assumes "\<And>n w. fst (ne_random env n w) \<le> n"
  shows "0 \<le> fst (backoff env att w) \<and> fst (backoff env att w) \<le> MAX_BACKOFF"
proof -
  have cap: "0 \<le> backoff_cap att" "backoff_cap att \<le> MAX_BACKOFF"
    by (simp_all add: backoff_cap_def BASE_BACKOFF_def MAX_BACKOFF_def duration_defs)
  then have "whole_milliseconds (backoff_cap att) \<le> 20000"
    by (cases "backoff_cap att = 0") (simp_all add: MAX_BACKOFF_def duration_defs)
  then have "max (nat (whole_milliseconds (backoff_cap att))) 1 \<le> 20000" by simp
  then have "fst (ne_random env (max (nat (whole_milliseconds (backoff_cap att))) 1) w) \<le> 20000"
    using assms le_trans by blast
  then show ?thesis by (simp add: backoff_def case_prod_unfold Let_def MAX_BACKOFF_def duration_defs)
qed

lemma traced_backoff:
  "backoff (traced env) att (w, log) = (fst (backoff env att w), (snd (backoff env att w), log))"
  by (simp add: backoff_def traced_def case_prod_unfold Let_def)

lemma traced_simps:
  "ne_send (traced env) req (w, log) = (fst (ne_send env req w), (snd (ne_send env req w), log @ [Sent req (fst (ne_send env req w))]))"
  "ne_sleep (traced env) d (w, log) = (ne_sleep env d w, log @ [Slept d])"
  "ne_lower (traced env) = ne_lower env"
  by (simp_all add: traced_def case_prod_unfold Let_def)

text \<open>One attempt decides, waits as it is told to, gives up because the wait is too long, or backs off.\<close>

lemma send_attempt_decides:
  assumes "ne_send env req w = (ans, v)"
    and "\<And>e. att < MAX_ATTEMPTS \<Longrightarrow> answer_result (ne_lower env) ans = Inl e \<Longrightarrow> \<not> is_retryable e"
  shows "send_attempt (traced env) req att (w, log) = (answer_result (ne_lower env) ans, (v, log @ [Sent req ans]))"
  using assms by (subst send_attempt.simps)
    (auto simp: traced_simps answer_result_def Let_def split: sum.splits transport_error.splits)

lemma send_attempt_obeys:
  assumes "ne_send env req w = (Inr r, v)" and "retry_after (rs_headers r) = Some d" and "att < MAX_ATTEMPTS"
    and "answer_result (ne_lower env) (Inr r) = Inl e" and "is_retryable e"
  shows "send_attempt (traced env) req att (w, log) =
    (if MAX_RETRY_AFTER < d then (Inl e, (v, log @ [Sent req (Inr r)]))
     else send_attempt (traced env) req (att + 1) (ne_sleep env d v, log @ [Sent req (Inr r), Slept d]))"
  using assms by (subst send_attempt.simps) (auto simp: traced_simps answer_result_def Let_def split: if_splits)

lemma send_attempt_backs_off:
  assumes "ne_send env req w = (ans, v)" and "\<nexists>r d. ans = Inr r \<and> retry_after (rs_headers r) = Some d" and "att < MAX_ATTEMPTS"
    and "answer_result (ne_lower env) ans = Inl e" and "is_retryable e" and "fst (backoff env att v) \<le> MAX_RETRY_AFTER"
  shows "send_attempt (traced env) req att (w, log) = send_attempt (traced env) req (att + 1)
    (ne_sleep env (fst (backoff env att v)) (snd (backoff env att v)), log @ [Sent req ans, Slept (fst (backoff env att v))])"
  using assms by (subst send_attempt.simps)
    (auto simp: traced_simps answer_result_def Let_def traced_backoff not_le [symmetric]
      split: sum.splits transport_error.splits if_splits option.splits)

definition traced_run :: "'w net_env \<Rightarrow> http_request \<Rightarrow> nat \<Rightarrow> net_event list \<Rightarrow> (provider_error + http_response) \<times> 'w \<times> net_event list \<Rightarrow> bool" where
  "traced_run env req n log out \<longleftrightarrow> (\<exists>tail. snd (snd out) = log @ tail \<and> retry_run (ne_lower env) req n tail (fst out))"

lemma traced_run_decided: "traced_run env req n log (answer_result (ne_lower env) ans, (v, log @ [Sent req ans]))"
  using retry_run.decided unfolding traced_run_def by fastforce

lemma traced_run_again:
  assumes "answer_result (ne_lower env) ans = Inl e" "is_retryable e" "0 \<le> d" "d \<le> MAX_RETRY_AFTER"
    and "traced_run env req n (log @ [Sent req ans, Slept d]) out"
  shows "traced_run env req (Suc n) log out"
proof -
  from assms(5) obtain tail where "snd (snd out) = (log @ [Sent req ans, Slept d]) @ tail" "retry_run (ne_lower env) req n tail (fst out)"
    by (auto simp: traced_run_def)
  with retry_run.again [OF assms(1-4)] show ?thesis
    unfolding traced_run_def by (intro exI [of _ "Sent req ans # Slept d # tail"]) simp
qed

lemma send_attempt_traced_run:
  assumes "\<And>n w. fst (ne_random env n w) \<le> n" and "att \<le> MAX_ATTEMPTS"
  shows "traced_run env req (MAX_ATTEMPTS - att) log (send_attempt (traced env) req att (w, log))"
  using assms(2)
proof (induction "MAX_ATTEMPTS - att" arbitrary: att w log)
  case 0
  obtain ans v where s: "ne_send env req w = (ans, v)" by fastforce
  show ?case using 0 by (subst send_attempt_decides [OF s]) (auto intro: traced_run_decided)
next
  case (Suc k)
  obtain ans v where s: "ne_send env req w = (ans, v)" by fastforce
  have k: "MAX_ATTEMPTS - att = Suc (MAX_ATTEMPTS - (att + 1))" "att + 1 \<le> MAX_ATTEMPTS" "att < MAX_ATTEMPTS"
    "k = MAX_ATTEMPTS - (att + 1)" using Suc.hyps(2) by auto
  note IH = Suc.hyps(1) [OF k(4,2)]
  have wait: "0 \<le> fst (backoff env att v)" "fst (backoff env att v) \<le> MAX_RETRY_AFTER"
    using backoff_bounds [OF assms(1), of att v] by (simp_all add: MAX_BACKOFF_def MAX_RETRY_AFTER_def duration_defs)
  consider (decided) "\<nexists>e. answer_result (ne_lower env) ans = Inl e \<and> is_retryable e"
    | (told) e r d where "answer_result (ne_lower env) ans = Inl e" "is_retryable e" "ans = Inr r" "retry_after (rs_headers r) = Some d"
    | (untold) e where "answer_result (ne_lower env) ans = Inl e" "is_retryable e" "\<nexists>r d. ans = Inr r \<and> retry_after (rs_headers r) = Some d"
    by blast
  then show ?case
  proof cases
    case decided
    then show ?thesis by (subst send_attempt_decides [OF s]) (auto intro: traced_run_decided)
  next
    case told
    note step = send_attempt_obeys [OF s [unfolded told(3)] told(4) k(3) told(1) [unfolded told(3)] told(2), of log]
    show ?thesis
    proof (cases "MAX_RETRY_AFTER < d")
      case True
      then show ?thesis using step traced_run_decided [of env req _ log ans v] told(1,3) by simp
    next
      case False
      then show ?thesis unfolding k(1) step
        using traced_run_again [OF told(1,2) parse_unsigned_seconds_nonneg [OF told(4)] _ IH] told(3) by simp
    qed
  next
    case untold
    show ?thesis unfolding k(1) send_attempt_backs_off [OF s untold(3) k(3) untold(1,2) wait(2)]
      by (rule traced_run_again [OF untold(1,2) wait IH])
  qed
qed

lemmas send_attempt_traced = send_attempt_traced_run [unfolded traced_run_def]

lemma retry_run_trace:
  "retry_run lower req n tail res \<Longrightarrow> \<exists>failed waits ans. tail = concat (map2 (\<lambda>a d. [Sent req a, Slept d]) failed waits) @ [Sent req ans] \<and>
     length failed = length waits \<and> length failed \<le> n \<and> res = answer_result lower ans \<and>
     (\<forall>a \<in> set failed. \<exists>e. answer_result lower a = Inl e \<and> is_retryable e) \<and>
     (\<forall>d \<in> set waits. 0 \<le> d \<and> d \<le> MAX_RETRY_AFTER)"
proof (induction rule: retry_run.induct)
  case (decided n ans)
  show ?case by (intro exI [of _ "[]"] exI [of _ ans]) simp
next
  case (again ans e d n tail res)
  then obtain failed waits last where "tail = concat (map2 (\<lambda>a d. [Sent req a, Slept d]) failed waits) @ [Sent req last]"
    "length failed = length waits" "length failed \<le> n" "res = answer_result lower last"
    "\<forall>a \<in> set failed. \<exists>e. answer_result lower a = Inl e \<and> is_retryable e"
    "\<forall>d \<in> set waits. 0 \<le> d \<and> d \<le> MAX_RETRY_AFTER" by blast
  with again.hyps show ?case
    by (intro exI [of _ "ans # failed"] exI [of _ "d # waits"] exI [of _ last]) simp
qed

lemma sum_list_bounded: "\<forall>d \<in> set ds. d \<le> (b :: int) \<Longrightarrow> sum_list ds \<le> int (length ds) * b"
  by (induction ds) (simp_all add: algebra_simps)

section \<open>Properties of the shared client\<close>


text \<open>A peer that is rate limited once and then answers.\<close>

definition sample_env :: "nat net_env" where
  "sample_env = \<lparr>ne_send = (\<lambda>req n. (Inr (if n = 0 then \<lparr>rs_status = 429, rs_shown = ''429 Too Many Requests'', rs_headers = [(''retry-after'', ''7'')], rs_body = []\<rparr>
       else \<lparr>rs_status = 200, rs_shown = ''200 OK'', rs_headers = [], rs_body = ''ok''\<rparr>), n + 1)),
     ne_sleep = (\<lambda>d n. n), ne_random = (\<lambda>k n. (0, n)), ne_lower = (\<lambda>s. s)\<rparr>"

definition sample_request :: http_request where
  "sample_request = \<lparr>rq_method = POST, rq_url = ''https://x'', rq_headers = [], rq_body = NoBody\<rparr>"

lemma sample_env_run:
  "send_with_retry (traced sample_env) sample_request (0, []) =
     (Inr \<lparr>rs_status = 200, rs_shown = ''200 OK'', rs_headers = [], rs_body = ''ok''\<rparr>, (2,
       [Sent sample_request (Inr \<lparr>rs_status = 429, rs_shown = ''429 Too Many Requests'', rs_headers = [(''retry-after'', ''7'')], rs_body = []\<rparr>),
        Slept (seconds 7), Sent sample_request (Inr \<lparr>rs_status = 200, rs_shown = ''200 OK'', rs_headers = [], rs_body = ''ok''\<rparr>)]))"
proof -
  have filt: "looks_like_content_filter (\<lambda>s. s) [] = False" by code_simp
  have after: "retry_after [(''retry-after'', ''7'')] = Some (seconds 7)"
  proof -
    have "dec 7 = ''7''" "trim ''7'' = ''7''" "header_to_str ''7'' = Some ''7''" by code_simp+
    then show ?thesis using parse_unsigned_dec [of 7 u64_max] by (simp add: retry_after_def header_get_def)
  qed
  have status: "map_status (\<lambda>s. s) 429 shown [] = ProviderRateLimited" for shown by (simp add: map_status_def filt)
  have env: "ne_send sample_env req n = (Inr (if n = 0 then \<lparr>rs_status = 429, rs_shown = ''429 Too Many Requests'', rs_headers = [(''retry-after'', ''7'')], rs_body = []\<rparr>
       else \<lparr>rs_status = 200, rs_shown = ''200 OK'', rs_headers = [], rs_body = ''ok''\<rparr>), n + 1)" "ne_sleep sample_env d n = n"
    "ne_lower sample_env = (\<lambda>s. s)" for req n d by (simp_all add: sample_env_def)
  have limit: "\<not> MAX_RETRY_AFTER < seconds 7" by (simp add: MAX_RETRY_AFTER_def duration_defs)
  show ?thesis
    unfolding send_with_retry_def
    by (subst send_attempt.simps, simp add: traced_simps env is_success_def status after MAX_ATTEMPTS_def limit)
      (subst send_attempt.simps, simp add: traced_simps env is_success_def)
qed


text \<open>
  What is logged and shown of a failed response is bounded and readable: a summary is valid
  UTF-8, at most 403 bytes long, and a body that fits is only trimmed.
\<close>

theorem summary_is_bounded:
  assumes "utf8_valid body"
  shows "utf8_valid (summarise body) \<and> length (summarise body) \<le> 403 \<and>
    (length body \<le> 400 \<longrightarrow> summarise body = trim body)"
proof -
  have short: "length (trim s) \<le> length s" for s
  proof -
    have "length (concat (trim_chars cs)) \<le> length (concat cs)" for cs
    proof -
      have drop: "length (concat (dropWhile is_whitespace ds)) \<le> length (concat ds)" for ds
        by (induction ds) auto
      have "length (concat (rev ds)) = length (concat ds)" for ds :: "string list"
        by (induction ds) auto
      then show ?thesis unfolding trim_chars_def using drop by (metis order_trans)
    qed
    from this [of "chars s"] show ?thesis by (simp add: trim_def)
  qed
  let ?cut = "take (floor_boundary body SUMMARY_MAX) body"
  have valid: "utf8_valid ?cut"
    using take_boundary_valid [OF assms floor_boundary_boundary] .
  have dots: "utf8_valid dots" by (simp add: utf8_valid_def utf8_width_def wf_char_def is_continuation_def)
  have len: "length (trim ?cut) \<le> 400"
    using short [of ?cut] floor_boundary_le [of body SUMMARY_MAX] by (simp add: SUMMARY_MAX_def)
  show ?thesis
  proof (cases "length body \<le> SUMMARY_MAX")
    case True
    then show ?thesis using short [of body] utf8_valid_trim [OF assms] by (simp add: summarise_def SUMMARY_MAX_def)
  next
    case False
    then have "summarise body = trim ?cut @ dots" by (simp add: summarise_def)
    moreover have "utf8_valid (trim ?cut @ dots)"
      using utf8_valid_append [OF utf8_valid_trim [OF valid]] dots by blast
    ultimately show ?thesis using False len by (simp add: SUMMARY_MAX_def)
  qed
qed

theorem summary_is_bounded_witness:
  "utf8_valid (summarise (replicate 399 (CHR ''a'') @ dash @ ''b'')) \<and>
   length (summarise (replicate 399 (CHR ''a'') @ dash @ ''b'')) \<le> 403"
proof -
  have "utf8_valid (replicate 399 (CHR ''a'') @ dash @ ''b'')"
  proof (subst utf8_valid_append)
    show "utf8_valid (replicate 399 (CHR ''a''))" by (rule utf8_valid_ascii) (simp add: list_all_iff)
    show "utf8_valid (dash @ ''b'')" by (simp add: utf8_valid_def utf8_width_def wf_char_def is_continuation_def)
  qed
  from summary_is_bounded [OF this] show ?thesis by blast
qed

end
