(* ===== verification/Database.thy ===== *)
theory Database
  imports Domain
begin

text \<open>
  The PostgreSQL schema (\<open>migrations/0001_initial.sql\<close>, \<open>0002_hidden_jobs.sql\<close>) and the
  errors of the persistence layer (\<open>crates/storage/src/error.rs\<close>). A table is the list of its
  rows in insertion order; a statement is an action on the database that either fails and
  changes nothing or does all it says. \<open>db_ok\<close> is the conjunction of the constraints the
  schema declares, and every statement that writes checks the ones it could break, as the
  server does.

  Values the server makes up are arguments: \<open>now\<close> is the transaction time and the fresh id is
  what \<open>gen_random_uuid()\<close> returned.
\<close>

section \<open>Errors\<close>

datatype sqlx_error = RowNotFound | UniqueViolation | OtherDriverError string

datatype storage_error =
    StorageNotFound
  | StorageConflict
  | StorageDatabase sqlx_error
  | StorageBlob string
  | StorageMigration string

fun storage_error_code :: "storage_error \<Rightarrow> error_code" where
  "storage_error_code StorageNotFound = NotFound"
| "storage_error_code StorageConflict = Validation"
| "storage_error_code (StorageDatabase _) = Internal"
| "storage_error_code (StorageMigration _) = Internal"
| "storage_error_code (StorageBlob _) = Internal"

definition map_sqlx :: "sqlx_error \<Rightarrow> storage_error" where
  "map_sqlx error = (case error of
     RowNotFound \<Rightarrow> StorageNotFound
   | UniqueViolation \<Rightarrow> StorageConflict
   | _ \<Rightarrow> StorageDatabase error)"

lemma map_sqlx_simps [simp]:
  "map_sqlx RowNotFound = StorageNotFound"
  "map_sqlx UniqueViolation = StorageConflict"
  "map_sqlx (OtherDriverError s) = StorageDatabase (OtherDriverError s)"
  by (simp_all add: map_sqlx_def)

section \<open>Tables\<close>

record user_row =
  u_id :: uuid
  u_entra_oid :: string
  u_email :: "string option"
  u_display_name :: string
  u_created_at :: instant
  u_last_login_at :: instant

record job_row =
  j_id :: uuid
  j_user_id :: uuid
  j_media_type :: media_type
  j_prompt :: string
  j_parameters :: json
  j_status :: string
  j_provider_job_id :: "string option"
  j_error_code :: "string option"
  j_error_message :: "string option"
  j_created_at :: instant
  j_started_at :: "instant option"
  j_completed_at :: "instant option"
  j_hidden :: bool

record asset_row =
  a_id :: uuid
  a_job_id :: uuid
  a_blob_path :: string
  a_content_type :: string
  a_size_bytes :: int
  a_duration_ms :: "int option"
  a_width :: "int option"
  a_height :: "int option"
  a_created_at :: instant

record audit_row =
  l_user_id :: "uuid option"
  l_action :: string
  l_entity :: string
  l_entity_id :: "string option"
  l_ip :: "string option"
  l_user_agent :: "string option"
  l_created_at :: instant

record database =
  users :: "user_row list"
  jobs :: "job_row list"
  assets :: "asset_row list"
  audit_log :: "audit_row list"

type_synonym 'a db_op = "(database, storage_error, 'a) action"

definition empty_database :: database where
  "empty_database = \<lparr>users = [], jobs = [], assets = [], audit_log = []\<rparr>"

section \<open>Constraints\<close>

definition jobs_status_valid :: "job_row \<Rightarrow> bool" where
  "jobs_status_valid r \<longleftrightarrow> j_status r \<in> {''queued'', ''running'', ''succeeded'', ''failed'', ''cancelled''}"

definition jobs_error_matches_status :: "job_row \<Rightarrow> bool" where
  "jobs_error_matches_status r \<longleftrightarrow> (j_status r = ''failed'') = (j_error_code r \<noteq> None)"

definition assets_size_non_negative :: "asset_row \<Rightarrow> bool" where
  "assets_size_non_negative r \<longleftrightarrow> 0 \<le> a_size_bytes r"

definition job_row_ok :: "job_row \<Rightarrow> bool" where
  "job_row_ok r \<longleftrightarrow> jobs_status_valid r \<and> jobs_error_matches_status r"

definition db_ok :: "database \<Rightarrow> bool" where
  "db_ok db \<longleftrightarrow>
     distinct (map u_id (users db)) \<and> distinct (map u_entra_oid (users db)) \<and>
     distinct (map j_id (jobs db)) \<and> distinct (map a_id (assets db)) \<and>
     j_user_id ` set (jobs db) \<subseteq> u_id ` set (users db) \<and>
     a_job_id ` set (assets db) \<subseteq> j_id ` set (jobs db) \<and>
     list_all job_row_ok (jobs db) \<and> list_all assets_size_non_negative (assets db) \<and>
     (\<forall>l \<in> set (audit_log db). set_option (l_user_id l) \<subseteq> u_id ` set (users db))"

lemma db_ok_empty: "db_ok empty_database"
  by (simp add: db_ok_def empty_database_def)

lemma db_okD:
  assumes "db_ok db"
  shows "distinct (map u_id (users db))" and "distinct (map u_entra_oid (users db))"
    and "distinct (map j_id (jobs db))" and "distinct (map a_id (assets db))"
    and "r \<in> set (jobs db) \<Longrightarrow> job_row_ok r"
    and "r \<in> set (jobs db) \<Longrightarrow> j_user_id r \<in> u_id ` set (users db)"
    and "a \<in> set (assets db) \<Longrightarrow> a_job_id a \<in> j_id ` set (jobs db)"
    and "a \<in> set (assets db) \<Longrightarrow> 0 \<le> a_size_bytes a"
  using assms by (auto simp: db_ok_def list_all_iff assets_size_non_negative_def)

text \<open>\<open>status in ('queued', 'running')\<close>.\<close>

definition unfinished :: "job_row \<Rightarrow> bool" where
  "unfinished r \<longleftrightarrow> j_status r = ''queued'' \<or> j_status r = ''running''"

section \<open>Statements\<close>

text \<open>\<open>fetch_one\<close>: the first row, or \<open>RowNotFound\<close>.\<close>

definition fetch_one :: "'r list \<Rightarrow> sqlx_error + 'r" where
  "fetch_one rows = (case rows of [] \<Rightarrow> Inl RowNotFound | r # _ \<Rightarrow> Inr r)"

text \<open>\<open>update .. where .. \<close>: every matching row, in place.\<close>

definition update_where :: "('r \<Rightarrow> bool) \<Rightarrow> ('r \<Rightarrow> 'r) \<Rightarrow> 'r list \<Rightarrow> 'r list" where
  "update_where P f rows = map (\<lambda>r. if P r then f r else r) rows"

text \<open>
  \<open>order by .. limit .. offset ..\<close>. Rows that compare equal keep their table order. A
  negative limit or offset is an error of the server.
\<close>

definition order_by :: "bool \<Rightarrow> ('r \<Rightarrow> instant) \<Rightarrow> 'r list \<Rightarrow> 'r list" where
  "order_by descending key rows = sort_key (\<lambda>r. if descending then - key r else key r) rows"

definition limit_offset :: "int \<Rightarrow> int \<Rightarrow> 'r list \<Rightarrow> sqlx_error + 'r list" where
  "limit_offset lim off rows =
     (if lim < 0 then Inl (OtherDriverError ''LIMIT must not be negative'')
      else if off < 0 then Inl (OtherDriverError ''OFFSET must not be negative'')
      else Inr (take (nat lim) (drop (nat off) rows)))"

text \<open>A statement that reads rows and converts them.\<close>

definition select_op :: "(database \<Rightarrow> sqlx_error + 'a) \<Rightarrow> ('a \<Rightarrow> 'b) \<Rightarrow> 'b db_op" where
  "select_op query to db = (case query db of Inl e \<Rightarrow> (Inl (map_sqlx e), db) | Inr r \<Rightarrow> (Inr (to r), db))"

lemma select_op_snd [simp]: "snd (select_op q f db) = db"
  by (simp add: select_op_def split: sum.splits)

lemma keeps_select [keeps_intros]: "keeps I (select_op q f)"
  by (simp add: keeps_def)

lemma set_update_where: "r \<in> set (update_where P f rows) \<longleftrightarrow>
    (\<exists>s \<in> set rows. (P s \<and> r = f s) \<or> (\<not> P s \<and> r = s))"
  by (auto simp: update_where_def)

lemma map_update_where: "(\<And>r. k (f r) = k r) \<Longrightarrow> map k (update_where P f rows) = map k rows"
  by (auto simp: update_where_def)

lemma length_update_where [simp]: "length (update_where P f rows) = length rows"
  by (simp add: update_where_def)

lemma update_where_no_match: "filter P rows = [] \<Longrightarrow> update_where P f rows = rows"
  by (auto simp: update_where_def filter_empty_conv intro: map_idI)

lemma set_order_by [simp]: "set (order_by d k rows) = set rows"
  by (simp add: order_by_def)

lemma length_order_by [simp]: "length (order_by d k rows) = length rows"
  by (simp add: order_by_def)

lemma order_by_sorted:
  "sorted_wrt (\<lambda>r s. if d then k s \<le> k r else k r \<le> k s) (order_by d k rows)"
proof -
  have "sorted (map (\<lambda>r. if d then - k r else k r) (order_by d k rows))"
    by (simp add: order_by_def)
  then show ?thesis by (cases d) (simp_all add: sorted_map)
qed

lemma limit_offset_Inr:
  "limit_offset l f rows = Inr page \<Longrightarrow> 0 \<le> l \<and> 0 \<le> f \<and> page = take (nat l) (drop (nat f) rows)"
  by (simp add: limit_offset_def split: if_splits)

text \<open>A statement that changes the jobs table in ways no constraint notices keeps them all.\<close>

lemma db_ok_update_jobs:
  assumes "db_ok db"
    and "\<And>r. j_id (f r) = j_id r" and "\<And>r. j_user_id (f r) = j_user_id r"
    and "\<And>r. r \<in> set (jobs db) \<Longrightarrow> P r \<Longrightarrow> job_row_ok r \<Longrightarrow> job_row_ok (f r)"
  shows "db_ok (db\<lparr>jobs := update_where P f (jobs db)\<rparr>)"
proof -
  have ids: "map j_id (update_where P f (jobs db)) = map j_id (jobs db)"
    and owners: "map j_user_id (update_where P f (jobs db)) = map j_user_id (jobs db)"
    using assms(2,3) by (simp_all add: map_update_where)
  have "j_id ` set (update_where P f (jobs db)) = j_id ` set (jobs db)"
    and "j_user_id ` set (update_where P f (jobs db)) = j_user_id ` set (jobs db)"
    using ids owners by (metis set_map)+
  then show ?thesis
    using assms(1,4) ids unfolding db_ok_def by (auto simp: list_all_iff set_update_where)
qed

text \<open>\<open>on delete cascade\<close>: the assets of a deleted job go with it.\<close>

definition delete_jobs :: "(job_row \<Rightarrow> bool) \<Rightarrow> database \<Rightarrow> database" where
  "delete_jobs P db = (let kept = filter (\<lambda>r. \<not> P r) (jobs db) in
     db\<lparr>jobs := kept, assets := filter (\<lambda>a. a_job_id a \<in> j_id ` set kept) (assets db)\<rparr>)"

lemma db_ok_delete_jobs:
  assumes "db_ok db"
  shows "db_ok (delete_jobs P db)"
proof -
  have "distinct (map j_id (filter (\<lambda>r. \<not> P r) (jobs db)))"
    and "distinct (map a_id (filter Q (assets db)))" for Q
    using assms by (simp_all add: db_ok_def distinct_map_filter_key)
  with assms show ?thesis
    by (auto simp: db_ok_def delete_jobs_def Let_def list_all_iff)
qed


section \<open>Tables as maps\<close>

text \<open>
  The abstract view of a table with a primary key: a map from keys to rows. Statements that
  address one row are updates of this map.
\<close>

definition row_by :: "('r \<Rightarrow> uuid) \<Rightarrow> 'r list \<Rightarrow> uuid \<Rightarrow> 'r option" where
  "row_by key rows i = find (\<lambda>r. key r = i) rows"

abbreviation job_table :: "database \<Rightarrow> uuid \<Rightarrow> job_row option" where
  "job_table db \<equiv> row_by j_id (jobs db)"

abbreviation asset_table :: "database \<Rightarrow> uuid \<Rightarrow> asset_row option" where
  "asset_table db \<equiv> row_by a_id (assets db)"

abbreviation user_table :: "database \<Rightarrow> uuid \<Rightarrow> user_row option" where
  "user_table db \<equiv> row_by u_id (users db)"

lemma row_by_SomeD: "row_by k rows i = Some r \<Longrightarrow> r \<in> set rows \<and> k r = i"
  by (auto simp: row_by_def dest: find_map_Some)

lemma row_by_None: "row_by k rows i = None \<longleftrightarrow> i \<notin> k ` set rows"
  by (auto simp: row_by_def find_None_iff)

lemma row_by_key: "distinct (map k rows) \<Longrightarrow> r \<in> set rows \<Longrightarrow> row_by k rows (k r) = Some r"
  by (simp add: row_by_def find_distinct_key)

lemma row_by_iff: "distinct (map k rows) \<Longrightarrow> row_by k rows i = Some r \<longleftrightarrow> r \<in> set rows \<and> k r = i"
  using row_by_key row_by_SomeD by metis

lemma row_by_append:
  "row_by k (rows @ [r]) i = (case row_by k rows i of Some s \<Rightarrow> Some s | None \<Rightarrow> if k r = i then Some r else None)"
  by (induction rows) (auto simp: row_by_def)

lemma row_by_update_where:
  "(\<And>r. k (f r) = k r) \<Longrightarrow> row_by k (update_where P f rows) i = map_option (\<lambda>r. if P r then f r else r) (row_by k rows i)"
  by (induction rows) (auto simp: row_by_def update_where_def)

lemma row_by_filter:
  "distinct (map k rows) \<Longrightarrow>
   row_by k (filter Q rows) i = (case row_by k rows i of Some r \<Rightarrow> if Q r then Some r else None | None \<Rightarrow> None)"
proof (induction rows)
  case (Cons r rows)
  show ?case
  proof (cases "k r = i")
    case True
    then have "row_by k rows i = None" using Cons.prems by (simp add: row_by_None)
    then have "row_by k (filter Q rows) i = None" by (auto simp: row_by_None)
    with True show ?thesis by (simp add: row_by_def)
  next
    case False
    with Cons show ?thesis by (simp add: row_by_def)
  qed
qed (simp add: row_by_def)

lemma filter_row_by:
  "distinct (map k rows) \<Longrightarrow>
   filter (\<lambda>r. k r = i \<and> Q r) rows = (case row_by k rows i of Some r \<Rightarrow> if Q r then [r] else [] | None \<Rightarrow> [])"
proof (induction rows)
  case (Cons r rows)
  have none: "filter (\<lambda>s. k s = k r \<and> Q s) rows = []"
    unfolding filter_empty_conv using Cons.prems by (auto simp: rev_image_eqI)
  show ?case
    using Cons none by (auto simp: row_by_def)
qed (simp add: row_by_def)

end
