(* ===== verification/Blob.thy ===== *)
theory Blob
  imports Database Http Cache
begin

text \<open>
  Azure Blob Storage (\<open>crates/storage/src/blob.rs\<close>): the requests of the client for one private
  container, the delegation key and its cache, and the signed, time-limited read links. The
  libraries behind it (HMAC, Base64, the calendar of the \<open>time\<close> crate, Unicode tables) are the
  record \<open>blob_libs\<close>; the Entra token and the HTTP exchange are actions of the environment.
\<close>

section \<open>Configuration of the client\<close>

definition API_VERSION :: string where "API_VERSION = ''2025-05-05''"
definition DELEGATION_KEY_TTL :: duration where "DELEGATION_KEY_TTL = seconds (6 * 60 * 60)"
definition DELEGATION_KEY_SKEW :: duration where "DELEGATION_KEY_SKEW = seconds (10 * 60)"
definition START_SKEW :: duration where "START_SKEW = seconds (5 * 60)"

record civil =
  c_year :: int
  c_month :: nat
  c_day :: nat
  c_hour :: nat
  c_minute :: nat
  c_second :: nat

record blob_libs =
  lib_civil :: "instant \<Rightarrow> civil"
  lib_parse_iso :: "string \<Rightarrow> instant option"
  lib_hmac_sha256 :: "string \<Rightarrow> string \<Rightarrow> string + string"
  lib_base64 :: "string \<Rightarrow> string"
  lib_unbase64 :: "string \<Rightarrow> string + string"
  lib_alphanumeric :: "string \<Rightarrow> bool"

record blob_store =
  bs_account :: string
  bs_container :: string

record delegation_key =
  signed_oid :: string
  signed_tid :: string
  signed_start :: string
  signed_expiry :: string
  signed_service :: string
  signed_version :: string
  key_value :: string
  expires_at :: instant

definition key_is_stale :: "instant \<Rightarrow> delegation_key \<Rightarrow> bool" where
  "key_is_stale now key \<longleftrightarrow> now + DELEGATION_KEY_SKEW \<ge> expires_at key"

text \<open>Which credential the client is built with; \<open>var_set\<close> is the process environment.\<close>

datatype credential_kind = ManagedIdentity | DeveloperTools

definition running_in_azure :: "(string \<Rightarrow> bool) \<Rightarrow> bool" where
  "running_in_azure var_set \<longleftrightarrow> var_set ''IDENTITY_ENDPOINT'' \<or> var_set ''MSI_ENDPOINT''"

text \<open>
  \<open>BlobStore::new\<close>: the credential first, then the HTTP client with its timeout, and either of them
  can fail; the client is what \<open>send\<close> below stands for.
\<close>

definition BLOB_TIMEOUT :: duration where "BLOB_TIMEOUT = seconds 120"

definition blob_store_new ::
  "(string \<Rightarrow> bool) \<Rightarrow> (credential_kind \<Rightarrow> string + 'c) \<Rightarrow> (duration \<Rightarrow> string + 'h) \<Rightarrow> string \<Rightarrow> string \<Rightarrow>
     storage_error + (blob_store \<times> 'c)" where
  "blob_store_new var_set construct build account container =
     and_then
       (if running_in_azure var_set
        then map_sum (\<lambda>e. StorageBlob (''managed identity unavailable: '' @ e)) id (construct ManagedIdentity)
        else map_sum (\<lambda>e. StorageBlob (''no Azure credential for Blob Storage: '' @ e)) id (construct DeveloperTools)) (\<lambda>credential.
     and_then (map_sum StorageBlob id (build BLOB_TIMEOUT)) (\<lambda>_.
       Inr (\<lparr>bs_account = account, bs_container = container\<rparr>, credential)))"

definition blob_endpoint :: "blob_store \<Rightarrow> string" where
  "blob_endpoint store = ''https://'' @ bs_account store @ ''.blob.core.windows.net''"

definition blob_url :: "blob_store \<Rightarrow> string \<Rightarrow> string" where
  "blob_url store path = blob_endpoint store @ ''/'' @ bs_container store @ ''/'' @ path"

section \<open>Upload, download, delete\<close>

text \<open>
  \<open>get_token\<close> asks Entra ID for a token and \<open>send\<close> performs the exchange; both are actions of the
  environment that fail with a message.
\<close>

definition blob_token :: "('w, string) net \<Rightarrow> ('w, storage_error, string) action" where
  "blob_token get_token = map_err (\<lambda>e. StorageBlob (''could not acquire a token: '' @ e)) get_token"

definition blob_headers :: "string \<Rightarrow> headers" where
  "blob_headers token = [(''authorization'', ''Bearer '' @ token), (''x-ms-version'', API_VERSION)]"

definition blob_upload ::
  "blob_store \<Rightarrow> ('w, string) net \<Rightarrow> (http_request \<Rightarrow> ('w, http_response) net) \<Rightarrow>
   string \<Rightarrow> string \<Rightarrow> string \<Rightarrow> ('w, storage_error, unit) action" where
  "blob_upload store get_token send path content_type bytes =
     attempt (blob_token get_token) (\<lambda>token.
     attempt (map_err StorageBlob (send \<lparr>rq_method = PUT, rq_url = blob_url store path,
         rq_headers = blob_headers token @ [(''x-ms-blob-type'', ''BlockBlob''), (''content-type'', content_type)],
         rq_body = BytesBody bytes\<rparr>)) (\<lambda>response.
       if \<not> is_success (rs_status response)
       then fail (StorageBlob (''upload failed with '' @ rs_shown response @ '': '' @ take_chars 300 (rs_body response)))
       else succeed ()))"

definition blob_download ::
  "blob_store \<Rightarrow> ('w, string) net \<Rightarrow> (http_request \<Rightarrow> ('w, http_response) net) \<Rightarrow>
   string \<Rightarrow> ('w, storage_error, string) action" where
  "blob_download store get_token send path =
     attempt (blob_token get_token) (\<lambda>token.
     attempt (map_err StorageBlob (send \<lparr>rq_method = GET, rq_url = blob_url store path,
         rq_headers = blob_headers token, rq_body = NoBody\<rparr>)) (\<lambda>response.
       if \<not> is_success (rs_status response)
       then fail (StorageBlob (''download failed with '' @ rs_shown response))
       else succeed (rs_body response)))"

definition blob_delete ::
  "blob_store \<Rightarrow> ('w, string) net \<Rightarrow> (http_request \<Rightarrow> ('w, http_response) net) \<Rightarrow>
   string \<Rightarrow> ('w, storage_error, unit) action" where
  "blob_delete store get_token send path =
     attempt (blob_token get_token) (\<lambda>token.
     attempt (map_err StorageBlob (send \<lparr>rq_method = DELETE, rq_url = blob_url store path,
         rq_headers = blob_headers token, rq_body = NoBody\<rparr>)) (\<lambda>response.
       if is_success (rs_status response) \<or> rs_status response = 404 then succeed ()
       else fail (StorageBlob (''delete failed with '' @ rs_shown response))))"

section \<open>The delegation key\<close>

definition pad_int :: "nat \<Rightarrow> int \<Rightarrow> string" where
  "pad_int w i = (if i < 0 then CHR 0x2D # pad (w - 1) (nat (- i)) else pad w (nat i))"

definition iso8601 :: "blob_libs \<Rightarrow> instant \<Rightarrow> string" where
  "iso8601 libs t = (let v = lib_civil libs t in
     pad_int 4 (c_year v) @ ''-'' @ pad 2 (c_month v) @ ''-'' @ pad 2 (c_day v) @ ''T'' @
     pad 2 (c_hour v) @ '':'' @ pad 2 (c_minute v) @ '':'' @ pad 2 (c_second v) @ ''Z'')"

definition element :: "string \<Rightarrow> string \<Rightarrow> string option" where
  "element xml name = (
     let open_tag = ''<'' @ name @ ''>''; close_tag = ''</'' @ name @ ''>''
     in case find_sub open_tag xml of None \<Rightarrow> None
        | Some i \<Rightarrow> let start = i + length open_tag
                    in case find_sub close_tag (drop start xml) of None \<Rightarrow> None
                       | Some n \<Rightarrow> Some (trim (take n (drop start xml))))"

definition key_field :: "string \<Rightarrow> string \<Rightarrow> storage_error + string" where
  "key_field xml name = (case element xml name of
     None \<Rightarrow> Inl (StorageBlob (''delegation key response had no <'' @ name @ ''>''))
   | Some s \<Rightarrow> Inr s)"

definition parse_delegation_key ::
  "blob_libs \<Rightarrow> string \<Rightarrow> instant \<Rightarrow> ('w, storage_error, delegation_key) action" where
  "parse_delegation_key libs xml fallback_expiry =
     attempt (of_result (key_field xml ''SignedExpiry'')) (\<lambda>expiry.
       let expires = (case lib_parse_iso libs expiry of Some t \<Rightarrow> t | None \<Rightarrow> fallback_expiry) in
     attempt (of_result (key_field xml ''Value'')) (\<lambda>encoded.
     attempt (map_err (\<lambda>e. StorageBlob (''delegation key was not base64: '' @ e)) (of_result (lib_unbase64 libs encoded))) (\<lambda>bytes.
     attempt (of_result (key_field xml ''SignedOid'')) (\<lambda>oid.
     attempt (of_result (key_field xml ''SignedTid'')) (\<lambda>tid.
     attempt (of_result (key_field xml ''SignedStart'')) (\<lambda>start.
     attempt (of_result (key_field xml ''SignedService'')) (\<lambda>service.
     attempt (of_result (key_field xml ''SignedVersion'')) (\<lambda>version.
       succeed \<lparr>signed_oid = oid, signed_tid = tid, signed_start = start, signed_expiry = expiry,
                signed_service = service, signed_version = version, key_value = bytes, expires_at = expires\<rparr>))))))))"

definition fetch_delegation_key ::
  "blob_libs \<Rightarrow> ('w \<Rightarrow> instant) \<Rightarrow> blob_store \<Rightarrow> ('w, string) net \<Rightarrow> (http_request \<Rightarrow> ('w, http_response) net) \<Rightarrow>
   ('w, storage_error, delegation_key) action" where
  "fetch_delegation_key libs clock store get_token send w = (
     let start = clock w; expiry = start + DELEGATION_KEY_TTL;
         body = ''<?xml version=\"1.0\" encoding=\"utf-8\"?><KeyInfo><Start>'' @ iso8601 libs start @
           ''</Start><Expiry>'' @ iso8601 libs expiry @ ''</Expiry></KeyInfo>''
     in attempt (blob_token get_token) (\<lambda>token.
        attempt (map_err StorageBlob (send \<lparr>rq_method = POST,
            rq_url = blob_endpoint store @ ''/?restype=service&comp=userdelegationkey'',
            rq_headers = blob_headers token @ [(''content-type'', ''application/xml'')],
            rq_body = BytesBody body\<rparr>)) (\<lambda>response.
          if \<not> is_success (rs_status response)
          then fail (StorageBlob (''could not get a user delegation key ('' @ rs_shown response @ ''): '' @
                 take_chars 300 (rs_body response)))
          else parse_delegation_key libs (rs_body response) expiry)) w)"

text \<open>
  The cache, held beside the environment: first under the read lock, then, when that misses, again
  under the write lock.
\<close>

definition refresh_delegation_key ::
  "('w \<Rightarrow> instant) \<Rightarrow> ('w, storage_error, delegation_key) action \<Rightarrow>
   (delegation_key option \<times> 'w, storage_error, delegation_key) action" where
  "refresh_delegation_key clock fetch cw = (let (c, w) = cw in
     if (case c of Some key \<Rightarrow> \<not> key_is_stale (clock w) key | None \<Rightarrow> False) then (Inr (the c), (c, w))
     else (case fetch w of (Inl e, w') \<Rightarrow> (Inl e, (c, w')) | (Inr fresh, w') \<Rightarrow> (Inr fresh, (Some fresh, w'))))"

definition blob_delegation_key ::
  "('w \<Rightarrow> instant) \<Rightarrow> ('w, storage_error, delegation_key) action \<Rightarrow>
   (delegation_key option \<times> 'w, storage_error, delegation_key) action" where
  "blob_delegation_key clock fetch cw = (let (c, w) = cw in
     if (case c of Some key \<Rightarrow> \<not> key_is_stale (clock w) key | None \<Rightarrow> False) then (Inr (the c), (c, w))
     else refresh_delegation_key clock fetch (c, w))"

section \<open>Read links\<close>

definition sign :: "blob_libs \<Rightarrow> string \<Rightarrow> string \<Rightarrow> storage_error + string" where
  "sign libs key string_to_sign = (case lib_hmac_sha256 libs key string_to_sign of
     Inl e \<Rightarrow> Inl (StorageBlob (''invalid delegation key: '' @ e))
   | Inr mac \<Rightarrow> Inr (lib_base64 libs mac))"

definition encode :: "string \<Rightarrow> string" where
  "encode value = concat (map (\<lambda>b.
     if (65 \<le> byte b \<and> byte b \<le> 90) \<or> (97 \<le> byte b \<and> byte b \<le> 122) \<or> (48 \<le> byte b \<and> byte b \<le> 57) \<or>
        b \<in> {CHR 0x2D, CHR 0x5F, CHR 0x2E, CHR 0x7E}
     then [b] else percent_byte b) value)"

definition sanitise_file_name :: "blob_libs \<Rightarrow> string \<Rightarrow> string" where
  "sanitise_file_name libs name = (
     let cleaned = concat (take 100 (filter (\<lambda>c.
           is_alphanumeric (lib_alphanumeric libs) c \<or> c \<in> {''-'', ''_'', ''.''}) (chars name)))
     in if cleaned = [] then ''mediagenerator'' else cleaned)"

definition content_disposition :: "blob_libs \<Rightarrow> string option \<Rightarrow> string" where
  "content_disposition libs download_as = (case download_as of None \<Rightarrow> []
     | Some name \<Rightarrow> ''attachment; filename='' @ [CHR 0x22] @ sanitise_file_name libs name @ [CHR 0x22])"

text \<open>The 24 fields of the string to sign, in the order of the specification.\<close>

definition sas_fields :: "blob_store \<Rightarrow> string \<Rightarrow> delegation_key \<Rightarrow> string \<Rightarrow> string \<Rightarrow> string \<Rightarrow> string list" where
  "sas_fields store path key start expiry disposition =
     [''r'', start, expiry, ''/blob/'' @ bs_account store @ ''/'' @ bs_container store @ ''/'' @ path,
      signed_oid key, signed_tid key, signed_start key, signed_expiry key, signed_service key, signed_version key,
      [], [], [], [], [], API_VERSION, ''b'', [], [], [], disposition, [], [], []]"

definition sas_query :: "delegation_key \<Rightarrow> string \<Rightarrow> string \<Rightarrow> string \<Rightarrow> string \<Rightarrow> (string \<times> string) list" where
  "sas_query key start expiry signature disposition =
     [(''sv'', API_VERSION), (''sr'', ''b''), (''st'', start), (''se'', expiry), (''sp'', ''r''),
      (''skoid'', signed_oid key), (''sktid'', signed_tid key), (''skt'', signed_start key), (''ske'', signed_expiry key),
      (''sks'', signed_service key), (''skv'', signed_version key), (''sig'', signature)] @
     (if disposition \<noteq> [] then [(''rscd'', disposition)] else [])"

definition read_url_with ::
  "blob_libs \<Rightarrow> blob_store \<Rightarrow> delegation_key \<Rightarrow> instant \<Rightarrow> instant \<Rightarrow> string \<Rightarrow> nat \<Rightarrow> string option \<Rightarrow> storage_error + string" where
  "read_url_with libs store key now now' path ttl_secs download_as = (
     let start = iso8601 libs (now - START_SKEW);
         expiry = iso8601 libs (now' + seconds (sint (of_nat ttl_secs :: 64 word)));
         disposition = content_disposition libs download_as
     in case sign libs (key_value key) (join [LF] (sas_fields store path key start expiry disposition)) of
          Inl e \<Rightarrow> Inl e
        | Inr signature \<Rightarrow> Inr (blob_url store path @ ''?'' @
            join ''&'' (map (\<lambda>(name, value). name @ ''='' @ encode value) (sas_query key start expiry signature disposition))))"

definition read_url ::
  "blob_libs \<Rightarrow> ('w \<Rightarrow> instant) \<Rightarrow> blob_store \<Rightarrow> ('w, string) net \<Rightarrow> (http_request \<Rightarrow> ('w, http_response) net) \<Rightarrow>
   string \<Rightarrow> nat \<Rightarrow> string option \<Rightarrow> (delegation_key option \<times> 'w, storage_error, string) action" where
  "read_url libs clock store get_token send path ttl_secs download_as =
     attempt (blob_delegation_key clock (fetch_delegation_key libs clock store get_token send)) (\<lambda>key (c, w).
       (read_url_with libs store key (clock w) (clock w) path ttl_secs download_as, (c, w)))"

section \<open>The cache of the delegation key\<close>

lemma key_stale_mono: "key_is_stale t key \<Longrightarrow> t \<le> t' \<Longrightarrow> key_is_stale t' key"
  by (simp add: key_is_stale_def)

text \<open>
  The service grants what it is asked for: a key requested at \<open>t\<close> lives six hours, less the
  part of a second that the request drops when it formats the time.
\<close>

definition key_granted :: "instant \<Rightarrow> delegation_key \<Rightarrow> bool" where
  "key_granted t key \<longleftrightarrow> t + DELEGATION_KEY_TTL - seconds 1 < expires_at key"

definition key_lifetime :: duration where
  "key_lifetime = DELEGATION_KEY_TTL - DELEGATION_KEY_SKEW - seconds 1"

interpretation delegation_keys: ttl_cache key_is_stale key_granted key_lifetime blob_delegation_key
proof
  fix t t' key assume "key_granted t key" and "t' < t + key_lifetime"
  then show "\<not> key_is_stale t' key" by (simp add: key_granted_def key_lifetime_def key_is_stale_def)
next
  fix clock :: "'w \<Rightarrow> instant" and w key and fetch :: "('w, storage_error, delegation_key) action"
  assume "\<not> key_is_stale (clock w) key"
  then show "blob_delegation_key clock fetch (Some key, w) = (Inr key, Some key, w)"
    by (simp add: blob_delegation_key_def)
next
  fix clock :: "'w \<Rightarrow> instant" and w c and fetch :: "('w, storage_error, delegation_key) action"
  assume "\<not> usable key_is_stale (clock w) c"
  then show "blob_delegation_key clock fetch (c, w) = (case fetch w of
      (Inl e, w') \<Rightarrow> (Inl e, c, w') | (Inr v, w') \<Rightarrow> (Inr v, Some v, w'))"
    by (auto simp: blob_delegation_key_def refresh_delegation_key_def usable_def split: option.splits)
qed (rule key_stale_mono)

section \<open>What the link carries\<close>

lemma encode_eq [simp]: "encode s = percent_encoded s"
  by (auto simp: encode_def percent_encoded_def unreserved_def ascii_alphanumeric_def ascii_digit_def ascii_alpha_def
      intro!: arg_cong [where f = concat] map_cong)

lemma sanitise_file_name_chars:
  assumes "utf8_valid name"
  shows "utf8_valid (sanitise_file_name libs name)"
    and "sanitise_file_name libs name \<noteq> []"
    and "length (chars (sanitise_file_name libs name)) \<le> 100"
    and "\<forall>c \<in> set (chars (sanitise_file_name libs name)).
           is_alphanumeric (lib_alphanumeric libs) c \<or> c \<in> {''-'', ''_'', ''.''}"
proof -
  define ok where "ok = (\<lambda>c. is_alphanumeric (lib_alphanumeric libs) c \<or> c \<in> {''-'', ''_'', ''.''})"
  define kept where "kept = take 100 (filter ok (chars name))"
  have wf: "list_all wf_char kept"
    using assms by (auto simp: kept_def utf8_valid_def list_all_iff dest!: in_set_takeD)
  have all_ok: "\<forall>c \<in> set kept. ok c" by (auto simp: kept_def dest!: in_set_takeD)
  have short: "length kept \<le> 100" by (simp add: kept_def)
  have fallback: "chars ''mediagenerator'' = map (\<lambda>b. [b]) ''mediagenerator''" by code_simp
  have sane: "sanitise_file_name libs name = (if concat kept = [] then ''mediagenerator'' else concat kept)"
    by (simp only: sanitise_file_name_def kept_def ok_def Let_def)
  have "utf8_valid (sanitise_file_name libs name) \<and> sanitise_file_name libs name \<noteq> [] \<and>
    length (chars (sanitise_file_name libs name)) \<le> 100 \<and> (\<forall>c \<in> set (chars (sanitise_file_name libs name)). ok c)"
  proof (cases "concat kept = []")
    case True
    have "utf8_valid ''mediagenerator''" by (simp only: utf8_valid_def fallback) (simp add: list_all_iff)
    then show ?thesis unfolding sane if_P [OF True] fallback
      by (simp add: ok_def is_alphanumeric_def ascii_alphanumeric_def ascii_alpha_def)
  next
    case False
    with all_ok short show ?thesis
      unfolding sane if_not_P [OF False] chars_concat [OF wf] using utf8_valid_concat [OF wf] by blast
  qed
  then show "utf8_valid (sanitise_file_name libs name)" "sanitise_file_name libs name \<noteq> []"
    "length (chars (sanitise_file_name libs name)) \<le> 100" "\<forall>c \<in> set (chars (sanitise_file_name libs name)).
           is_alphanumeric (lib_alphanumeric libs) c \<or> c \<in> {''-'', ''_'', ''.''}"
    unfolding ok_def by blast+
qed

text \<open>Neither a quote nor a control character can appear, so the header value stays in one piece.\<close>

lemma sanitise_file_name_safe:
  assumes "utf8_valid name" and "b \<in> set (sanitise_file_name libs name)" and "byte b < 128"
  shows "ascii_alphanumeric b \<or> b \<in> {CHR 0x2D, CHR 0x5F, CHR 0x2E}"
  using sanitise_file_name_chars(4) [OF assms(1), of libs]
    ascii_byte_is_char [OF sanitise_file_name_chars(1) [OF assms(1)] assms(3), of libs] assms(2)
  by (auto simp: is_alphanumeric_def)

section \<open>Reading the key response\<close>

text \<open>A document of elements without attributes, white space between them.\<close>

fun render_elements :: "(string \<times> string \<times> string) list \<Rightarrow> string" where
  "render_elements [] = []"
| "render_elements ((space, tag, content) # es) =
     space @ ''<'' @ tag @ ''>'' @ content @ ''</'' @ tag @ ''>'' @ render_elements es"

definition plain_name :: "string \<Rightarrow> bool" where
  "plain_name tag \<longleftrightarrow> list_all ascii_alpha tag"

definition plain_elements :: "(string \<times> string \<times> string) list \<Rightarrow> bool" where
  "plain_elements es \<longleftrightarrow> (\<forall>(space, tag, content) \<in> set es.
     CHR ''<'' \<notin> set space \<and> plain_name tag \<and> CHR ''<'' \<notin> set content)"

lemma find_sub_skip:
  "x \<notin> set s \<Longrightarrow> find_sub (x # p) (s @ t) = map_option (\<lambda>i. length s + i) (find_sub (x # p) t)"
proof (induction s)
  case (Cons a s)
  have "\<not> starts_with (x # p) (a # s @ t)" using Cons.prems by (auto simp: starts_with_def)
  then show ?case
    using Cons by (simp add: find_sub.simps [of "x # p" "a # s @ t"] option.map_comp comp_def)
next
  case Nil
  show ?case by (cases "find_sub (x # p) t") simp_all
qed

lemma find_sub_here: "find_sub p (p @ t) = Some 0"
  by (simp add: find_sub.simps [of p "p @ t"])

lemma append_delimiter_eq:
  "x \<notin> set s \<Longrightarrow> x \<notin> set t \<Longrightarrow> s @ x # u = t @ x # v \<longleftrightarrow> s = t \<and> u = v"
proof (induction s arbitrary: t)
  case Nil
  then show ?case by (cases t) auto
next
  case (Cons a s)
  then show ?case by (cases t) auto
qed

lemma plain_name_no: "plain_name tag \<Longrightarrow> \<not> ascii_alpha c \<Longrightarrow> c \<notin> set tag"
  by (auto simp: plain_name_def list_all_iff)

lemma tag_chars: "\<not> ascii_alpha CHR ''<''" "\<not> ascii_alpha CHR ''>''" "\<not> ascii_alpha CHR ''/''"
  by (simp_all add: ascii_alpha_def)

lemma find_sub_other_tag:
  assumes "CHR ''<'' \<notin> set r" and "\<not> starts_with p (r @ t)"
  shows "find_sub (CHR ''<'' # p) (CHR ''<'' # r @ t) = map_option (\<lambda>i. Suc (length r + i)) (find_sub (CHR ''<'' # p) t)"
proof -
  have "\<not> starts_with (CHR ''<'' # p) (CHR ''<'' # r @ t)" using assms(2) by (simp add: starts_with_def)
  then show ?thesis
    using find_sub_skip [OF assms(1), of p t]
    by (simp add: find_sub.simps [of "CHR ''<'' # p" "CHR ''<'' # r @ t"] option.map_comp comp_def)
qed

lemma starts_with_tag:
  assumes "plain_name name" and "plain_name tag"
  shows "starts_with (name @ ''>'') (tag @ ''>'' @ t) \<longleftrightarrow> name = tag"
  using append_delimiter_eq [OF plain_name_no [OF assms(2) tag_chars(2)] plain_name_no [OF assms(1) tag_chars(2)]]
  by (auto simp: starts_with_iff)

lemma not_starts_with_close:
  assumes "plain_name name"
  shows "\<not> starts_with (name @ ''>'') (CHR ''/'' # t)"
proof -
  have "hd (name @ ''>'') \<noteq> CHR ''/''"
    using plain_name_no [OF assms tag_chars(3)] by (cases name) auto
  then show ?thesis by (cases name) (auto simp: starts_with_def)
qed

lemma find_open_tag:
  assumes "plain_elements ((space, tag, content) # es)" and "plain_name name" and "tag \<noteq> name"
  shows "find_sub (''<'' @ name @ ''>'') (render_elements ((space, tag, content) # es)) =
    map_option (\<lambda>i. length (space @ ''<'' @ tag @ ''>'' @ content @ ''</'' @ tag @ ''>'') + i)
      (find_sub (''<'' @ name @ ''>'') (render_elements es))"
proof -
  have no: "CHR ''<'' \<notin> set space" "CHR ''<'' \<notin> set (tag @ ''>'' @ content)" "CHR ''<'' \<notin> set (''/'' @ tag @ ''>'')"
    and tag: "plain_name tag"
    using assms(1) plain_name_no tag_chars(1) by (auto simp: plain_elements_def)
  have s1: "\<not> starts_with (name @ ''>'') ((tag @ ''>'' @ content) @ t)" for t
    using starts_with_tag [OF assms(2) tag, of "content @ t"] assms(3) by simp
  have s2: "\<not> starts_with (name @ ''>'') ((''/'' @ tag @ ''>'') @ t)" for t
    using not_starts_with_close [OF assms(2)] by simp
  show ?thesis
    using find_sub_skip [OF no(1), of "name @ ''>''" "''<'' @ tag @ ''>'' @ content @ ''</'' @ tag @ ''>'' @ render_elements es"]
      find_sub_other_tag [OF no(2) s1, of "''</'' @ tag @ ''>'' @ render_elements es"]
      find_sub_other_tag [OF no(3) s2, of "render_elements es"]
    by (simp add: option.map_comp comp_def add.assoc)
qed

lemma element_render_Cons:
  assumes "plain_elements ((space, tag, content) # es)" and "plain_name name"
  shows "element (render_elements ((space, tag, content) # es)) name =
    (if tag = name then Some (trim content) else element (render_elements es) name)"
proof (cases "tag = name")
  case True
  have no: "CHR ''<'' \<notin> set space" "CHR ''<'' \<notin> set content" using assms(1) by (auto simp: plain_elements_def)
  have open_at: "find_sub (''<'' @ name @ ''>'') (render_elements ((space, tag, content) # es)) = Some (length space)"
    using find_sub_skip [OF no(1), of "name @ ''>''" "(''<'' @ name @ ''>'') @ content @ ''</'' @ tag @ ''>'' @ render_elements es"]
      find_sub_here [of "''<'' @ name @ ''>''" "content @ ''</'' @ tag @ ''>'' @ render_elements es"] True
    by simp
  have close_at: "find_sub (''</'' @ name @ ''>'') (content @ ''</'' @ name @ ''>'' @ render_elements es) = Some (length content)"
    using find_sub_skip [OF no(2), of "''/'' @ name @ ''>''" "(''</'' @ name @ ''>'') @ render_elements es"]
      find_sub_here [of "''</'' @ name @ ''>''" "render_elements es"] by simp
  show ?thesis
    unfolding element_def Let_def open_at using close_at True by simp
next
  case False
  define pre where "pre = space @ ''<'' @ tag @ ''>'' @ content @ ''</'' @ tag @ ''>''"
  have doc: "render_elements ((space, tag, content) # es) = pre @ render_elements es" by (simp add: pre_def)
  have at: "drop (length pre + i + k) (pre @ t) = drop (i + k) t" for i k and t :: string
    by (simp add: add.assoc)
  note open_at = find_open_tag [OF assms(1,2) False, folded pre_def, unfolded doc]
  show ?thesis
    unfolding element_def Let_def doc open_at using False
    by (cases "find_sub (''<'' @ name @ ''>'') (render_elements es)") (simp_all only: option.map option.case at if_False)
qed

lemma element_render_Nil: "element (render_elements []) name = None"
  by (simp add: element_def find_sub.simps [of _ "[]"] starts_with_def)

lemma element_render:
  assumes "plain_elements es" and "plain_name name"
  shows "element (render_elements es) name = map_option trim (map_of (map snd es) name)"
  using assms(1)
proof (induction es)
  case (Cons e es)
  obtain space tag content where e: "e = (space, tag, content)" by (cases e)
  have "plain_elements es" using Cons.prems by (simp add: plain_elements_def)
  with Cons e show ?case using element_render_Cons [OF _ assms(2), of space tag content es] by auto
qed (simp add: element_render_Nil [simplified])

text \<open>The document the service answers with, white space included.\<close>

definition key_document :: "blob_libs \<Rightarrow> string \<Rightarrow> delegation_key \<Rightarrow> (string \<times> string \<times> string) list" where
  "key_document libs space key = [
     (space, ''SignedOid'', signed_oid key), (space, ''SignedTid'', signed_tid key),
     (space, ''SignedStart'', signed_start key), (space, ''SignedExpiry'', signed_expiry key),
     (space, ''SignedService'', signed_service key), (space, ''SignedVersion'', signed_version key),
     (space, ''Value'', lib_base64 libs (key_value key))]"

section \<open>Properties of the blob store\<close>


definition sample_libs :: blob_libs where
  "sample_libs = \<lparr>lib_civil = (\<lambda>t. \<lparr>c_year = 2026, c_month = 9, c_day = 16, c_hour = 12, c_minute = 0, c_second = 0\<rparr>),
     lib_parse_iso = (\<lambda>s. Some 0), lib_hmac_sha256 = (\<lambda>k m. Inr k), lib_base64 = (\<lambda>s. s @ ''+/=''),
     lib_unbase64 = (\<lambda>s. Inr (take (length s - 3) s)), lib_alphanumeric = (\<lambda>c. False)\<rparr>"

definition sample_store :: blob_store where
  "sample_store = \<lparr>bs_account = ''konto'', bs_container = ''media''\<rparr>"

definition sample_key :: delegation_key where
  "sample_key = \<lparr>signed_oid = ''o'', signed_tid = ''t'', signed_start = ''s'', signed_expiry = ''2026-09-16T18:00:00Z'',
     signed_service = ''b'', signed_version = ''2025-05-05'', key_value = ''pass'', expires_at = 0\<rparr>"


text \<open>
  C30: no download name can break the header it is put in: between the two quotes stand 1 to 100
  characters, and every ASCII byte among them is a letter, a digit, a hyphen, an underscore or a dot
  (no quote, no line break, no path separator).
\<close>

theorem download_name_is_contained:
  assumes "utf8_valid name"
  shows "\<exists>n. content_disposition libs (Some name) = ''attachment; filename='' @ [CHR 0x22] @ n @ [CHR 0x22] \<and>
    n \<noteq> [] \<and> length (chars n) \<le> 100 \<and> utf8_valid n \<and>
    (\<forall>b \<in> set n. byte b < 128 \<longrightarrow> ascii_alphanumeric b \<or> b \<in> {CHR 0x2D, CHR 0x5F, CHR 0x2E})"
  using sanitise_file_name_chars [OF assms, of libs] sanitise_file_name_safe [OF assms, of _ libs]
  by (auto simp: content_disposition_def)

theorem download_name_is_contained_witness:
  "content_disposition sample_libs (Some ''../a.png'') = ''attachment; filename='' @ [CHR 0x22] @ ''..a.png'' @ [CHR 0x22] \<and>
   list_all (\<lambda>b. byte b < 128 \<longrightarrow> ascii_alphanumeric b \<or> b \<in> {CHR 0x2D, CHR 0x5F, CHR 0x2E}) ''..a.png''"
proof -
  have v: "utf8_valid ''../a.png''" by code_simp
  have e: "content_disposition sample_libs (Some ''../a.png'') = ''attachment; filename='' @ [CHR 0x22] @ ''..a.png'' @ [CHR 0x22]"
    by code_simp
  from download_name_is_contained [OF v, of sample_libs] show ?thesis unfolding e list_all_iff by auto
qed

text \<open>
  The delegation key the service sends is read back field by field, with the expiry it states,
  whatever white space surrounds the elements.
\<close>

theorem delegation_key_round_trip:
  assumes "CHR ''<'' \<notin> set space"
    and "\<forall>f \<in> {signed_oid key, signed_tid key, signed_start key, signed_expiry key, signed_service key,
              signed_version key, lib_base64 libs (key_value key)}. CHR ''<'' \<notin> set f \<and> trim f = f"
    and "lib_unbase64 libs (lib_base64 libs (key_value key)) = Inr (key_value key)"
    and "lib_parse_iso libs (signed_expiry key) = Some (expires_at key)"
  shows "parse_delegation_key libs (render_elements (key_document libs space key)) fallback w = (Inr key, w)"
proof -
  have plain: "plain_elements (key_document libs space key)"
    using assms(1,2) by (simp add: plain_elements_def key_document_def plain_name_def ascii_alpha_def)
  define xml where "xml = render_elements (key_document libs space key)"
  have field: "key_field xml name = Inr f"
    if "plain_name name" "map_of (map snd (key_document libs space key)) name = Some f" "trim f = f" for name f
    using element_render [OF plain that(1)] that(2,3) by (simp add: key_field_def xml_def)
  have fields: "key_field xml ''SignedExpiry'' = Inr (signed_expiry key)"
    "key_field xml ''Value'' = Inr (lib_base64 libs (key_value key))"
    "key_field xml ''SignedOid'' = Inr (signed_oid key)" "key_field xml ''SignedTid'' = Inr (signed_tid key)"
    "key_field xml ''SignedStart'' = Inr (signed_start key)" "key_field xml ''SignedService'' = Inr (signed_service key)"
    "key_field xml ''SignedVersion'' = Inr (signed_version key)"
    by (rule field; use assms(2) in \<open>simp add: plain_name_def ascii_alpha_def key_document_def\<close>)+
  show ?thesis
    unfolding xml_def [symmetric] using assms(3,4)
    by (simp add: parse_delegation_key_def fields action_defs)
qed

theorem delegation_key_round_trip_witness:
  "parse_delegation_key sample_libs (render_elements (key_document sample_libs [LF] sample_key)) 5 () = (Inr sample_key, ())"
proof (rule delegation_key_round_trip)
  show "\<forall>f \<in> {signed_oid sample_key, signed_tid sample_key, signed_start sample_key, signed_expiry sample_key,
      signed_service sample_key, signed_version sample_key, lib_base64 sample_libs (key_value sample_key)}.
      CHR ''<'' \<notin> set f \<and> trim f = f" by code_simp
qed (simp_all add: sample_libs_def sample_key_def)





text \<open>
  The lifetime of a link is not capped by that of the key it is signed with. At the default of 60
  minutes, a key with half an hour left is still used, and the link stops working with the key.
\<close>

lemma link_can_outlive_key:
  assumes "expires_at key = clock w + seconds 1800"
  shows "blob_delegation_key clock fetch (Some key, w) = (Inr key, (Some key, w)) \<and>
    expires_at key < clock w + seconds (60 * 60)"
  using assms by (simp add: blob_delegation_key_def key_is_stale_def DELEGATION_KEY_SKEW_def duration_defs)

end
