(* ===== verification/Settings.thy ===== *)
theory Settings
  imports Oidc Client Blob
begin

text \<open>
  The web crate's configuration (\<open>config.rs\<close>), its error type (\<open>error.rs\<close>) and the policy of the
  session cookie (\<open>session.rs\<close>).
\<close>

section \<open>Configuration\<close>

datatype environment = Development | Production

definition is_production :: "environment \<Rightarrow> bool" where
  "is_production e \<longleftrightarrow> e = Production"

datatype session_store = PostgresStore | MemoryStore

text \<open>A \<open>Secret\<close> wraps a string so that it is not printed; it is the string here.\<close>

record app_config =
  cf_app_base_url :: string
  cf_app_port :: "16 word"
  cf_app_env :: environment
  cf_rust_log :: string
  cf_assets_dir :: string
  cf_database_url :: string
  cf_session_secret :: string
  cf_session_store :: session_store
  cf_azure_tenant_id :: string
  cf_azure_client_id :: string
  cf_azure_client_secret :: "string option"
  cf_oidc_redirect_uri :: string
  cf_required_app_role :: "string option"
  cf_azure_openai_endpoint :: string
  cf_azure_openai_api_version :: string
  cf_image_deployment :: string
  cf_audio_deployment :: string
  cf_video_deployment :: string
  cf_azure_openai_api_key :: "string option"
  cf_azure_storage_account :: string
  cf_azure_storage_container :: string
  cf_sas_ttl_minutes :: "64 word"
  cf_max_prompt_chars :: nat
  cf_rate_limit_per_hour :: "32 word"
  cf_retention_days :: "32 word"

datatype config_error = ConfigRead string | ConfigInvalid string

definition MIN_SESSION_SECRET_LEN :: nat where "MIN_SESSION_SECRET_LEN = 64"

definition config_validate :: "app_config \<Rightarrow> config_error + unit" where
  "config_validate c =
     (if length (cf_session_secret c) < MIN_SESSION_SECRET_LEN then
        Inl (ConfigInvalid (''SESSION_SECRET must be at least '' @ dec MIN_SESSION_SECRET_LEN @ '' bytes''))
      else if ends_with ''/'' (cf_app_base_url c) then
        Inl (ConfigInvalid ''APP_BASE_URL must not end with a trailing slash'')
      else if ends_with ''/'' (cf_azure_openai_endpoint c) then
        Inl (ConfigInvalid ''AZURE_OPENAI_ENDPOINT must not end with a trailing slash'')
      else if cf_max_prompt_chars c = 0 then
        Inl (ConfigInvalid ''MAX_PROMPT_CHARS must be greater than zero'')
      else if is_production (cf_app_env c) \<and> cf_azure_openai_api_key c \<noteq> None then
        Inl (ConfigInvalid ''AZURE_OPENAI_API_KEY is only allowed outside production; use Managed Identity'')
      else if is_production (cf_app_env c) \<and> cf_session_store c = MemoryStore then
        Inl (ConfigInvalid (''SESSION_STORE=memory is not allowed in production; sessions would be lost on '' @
          ''restart and unshared between replicas''))
      else if \<not> starts_with (cf_app_base_url c) (cf_oidc_redirect_uri c) then
        Inl (ConfigInvalid ''OIDC_REDIRECT_URI must live under APP_BASE_URL'')
      else Inr ())"

text \<open>
  The defaults the environment is merged over, in the order of the code; \<open>figment\<close> is the merge
  with the environment and the deserialisation of the crate of that name.
\<close>

definition config_defaults :: "(string \<times> json) list" where
  "config_defaults = [(''app_port'', JNum 8080), (''app_env'', JStr ''development''), (''rust_log'', JStr ''info''),
     (''assets_dir'', JStr ''assets''), (''sas_ttl_minutes'', JNum 60), (''max_prompt_chars'', JNum 4000),
     (''rate_limit_per_hour'', JNum 20), (''retention_days'', JNum 90), (''azure_storage_container'', JStr ''media''),
     (''session_store'', JStr ''postgres'')]"

definition from_env :: "((string \<times> json) list \<Rightarrow> string + app_config) \<Rightarrow> config_error + app_config" where
  "from_env figment = and_then (map_sum ConfigRead id (figment config_defaults)) (\<lambda>config.
     and_then (config_validate config) (\<lambda>_. Inr config))"

definition config_oidc :: "app_config \<Rightarrow> oidc_config" where
  "config_oidc c = \<lparr>oc_tenant_id = cf_azure_tenant_id c, oc_client_id = cf_azure_client_id c,
     oc_client_secret = cf_azure_client_secret c, oc_redirect_uri = cf_oidc_redirect_uri c,
     oc_post_logout_redirect_uri = cf_app_base_url c @ ''/'', oc_required_app_role = cf_required_app_role c\<rparr>"

definition config_required_app_role :: "app_config \<Rightarrow> string option" where
  "config_required_app_role c = non_blank (cf_required_app_role c)"

definition config_providers :: "app_config \<Rightarrow> provider_config" where
  "config_providers c = \<lparr>pc_endpoint = cf_azure_openai_endpoint c, pc_api_version = cf_azure_openai_api_version c,
     pc_image_deployment = cf_image_deployment c, pc_audio_deployment = cf_audio_deployment c,
     pc_video_deployment = cf_video_deployment c, pc_tenant_id = cf_azure_tenant_id c,
     pc_client_id = cf_azure_client_id c, pc_client_secret = None, pc_api_key = cf_azure_openai_api_key c\<rparr>"

text \<open>In whole seconds; the product wraps at 64 bits.\<close>

definition sas_ttl :: "app_config \<Rightarrow> nat" where
  "sas_ttl c = unat (cf_sas_ttl_minutes c * 60)"

section \<open>The session layer\<close>

definition COOKIE_NAME :: string where "COOKIE_NAME = ''mediagenerator.sid''"
definition INACTIVITY_TIMEOUT :: duration where "INACTIVITY_TIMEOUT = seconds (8 * 3600)"
definition MIN_KEY_LEN :: nat where "MIN_KEY_LEN = 64"

datatype session_error = KeyTooShort nat nat

datatype same_site = Lax | Strict | SameSiteNone

record 'k session_layer =
  sy_name :: string
  sy_path :: string
  sy_http_only :: bool
  sy_same_site :: same_site
  sy_secure :: bool
  sy_inactivity :: duration
  sy_key :: 'k

text \<open>\<open>make_key\<close> is \<open>Key::try_from\<close> of the \<open>cookie\<close> crate.\<close>

definition session_layer_new :: "(string \<Rightarrow> 'k option) \<Rightarrow> app_config \<Rightarrow> session_error + 'k session_layer" where
  "session_layer_new make_key c = (let secret = cf_session_secret c in
     if length secret < MIN_KEY_LEN then Inl (KeyTooShort MIN_KEY_LEN (length secret))
     else (case make_key secret of
       None \<Rightarrow> Inl (KeyTooShort MIN_KEY_LEN (length secret))
     | Some key \<Rightarrow> Inr \<lparr>sy_name = COOKIE_NAME, sy_path = ''/'', sy_http_only = True, sy_same_site = Lax,
         sy_secure = (cf_app_env c = Production), sy_inactivity = INACTIVITY_TIMEOUT, sy_key = key\<rparr>))"

section \<open>Errors of handlers\<close>

text \<open>What an internal error wraps is for the log only.\<close>

datatype internal_cause =
    CauseAuth auth_error
  | CauseStorage storage_error
  | CauseSession session_failure
  | CauseTemplate string

datatype app_error =
    AppValidation string
  | AppUnauthenticated
  | AppForbidden
  | AppNotFound
  | AppRateLimited
  | AppCsrf
  | AppInternal internal_cause

fun app_error_code :: "app_error \<Rightarrow> error_code" where
  "app_error_code (AppValidation _) = Validation"
| "app_error_code AppUnauthenticated = Unauthenticated"
| "app_error_code AppForbidden = Forbidden"
| "app_error_code AppNotFound = NotFound"
| "app_error_code AppRateLimited = RateLimited"
| "app_error_code AppCsrf = Validation"
| "app_error_code (AppInternal _) = Internal"

fun app_error_status :: "app_error \<Rightarrow> nat" where
  "app_error_status (AppValidation _) = 400"
| "app_error_status AppUnauthenticated = 401"
| "app_error_status AppForbidden = 403"
| "app_error_status AppNotFound = 404"
| "app_error_status AppRateLimited = 429"
| "app_error_status AppCsrf = 403"
| "app_error_status (AppInternal _) = 500"

fun app_user_message :: "app_error \<Rightarrow> string" where
  "app_user_message (AppValidation message) = message"
| "app_user_message AppUnauthenticated = ERR_UNAUTHENTICATED"
| "app_user_message AppForbidden = ERR_FORBIDDEN"
| "app_user_message AppNotFound = ERR_NOT_FOUND"
| "app_user_message AppRateLimited = ERR_RATE_LIMITED"
| "app_user_message AppCsrf = ERR_CSRF"
| "app_user_message (AppInternal _) = ERR_INTERNAL"

fun of_domain_error :: "domain_error \<Rightarrow> app_error" where
  "of_domain_error (DomainValidation message) = AppValidation message"
| "of_domain_error (DomainNotFound _) = AppNotFound"

definition error_body :: "app_error \<Rightarrow> json" where
  "error_body e = JObj [(''code'', JStr (error_code_as_str (app_error_code e))), (''message'', JStr (app_user_message e))]"

definition into_response :: "app_error \<Rightarrow> 'p outgoing" where
  "into_response e = json_response (app_error_status e) (error_body e)"

section \<open>Correctness\<close>

lemma loaded_config:
  assumes "from_env figment = Inr c"
  shows "figment config_defaults = Inr c" and "\<not> length (cf_session_secret c) < 64"
    and "\<not> ends_with ''/'' (cf_app_base_url c)" and "0 < cf_max_prompt_chars c"
    and "starts_with (cf_app_base_url c) (cf_oidc_redirect_uri c)"
    and "cf_app_env c = Production \<Longrightarrow> cf_azure_openai_api_key c = None"
    and "cf_app_env c = Production \<Longrightarrow> cf_session_store c = PostgresStore"
proof -
  show "figment config_defaults = Inr c" and "\<not> length (cf_session_secret c) < 64"
    and "\<not> ends_with ''/'' (cf_app_base_url c)" and "0 < cf_max_prompt_chars c"
    and "starts_with (cf_app_base_url c) (cf_oidc_redirect_uri c)"
    and "cf_app_env c = Production \<Longrightarrow> cf_azure_openai_api_key c = None"
    using assms
    by (auto simp: from_env_def and_then_Inr map_sum_def config_validate_def is_production_def MIN_SESSION_SECRET_LEN_def
        split: sum.splits if_splits)
  show "cf_session_store c = PostgresStore" if "cf_app_env c = Production"
    using assms that
    by (cases "cf_session_store c")
       (auto simp: from_env_def and_then_Inr map_sum_def config_validate_def is_production_def split: sum.splits if_splits)
qed

lemma no_key_credential: "pc_api_key config = None \<Longrightarrow> credentials_new libs var_set config \<noteq> Inr (ApiKeyCredential key)"
  by (auto simp: credentials_new_def split: option.splits sum.splits)

text \<open>
  C36: a configuration that loads is one the program can start with safely. The cookie key is long
  enough for the session layer, the base URL has no trailing slash, prompts of some length are
  allowed; in production cookies are secure, sessions are not kept in memory, and no API key can
  become the credential of the providers, whatever credentials the host offers. The secret of the
  sign-in application is never handed to the providers.
\<close>

theorem loaded_config_is_safe:
  assumes "from_env figment = Inr c"
  shows "figment config_defaults = Inr c \<and>
    (make_key (cf_session_secret c) \<noteq> None \<longrightarrow> (\<exists>layer. session_layer_new make_key c = Inr layer \<and>
       sy_http_only layer \<and> (cf_app_env c = Production \<longrightarrow> sy_secure layer))) \<and>
    \<not> ends_with ''/'' (cf_app_base_url c) \<and> 0 < cf_max_prompt_chars c \<and>
    starts_with (cf_app_base_url c) (oc_redirect_uri (config_oidc c)) \<and>
    pc_client_secret (config_providers c) = None \<and>
    (cf_app_env c = Production \<longrightarrow> cf_session_store c = PostgresStore \<and>
       (\<forall>key. credentials_new libs var_set (config_providers c) \<noteq> Inr (ApiKeyCredential key)))"
  using loaded_config [OF assms] no_key_credential [of "config_providers c"]
  by (auto simp: session_layer_new_def MIN_KEY_LEN_def Let_def config_oidc_def config_providers_def)

definition sample_config :: app_config where
  "sample_config = \<lparr>cf_app_base_url = ''https://m.example.no'', cf_app_port = 8080, cf_app_env = Production,
     cf_rust_log = ''info'', cf_assets_dir = ''assets'', cf_database_url = ''postgres:'',
     cf_session_secret = replicate 64 CHR ''s'', cf_session_store = PostgresStore,
     cf_azure_tenant_id = ''t'', cf_azure_client_id = ''c'', cf_azure_client_secret = Some ''secret'',
     cf_oidc_redirect_uri = ''https://m.example.no/auth/callback'', cf_required_app_role = Some ''User'',
     cf_azure_openai_endpoint = ''https://ai.example.no'', cf_azure_openai_api_version = [],
     cf_image_deployment = ''i'', cf_audio_deployment = ''a'', cf_video_deployment = ''v'',
     cf_azure_openai_api_key = None, cf_azure_storage_account = ''acc'', cf_azure_storage_container = ''media'',
     cf_sas_ttl_minutes = 60, cf_max_prompt_chars = 4000, cf_rate_limit_per_hour = 20, cf_retention_days = 90\<rparr>"

lemma sample_config_loads: "from_env (\<lambda>_. Inr sample_config) = Inr sample_config"
proof -
  have "config_validate sample_config = Inr ()" by code_simp
  then show ?thesis by (simp add: from_env_def)
qed

theorem loaded_config_is_safe_witness:
  "sy_secure (unwrap_or undefined (session_layer_new Some sample_config)) \<and>
   credentials_new \<lparr>make_client_secret = (\<lambda>_ _ _. Inr ()), make_managed_identity = Inr (), make_developer_tools = Inl []\<rparr>
     (\<lambda>_. False) (config_providers sample_config) \<noteq> Inr (ApiKeyCredential ''k'')"
proof -
  have "cf_app_env sample_config = Production" by (simp add: sample_config_def)
  with loaded_config_is_safe [OF sample_config_loads, of Some
      "\<lparr>make_client_secret = (\<lambda>_ _ _. Inr ()), make_managed_identity = Inr (), make_developer_tools = Inl []\<rparr>" "\<lambda>_. False"]
  show ?thesis by (auto simp: unwrap_or_def)
qed


end
