(* ===== verification/Providers.thy ===== *)
theory Providers
  imports Client
begin

text \<open>
  The three generators of media (\<open>crates/providers/src/lib.rs\<close>, \<open>image.rs\<close>, \<open>audio.rs\<close>,
  \<open>video.rs\<close>): how a request becomes a call, how the answer becomes media, and what the worker may
  rely on whichever generator it talks to (the locale \<open>media_provider\<close>).
\<close>

section \<open>Requests, media, jobs\<close>

record reference_image =
  ri_bytes :: string
  ri_content_type :: string
  ri_file_name :: string

record generation_request =
  gr_media_type :: media_type
  gr_prompt :: string
  gr_parameters :: json
  gr_reference :: "reference_image option"
  gr_correlation_id :: string

record generated_media =
  gm_bytes :: string
  gm_content_type :: string
  gm_extension :: string
  gm_width :: "int option"
  gm_height :: "int option"
  gm_duration_ms :: "int option"

record provider_job =
  pj_id :: "string option"
  pj_media :: "generated_media option"

definition immediate :: "generated_media \<Rightarrow> provider_job" where
  "immediate media = \<lparr>pj_id = None, pj_media = Some media\<rparr>"

definition pending :: "string \<Rightarrow> provider_job" where
  "pending i = \<lparr>pj_id = Some i, pj_media = None\<rparr>"

definition is_finished :: "provider_job \<Rightarrow> bool" where
  "is_finished j \<longleftrightarrow> pj_media j \<noteq> None"

datatype poll_status = PollRunning | PollSucceeded generated_media | PollFailed provider_error

text \<open>
  A provider: its configuration, the authentication headers of a request, the network, and the
  libraries that read a body: \<open>pv_read_body\<close> is the download of the body, which may break off,
  \<open>pv_parse_json\<close> and \<open>pv_unbase64\<close> decode it, \<open>pv_mime_ok\<close> is what is accepted as a MIME type.
\<close>

record 'w provider =
  pv_config :: provider_config
  pv_headers :: "'w \<Rightarrow> (provider_error + headers) \<times> 'w"
  pv_net :: "'w net_env"
  pv_read_body :: "http_response \<Rightarrow> string + string"
  pv_parse_json :: "string \<Rightarrow> string + json"
  pv_unbase64 :: "string \<Rightarrow> string + string"
  pv_mime_ok :: "string \<Rightarrow> bool"

section \<open>Reading answers\<close>

text \<open>
  Deserialisation of a struct from an object: a field given twice is an error, a missing or null
  optional field is \<open>None\<close>.
\<close>

definition serde_field :: "string \<Rightarrow> json \<Rightarrow> string + json option" where
  "serde_field k j = (case j of
     JObj kvs \<Rightarrow> (case filter (\<lambda>(n, _). n = k) kvs of
        [] \<Rightarrow> Inr None | [(_, v)] \<Rightarrow> Inr (Some v) | _ \<Rightarrow> Inl (''duplicate field '' @ k))
   | _ \<Rightarrow> Inl ''invalid type: expected struct'')"

definition serde_opt_str :: "string \<Rightarrow> json \<Rightarrow> string + string option" where
  "serde_opt_str k j = and_then (serde_field k j) (\<lambda>f. case f of
     None \<Rightarrow> Inr None | Some JNull \<Rightarrow> Inr None | Some (JStr s) \<Rightarrow> Inr (Some s)
   | Some _ \<Rightarrow> Inl (''invalid type for '' @ k))"

definition serde_str :: "string \<Rightarrow> json \<Rightarrow> string + string" where
  "serde_str k j = and_then (serde_field k j) (\<lambda>f. case f of
     Some (JStr s) \<Rightarrow> Inr s | None \<Rightarrow> Inl (''missing field '' @ k) | Some _ \<Rightarrow> Inl (''invalid type for '' @ k))"

definition response_text :: "'w provider \<Rightarrow> http_response \<Rightarrow> ('v, provider_error, string) action" where
  "response_text p response = map_err ProviderMalformed (of_result (pv_read_body p response))"

definition response_json :: "'w provider \<Rightarrow> (json \<Rightarrow> string + 'a) \<Rightarrow> http_response \<Rightarrow> ('v, provider_error, 'a) action" where
  "response_json p decode response = map_err ProviderMalformed
     (of_result (and_then (pv_read_body p response) (\<lambda>s. and_then (pv_parse_json p s) decode)))"

section \<open>Images\<close>

definition IMAGE_DEFAULT_SIZE :: string where "IMAGE_DEFAULT_SIZE = ''1024x1024''"
definition DEFAULT_QUALITY :: string where "DEFAULT_QUALITY = ''medium''"

record image_data =
  b64_json :: "string option"
  image_url :: "string option"

definition image_data_of :: "json \<Rightarrow> string + image_data" where
  "image_data_of j = and_then (serde_opt_str ''b64_json'' j) (\<lambda>b. and_then (serde_opt_str ''url'' j) (\<lambda>u.
     Inr \<lparr>b64_json = b, image_url = u\<rparr>))"

definition images_response_of :: "json \<Rightarrow> string + image_data list" where
  "images_response_of j = and_then (serde_field ''data'' j) (\<lambda>f. case f of
     Some (JArr xs) \<Rightarrow> traverse image_data_of xs
   | None \<Rightarrow> Inl ''missing field data'' | Some _ \<Rightarrow> Inl ''invalid type for data'')"

definition string_param :: "json \<Rightarrow> string \<Rightarrow> string \<Rightarrow> string" where
  "string_param parameters key dflt = (case json_get key parameters of None \<Rightarrow> dflt
     | Some v \<Rightarrow> (case json_as_str v of None \<Rightarrow> dflt | Some s \<Rightarrow> if s = [] then dflt else s))"

definition parse_size :: "string \<Rightarrow> int option \<times> int option" where
  "parse_size s = (case split_once ''x'' s of
     None \<Rightarrow> (None, None)
   | Some (width, height) \<Rightarrow> (case (parse_signed i32_max width, parse_signed i32_max height) of
       (Some w, Some h) \<Rightarrow> (Some w, Some h) | _ \<Rightarrow> (None, None)))"

definition decode_first_image :: "'w provider \<Rightarrow> http_response \<Rightarrow> ('v, provider_error, string) action" where
  "decode_first_image p response =
     attempt (response_json p images_response_of response) (\<lambda>data.
       case data of
         [] \<Rightarrow> fail (ProviderMalformed ''no image in the response'')
       | first # _ \<Rightarrow> (case b64_json first of
           None \<Rightarrow> fail (ProviderMalformed (if image_url first \<noteq> None
             then ''the deployment returned a URL; expected base64''
             else ''the response carried neither b64_json nor url''))
         | Some encoded \<Rightarrow> map_err (\<lambda>e. ProviderMalformed (''image was not valid base64: '' @ e))
             (of_result (pv_unbase64 p encoded))))"

text \<open>
  The part that carries the reference: when the declared type is not a MIME type, the bytes are sent
  without name or type.
\<close>

definition reference_part :: "'w provider \<Rightarrow> string \<Rightarrow> reference_image \<Rightarrow> form_part" where
  "reference_part p name r = (if pv_mime_ok p (ri_content_type r)
     then \<lparr>part_name = name, part_file_name = Some (ri_file_name r),
           part_content_type = Some (ri_content_type r), part_bytes = ri_bytes r\<rparr>
     else \<lparr>part_name = name, part_file_name = None, part_content_type = None, part_bytes = ri_bytes r\<rparr>)"

definition text_part :: "string \<Rightarrow> string \<Rightarrow> form_part" where
  "text_part name v = \<lparr>part_name = name, part_file_name = None, part_content_type = None, part_bytes = v\<rparr>"

definition png_media :: "string \<Rightarrow> string \<Rightarrow> generated_media" where
  "png_media bytes dims = \<lparr>gm_bytes = bytes, gm_content_type = ''image/png'', gm_extension = ''png'',
     gm_width = fst (parse_size dims), gm_height = snd (parse_size dims), gm_duration_ms = None\<rparr>"

definition image_edit ::
  "'w provider \<Rightarrow> string \<Rightarrow> reference_image \<Rightarrow> string \<Rightarrow> string \<Rightarrow> ('w, provider_error, provider_job) action" where
  "image_edit p prompt reference dims quality =
     attempt (pv_headers p) (\<lambda>headers.
     attempt (send_with_retry (pv_net p) \<lparr>rq_method = POST, rq_url = provider_url (pv_config p) ''images/edits'',
         rq_headers = headers,
         rq_body = FormBody [text_part ''model'' (pc_image_deployment (pv_config p)), text_part ''prompt'' prompt,
           text_part ''n'' ''1'', text_part ''size'' dims, text_part ''quality'' quality,
           reference_part p ''image'' reference]\<rparr>) (\<lambda>response.
     attempt (decode_first_image p response) (\<lambda>bytes.
       succeed (immediate (png_media bytes dims)))))"

definition image_submit :: "'w provider \<Rightarrow> generation_request \<Rightarrow> ('w, provider_error, provider_job) action" where
  "image_submit p req = (
     let dims = string_param (gr_parameters req) ''size'' IMAGE_DEFAULT_SIZE;
         quality = string_param (gr_parameters req) ''quality'' DEFAULT_QUALITY
     in case gr_reference req of
          Some reference \<Rightarrow> image_edit p (gr_prompt req) reference dims quality
        | None \<Rightarrow>
            attempt (pv_headers p) (\<lambda>headers.
            attempt (send_with_retry (pv_net p) \<lparr>rq_method = POST, rq_url = provider_url (pv_config p) ''images/generations'',
                rq_headers = headers,
                rq_body = JsonBody (JObj [(''model'', JStr (pc_image_deployment (pv_config p))), (''prompt'', JStr (gr_prompt req)),
                  (''n'', JNum 1), (''size'', JStr dims), (''quality'', JStr quality), (''output_format'', JStr ''png'')])\<rparr>) (\<lambda>response.
            attempt (decode_first_image p response) (\<lambda>bytes.
              succeed (immediate (png_media bytes dims))))))"

definition image_poll :: "'w provider \<Rightarrow> provider_job \<Rightarrow> ('w, provider_error, poll_status) action" where
  "image_poll p j = fail (ProviderInternal ''image generation is synchronous and has nothing to poll'')"

section \<open>Speech\<close>

definition DEFAULT_VOICE :: string where "DEFAULT_VOICE = ''nova''"
definition VOICES :: "string list" where "VOICES = [''alloy'', ''echo'', ''fable'', ''onyx'', ''nova'', ''shimmer'']"
definition MAX_INPUT_CHARS :: nat where "MAX_INPUT_CHARS = 4096"

definition voice :: "json \<Rightarrow> string" where
  "voice parameters = (case json_get ''voice'' parameters of None \<Rightarrow> DEFAULT_VOICE
     | Some v \<Rightarrow> (case json_as_str v of None \<Rightarrow> DEFAULT_VOICE
     | Some name \<Rightarrow> (case find (\<lambda>x. x = name) VOICES of Some x \<Rightarrow> x | None \<Rightarrow> DEFAULT_VOICE)))"

definition audio_submit :: "'w provider \<Rightarrow> generation_request \<Rightarrow> ('w, provider_error, provider_job) action" where
  "audio_submit p req =
     (if MAX_INPUT_CHARS < length (chars (gr_prompt req))
      then fail (ProviderValidation (''speech input is limited to '' @ dec MAX_INPUT_CHARS @ '' characters''))
      else
        attempt (pv_headers p) (\<lambda>headers.
        attempt (send_with_retry (pv_net p) \<lparr>rq_method = POST, rq_url = provider_url (pv_config p) ''audio/speech'',
            rq_headers = headers,
            rq_body = JsonBody (JObj [(''model'', JStr (pc_audio_deployment (pv_config p))), (''input'', JStr (gr_prompt req)),
              (''voice'', JStr (voice (gr_parameters req))), (''response_format'', JStr ''mp3'')])\<rparr>) (\<lambda>response.
        attempt (response_text p response) (\<lambda>bytes.
          if bytes = [] then fail (ProviderMalformed ''empty audio response'')
          else succeed (immediate \<lparr>gm_bytes = bytes, gm_content_type = ''audio/mpeg'', gm_extension = ''mp3'',
                 gm_width = None, gm_height = None, gm_duration_ms = None\<rparr>)))))"

definition audio_poll :: "'w provider \<Rightarrow> provider_job \<Rightarrow> ('w, provider_error, poll_status) action" where
  "audio_poll p j = fail (ProviderInternal ''speech synthesis is synchronous and has nothing to poll'')"

section \<open>Video\<close>

definition DEFAULT_SECONDS :: "32 word" where "DEFAULT_SECONDS = 4"
definition SUPPORTED_SECONDS :: "32 word list" where "SUPPORTED_SECONDS = [4, 8, 12]"
definition VIDEO_DEFAULT_SIZE :: string where "VIDEO_DEFAULT_SIZE = ''1280x720''"
definition SUPPORTED_SIZES :: "string list" where
  "SUPPORTED_SIZES = [''1280x720'', ''720x1280'', ''1792x1024'', ''1024x1792'']"
definition POLL_INTERVAL :: duration where "POLL_INTERVAL = seconds 10"

record video_error =
  ve_code :: "string option"
  ve_message :: "string option"

record video =
  vd_id :: string
  vd_status :: string
  vd_error :: "video_error option"
  vd_size :: "string option"
  vd_seconds :: "string option"

definition video_error_of :: "json \<Rightarrow> string + video_error" where
  "video_error_of j = and_then (serde_opt_str ''code'' j) (\<lambda>c. and_then (serde_opt_str ''message'' j) (\<lambda>m.
     Inr \<lparr>ve_code = c, ve_message = m\<rparr>))"

definition video_of :: "json \<Rightarrow> string + video" where
  "video_of j =
     and_then (serde_str ''id'' j) (\<lambda>i. and_then (serde_str ''status'' j) (\<lambda>s.
     and_then (serde_field ''error'' j) (\<lambda>f.
     and_then (case f of None \<Rightarrow> Inr None | Some JNull \<Rightarrow> Inr None
         | Some e \<Rightarrow> map_sum (\<lambda>m. m) Some (video_error_of e)) (\<lambda>e.
     and_then (serde_opt_str ''size'' j) (\<lambda>dims. and_then (serde_opt_str ''seconds'' j) (\<lambda>secs.
       Inr \<lparr>vd_id = i, vd_status = s, vd_error = e, vd_size = dims, vd_seconds = secs\<rparr>))))))"

definition split_size :: "string \<Rightarrow> int option \<times> int option" where
  "split_size s = (case split_once ''x'' s of
     None \<Rightarrow> (None, None)
   | Some (width, height) \<Rightarrow> (case (parse_signed i32_max width, parse_signed i32_max height) of
       (Some w, Some h) \<Rightarrow> (Some w, Some h) | _ \<Rightarrow> (None, None)))"

datatype progress = ProgressRunning | ProgressSucceeded | ProgressFailed

definition classify :: "(string \<Rightarrow> string) \<Rightarrow> string \<Rightarrow> progress" where
  "classify lower status = (let s = to_lowercase lower status in
     if s = ''completed'' \<or> s = ''succeeded'' then ProgressSucceeded
     else if s = ''failed'' \<or> s = ''cancelled'' \<or> s = ''canceled'' then ProgressFailed
     else ProgressRunning)"

definition video_size :: "json \<Rightarrow> string" where
  "video_size parameters = (case json_get ''size'' parameters of None \<Rightarrow> VIDEO_DEFAULT_SIZE
     | Some v \<Rightarrow> (case json_as_str v of None \<Rightarrow> VIDEO_DEFAULT_SIZE
     | Some s \<Rightarrow> (case find (\<lambda>x. x = s) SUPPORTED_SIZES of Some x \<Rightarrow> x | None \<Rightarrow> VIDEO_DEFAULT_SIZE)))"

text \<open>\<open>value as u32\<close> keeps the low 32 bits.\<close>

definition video_seconds :: "json \<Rightarrow> 32 word" where
  "video_seconds parameters = (case json_get ''n_seconds'' parameters of None \<Rightarrow> DEFAULT_SECONDS
     | Some v \<Rightarrow> (case json_as_u64 v of None \<Rightarrow> DEFAULT_SECONDS
     | Some n \<Rightarrow> (let s = word_of_nat n in if s \<in> set SUPPORTED_SECONDS then s else DEFAULT_SECONDS)))"

text \<open>\<open>(value * 1000) as i32\<close>: the product wraps in a release build, the cast reads it as signed.\<close>

definition duration_ms_of :: "32 word \<Rightarrow> int" where
  "duration_ms_of s = sint (s * 1000)"

definition fetch_content ::
  "'w provider \<Rightarrow> string \<Rightarrow> string option \<Rightarrow> 32 word option \<Rightarrow> ('w, provider_error, generated_media) action" where
  "fetch_content p video_id dims secs =
     attempt (pv_headers p) (\<lambda>headers.
     attempt (send_with_retry (pv_net p) \<lparr>rq_method = GET,
         rq_url = provider_url (pv_config p) (''videos/'' @ video_id @ ''/content''), rq_headers = headers, rq_body = NoBody\<rparr>) (\<lambda>response.
     attempt (response_text p response) (\<lambda>bytes.
       if bytes = [] then fail (ProviderMalformed ''empty video response'')
       else let (width, height) = (case dims of None \<Rightarrow> (None, None) | Some s \<Rightarrow> split_size s)
         in succeed \<lparr>gm_bytes = bytes, gm_content_type = ''video/mp4'', gm_extension = ''mp4'', gm_width = width,
              gm_height = height, gm_duration_ms = map_option duration_ms_of secs\<rparr>)))"

definition submit_with_reference ::
  "'w provider \<Rightarrow> string \<Rightarrow> reference_image \<Rightarrow> string \<Rightarrow> 32 word \<Rightarrow> string \<Rightarrow> headers \<Rightarrow> ('w, provider_error, http_response) action" where
  "submit_with_reference p prompt reference dims secs url headers =
     send_with_retry (pv_net p) \<lparr>rq_method = POST, rq_url = url, rq_headers = headers,
       rq_body = FormBody [text_part ''model'' (pc_video_deployment (pv_config p)), text_part ''prompt'' prompt,
         text_part ''seconds'' (dec (unat secs)), text_part ''size'' dims, reference_part p ''input_reference'' reference]\<rparr>"

definition video_submit :: "'w provider \<Rightarrow> generation_request \<Rightarrow> ('w, provider_error, provider_job) action" where
  "video_submit p req = (
     let dims = video_size (gr_parameters req); secs = video_seconds (gr_parameters req)
     in attempt (pv_headers p) (\<lambda>headers.
        let url = provider_url (pv_config p) ''videos'' in
        attempt (case gr_reference req of
            Some reference \<Rightarrow> submit_with_reference p (gr_prompt req) reference dims secs url headers
          | None \<Rightarrow> send_with_retry (pv_net p) \<lparr>rq_method = POST, rq_url = url, rq_headers = headers,
              rq_body = JsonBody (JObj [(''model'', JStr (pc_video_deployment (pv_config p))), (''prompt'', JStr (gr_prompt req)),
                (''seconds'', JStr (dec (unat secs))), (''size'', JStr dims)])\<rparr>) (\<lambda>response.
        attempt (response_json p video_of response) (\<lambda>video.
          succeed (pending (vd_id video))))))"

definition or_empty :: "string option \<Rightarrow> string" where
  "or_empty s = (case s of None \<Rightarrow> [] | Some x \<Rightarrow> x)"

definition video_failure :: "(string \<Rightarrow> string) \<Rightarrow> video_error option \<Rightarrow> provider_error" where
  "video_failure lower err = (
     let code = (case err of None \<Rightarrow> [] | Some d \<Rightarrow> or_empty (ve_code d));
         message = (case err of None \<Rightarrow> [] | Some d \<Rightarrow> or_empty (ve_message d));
         combined = to_lowercase lower (code @ '' '' @ message)
     in if contains ''content'' combined \<or> contains ''moderation'' combined then ProviderContentFilter
        else ProviderUpstream message)"

definition video_poll :: "'w provider \<Rightarrow> provider_job \<Rightarrow> ('w, provider_error, poll_status) action" where
  "video_poll p j = (case pj_id j of
     None \<Rightarrow> fail (ProviderInternal ''cannot poll a video without an id'')
   | Some video_id \<Rightarrow>
       attempt (pv_headers p) (\<lambda>headers.
       attempt (send_with_retry (pv_net p) \<lparr>rq_method = GET,
           rq_url = provider_url (pv_config p) (''videos/'' @ video_id), rq_headers = headers, rq_body = NoBody\<rparr>) (\<lambda>response.
       attempt (response_json p video_of response) (\<lambda>video.
         case classify (ne_lower (pv_net p)) (vd_status video) of
           ProgressRunning \<Rightarrow> succeed PollRunning
         | ProgressSucceeded \<Rightarrow>
             (let secs = (case vd_seconds video of None \<Rightarrow> None | Some s \<Rightarrow> map_option word_of_nat (parse_unsigned u32_max s))
              in attempt (fetch_content p video_id (vd_size video) secs) (\<lambda>media. succeed (PollSucceeded media)))
         | ProgressFailed \<Rightarrow> succeed (PollFailed (video_failure (ne_lower (pv_net p)) (vd_error video)))))))"

section \<open>The trait\<close>

text \<open>\<open>Providers::for_media\<close>: one provider value per media type, sharing configuration and network.\<close>

definition provider_submit :: "'w provider \<Rightarrow> media_type \<Rightarrow> generation_request \<Rightarrow> ('w, provider_error, provider_job) action" where
  "provider_submit p m = (case m of Image \<Rightarrow> image_submit p | Audio \<Rightarrow> audio_submit p | Video \<Rightarrow> video_submit p)"

definition provider_poll :: "'w provider \<Rightarrow> media_type \<Rightarrow> provider_job \<Rightarrow> ('w, provider_error, poll_status) action" where
  "provider_poll p m = (case m of Image \<Rightarrow> image_poll p | Audio \<Rightarrow> audio_poll p | Video \<Rightarrow> video_poll p)"

text \<open>What kind of file a media type gives.\<close>

fun media_format :: "media_type \<Rightarrow> string \<times> string" where
  "media_format Image = (''image/png'', ''png'')"
| "media_format Audio = (''audio/mpeg'', ''mp3'')"
| "media_format Video = (''video/mp4'', ''mp4'')"

text \<open>
  The contract of \<open>MediaProvider\<close>, as the worker uses it: a submission either carries the media or
  an id to poll for, never both and never neither; media has the format of its type; and a job
  without an id cannot be polled to success.
\<close>

locale media_provider =
  fixes kind :: media_type
    and submit :: "generation_request \<Rightarrow> ('w, provider_error, provider_job) action"
    and poll :: "provider_job \<Rightarrow> ('w, provider_error, poll_status) action"
  assumes submit_shape: "submit req w = (Inr j, w') \<Longrightarrow>
      (\<exists>media. j = immediate media \<and> (gm_content_type media, gm_extension media) = media_format kind) \<or> (\<exists>i. j = pending i)"
    and poll_format: "poll j w = (Inr (PollSucceeded media), w') \<Longrightarrow>
      pj_id j \<noteq> None \<and> (gm_content_type media, gm_extension media) = media_format kind"
begin

lemma finished_iff_no_id: "submit req w = (Inr j, w') \<Longrightarrow> is_finished j \<longleftrightarrow> pj_id j = None"
  using submit_shape by (fastforce simp: is_finished_def immediate_def pending_def)

lemma media_of_either:
  assumes "submit req w = (Inr j, w')"
    and "pj_media j = Some media \<or> poll j v = (Inr (PollSucceeded media), v')"
  shows "(gm_content_type media, gm_extension media) = media_format kind"
  using submit_shape [OF assms(1)] assms(2) poll_format by (fastforce simp: immediate_def pending_def)

end

lemma image_provider: "media_provider Image (image_submit p) (image_poll p)"
proof
  fix req w j w'
  assume "image_submit p req w = (Inr j, w')"
  then have "\<exists>bytes dims. j = immediate (png_media bytes dims)"
    by (auto simp: image_submit_def image_edit_def Let_def succeed_def split: option.splits dest!: attempt_okD) blast+
  then show "(\<exists>media. j = immediate media \<and> (gm_content_type media, gm_extension media) = media_format Image) \<or> (\<exists>i. j = pending i)"
    by (auto simp: png_media_def)
qed (simp add: image_poll_def fail_def)

lemma audio_provider: "media_provider Audio (audio_submit p) (audio_poll p)"
proof
  fix req w j w'
  assume "audio_submit p req w = (Inr j, w')"
  then show "(\<exists>media. j = immediate media \<and> (gm_content_type media, gm_extension media) = media_format Audio) \<or> (\<exists>i. j = pending i)"
    by (auto simp: audio_submit_def fail_def succeed_def split: if_splits dest!: attempt_okD)
qed (simp add: audio_poll_def fail_def)

lemma fetch_content_format:
  "fetch_content p i dims secs w = (Inr media, w') \<Longrightarrow>
   (gm_content_type media, gm_extension media) = (''video/mp4'', ''mp4'') \<and> gm_bytes media \<noteq> []"
  by (auto simp: fetch_content_def fail_def succeed_def Let_def split: if_splits prod.splits dest!: attempt_okD)

lemma video_provider: "media_provider Video (video_submit p) (video_poll p)"
proof
  fix req w j w'
  assume "video_submit p req w = (Inr j, w')"
  then show "(\<exists>media. j = immediate media \<and> (gm_content_type media, gm_extension media) = media_format Video) \<or> (\<exists>i. j = pending i)"
    by (auto simp: video_submit_def succeed_def Let_def dest!: attempt_okD)
next
  fix j w media w'
  assume "video_poll p j w = (Inr (PollSucceeded media), w')"
  then show "pj_id j \<noteq> None \<and> (gm_content_type media, gm_extension media) = media_format Video"
    by (auto simp: video_poll_def fail_def succeed_def Let_def split: option.splits progress.splits
        dest!: attempt_okD fetch_content_format)
qed

interpretation image_media: media_provider Image "image_submit p" "image_poll p" for p by (rule image_provider)
interpretation audio_media: media_provider Audio "audio_submit p" "audio_poll p" for p by (rule audio_provider)
interpretation video_media: media_provider Video "video_submit p" "video_poll p" for p by (rule video_provider)

interpretation any_media: media_provider m "provider_submit p m" "provider_poll p m" for p m
  by (cases m) (simp_all add: provider_submit_def provider_poll_def image_provider audio_provider video_provider)

section \<open>Properties of the providers\<close>

lemma find_member: "find (\<lambda>x. x = s) xs = Some y \<Longrightarrow> y = s \<and> s \<in> set xs"
  by (auto dest: find_map_Some)

text \<open>
  C33: whichever provider serves a job, a successful submission carries either the finished media or an
  id to poll, never both; and media, delivered at once or by a poll, has the content type and the
  extension of the job's media type.
\<close>

theorem provider_contract:
  assumes "provider_submit p m req w = (Inr j, w')"
  shows "(is_finished j \<longleftrightarrow> pj_id j = None) \<and>
    (\<forall>media v v'. pj_media j = Some media \<or> provider_poll p m j v = (Inr (PollSucceeded media), v') \<longrightarrow>
       (gm_content_type media, gm_extension media) = media_format m)"
  using any_media.finished_iff_no_id [OF assms] any_media.media_of_either [OF assms] by blast

definition sample_provider :: "nat provider" where
  "sample_provider = \<lparr>pv_config = \<lparr>pc_endpoint = ''https://x'', pc_api_version = [], pc_image_deployment = ''i'',
       pc_audio_deployment = ''a'', pc_video_deployment = ''v'', pc_tenant_id = [], pc_client_id = [],
       pc_client_secret = None, pc_api_key = None\<rparr>,
     pv_headers = (\<lambda>n. (Inr [], n)),
     pv_net = sample_env\<lparr>ne_send := (\<lambda>req n. (Inr \<lparr>rs_status = 200, rs_shown = ''200 OK'', rs_headers = [], rs_body = ''mp3''\<rparr>, n + 1))\<rparr>,
     pv_read_body = (\<lambda>r. Inr (rs_body r)), pv_parse_json = (\<lambda>s. Inl ''no''), pv_unbase64 = (\<lambda>s. Inr s),
     pv_mime_ok = (\<lambda>s. True)\<rparr>"

definition sample_generation :: generation_request where
  "sample_generation = \<lparr>gr_media_type = Audio, gr_prompt = ''Hei'', gr_parameters = JNull, gr_reference = None,
     gr_correlation_id = ''c''\<rparr>"

theorem provider_contract_witness:
  "\<exists>j media. fst (provider_submit sample_provider Audio sample_generation 0) = Inr j \<and> is_finished j \<and>
     pj_media j = Some media \<and> (gm_content_type media, gm_extension media) = media_format Audio"
proof -
  have short: "length (chars ''Hei'') = 3" by code_simp
  have net: "send_with_retry (pv_net sample_provider) req n = (Inr \<lparr>rs_status = 200, rs_shown = ''200 OK'', rs_headers = [], rs_body = ''mp3''\<rparr>, n + 1)"
    for req n unfolding send_with_retry_def
    by (subst send_attempt.simps) (simp add: sample_provider_def is_success_def)
  have fixed: "pv_headers sample_provider n = (Inr [], n)" "pv_read_body sample_provider r = Inr (rs_body r)" for n r
    by (simp_all add: sample_provider_def)
  obtain j where j: "provider_submit sample_provider Audio sample_generation 0 = (Inr j, 1)" "pj_id j = None"
    by (simp add: provider_submit_def audio_submit_def sample_generation_def MAX_INPUT_CHARS_def short attempt_def net
        response_text_def map_err_def of_result_def succeed_def immediate_def fixed del: chars.simps)
  from provider_contract [OF j(1)] j show ?thesis by (auto simp: is_finished_def)
qed

text \<open>
  Whatever parameters a job carries, only supported values reach a provider, and every supported
  value is passed on unchanged: frame sizes, clip lengths and voices.
\<close>

theorem only_supported_parameters:
  "video_size parameters \<in> set SUPPORTED_SIZES \<and> video_seconds parameters \<in> set SUPPORTED_SECONDS \<and>
   voice parameters \<in> set VOICES \<and>
   map (\<lambda>s. video_size (JObj [(''size'', JStr s)])) SUPPORTED_SIZES = SUPPORTED_SIZES \<and>
   map (\<lambda>s. video_seconds (JObj [(''n_seconds'', JNum (uint s))])) SUPPORTED_SECONDS = SUPPORTED_SECONDS \<and>
   map (\<lambda>v. voice (JObj [(''voice'', JStr v)])) VOICES = VOICES"
proof -
  have "video_size parameters \<in> set SUPPORTED_SIZES"
    by (auto simp: video_size_def VIDEO_DEFAULT_SIZE_def split: option.split dest!: find_member)
      (simp_all add: SUPPORTED_SIZES_def)
  moreover have "video_seconds parameters \<in> set SUPPORTED_SECONDS"
    by (auto simp: video_seconds_def Let_def split: option.split) (simp_all add: SUPPORTED_SECONDS_def DEFAULT_SECONDS_def)
  moreover have "voice parameters \<in> set VOICES"
    by (auto simp: voice_def DEFAULT_VOICE_def split: option.split dest!: find_member) (simp_all add: VOICES_def)
  ultimately show ?thesis
    by (simp add: SUPPORTED_SIZES_def SUPPORTED_SECONDS_def VOICES_def video_size_def video_seconds_def voice_def Let_def)
qed

text \<open>The cast keeps only the low 32 bits, so a length of 4294967300 seconds counts as 4.\<close>

lemma video_seconds_truncates: "video_seconds (JObj [(''n_seconds'', JNum 4294967300)]) = 4"
  by (simp add: video_seconds_def SUPPORTED_SECONDS_def Let_def)

text \<open>A length the service reports near the top of the range gives a negative duration.\<close>

lemma duration_ms_can_be_negative: "duration_ms_of 2147484 < 0"
  by (simp add: duration_ms_of_def)

text \<open>
  An API key is the last resort: it is chosen exactly when no client secret is configured, the
  process does not run where a managed identity is offered, the developer tools give no credential,
  and a key is configured. A configured client secret that is refused is an error, not a reason to
  fall back.
\<close>

theorem api_key_is_last_resort:
  "(credentials_new libs var_set config = Inr (ApiKeyCredential key) \<longleftrightarrow>
      pc_client_secret config = None \<and> \<not> provider_running_in_azure var_set \<and>
      (\<exists>e. make_developer_tools libs = Inl e) \<and> pc_api_key config = Some key) \<and>
   (case pc_client_secret config of
      None \<Rightarrow> True
    | Some secret \<Rightarrow> (case make_client_secret libs (pc_tenant_id config) (pc_client_id config) secret of
        Inl e \<Rightarrow> (\<exists>m. credentials_new libs var_set config = Inl (ProviderInternal m))
      | Inr _ \<Rightarrow> True))"
  by (auto simp: credentials_new_def split: option.splits sum.splits)

end
