(* ===== verification/Middleware.thy ===== *)
theory Middleware
  imports Settings Providers
begin

text \<open>
  The web crate's middleware: the correlation id (\<open>correlation.rs\<close>), the protection against forged
  requests (\<open>csrf.rs\<close>), error pages (\<open>error_page.rs\<close>), security headers
  (\<open>security_headers.rs\<close>), and the client details of the audit trail (\<open>client_info.rs\<close>).
\<close>

section \<open>Correlation ids\<close>

definition CORRELATION_ID_HEADER :: string where "CORRELATION_ID_HEADER = ''x-correlation-id''"
definition MAX_INBOUND_LEN :: nat where "MAX_INBOUND_LEN = 128"

definition is_acceptable :: "string \<Rightarrow> bool" where
  "is_acceptable value \<longleftrightarrow> value \<noteq> [] \<and> length value \<le> MAX_INBOUND_LEN \<and>
     list_all (\<lambda>b. ascii_graphic b \<and> b \<noteq> CHR 0x22) value"

definition inbound_correlation :: "headers \<Rightarrow> string option" where
  "inbound_correlation hs = (case header_get CORRELATION_ID_HEADER hs of None \<Rightarrow> None
     | Some value \<Rightarrow> (case header_to_str value of None \<Rightarrow> None
     | Some s \<Rightarrow> if is_acceptable (trim s) then Some (trim s) else None))"

text \<open>\<open>fresh\<close> is \<open>Uuid::new_v4\<close>.\<close>

definition propagate :: "('w \<Rightarrow> uuid \<times> 'w) \<Rightarrow> ('w, 'p) service \<Rightarrow> ('w, 'p) service" where
  "propagate fresh rest req w = (
     let (correlation_id, w1) = (case inbound_correlation (in_headers req) of
           Some s \<Rightarrow> (s, w) | None \<Rightarrow> (let (u, w') = fresh w in (uuid_string u, w')));
         (response, w2) = rest (req\<lparr>in_correlation := Some correlation_id\<rparr>) w1
     in (if header_value_ok correlation_id
         then response\<lparr>out_headers := header_insert CORRELATION_ID_HEADER correlation_id (out_headers response)\<rparr>
         else response, w2))"

section \<open>Forged requests\<close>

definition TOKEN_KEY :: string where "TOKEN_KEY = ''csrf.token''"
definition TOKEN_HEADER :: string where "TOKEN_HEADER = ''x-csrf-token''"

definition csrf_token ::
  "'s session_lib \<Rightarrow> ('n \<Rightarrow> uuid \<times> 'n) \<Rightarrow> ('s \<times> 'n, session_failure, string) action" where
  "csrf_token sl fresh = (\<lambda>(s, n). case session_get sl TOKEN_KEY as_text s of
     (Inl e, s1) \<Rightarrow> (Inl e, (s1, n))
   | (Inr (Some existing), s1) \<Rightarrow> (Inr existing, (s1, n))
   | (Inr None, s1) \<Rightarrow> (let (u, n1) = fresh n in
       (case sl_insert sl TOKEN_KEY (TextEntry (uuid_simple u)) s1 of
          (Inl e, s2) \<Rightarrow> (Inl e, (s2, n1))
        | (Inr _, s2) \<Rightarrow> (Inr (uuid_simple u), (s2, n1)))))"

definition is_safe :: "http_method \<Rightarrow> bool" where
  "is_safe m \<longleftrightarrow> m \<in> {GET, HEAD, OPTIONS, TRACE}"

definition origin_of :: "string \<Rightarrow> string option" where
  "origin_of url = (case split_once ''://'' url of None \<Rightarrow> None
     | Some (scheme, rest) \<Rightarrow>
         if scheme = [] \<or> rest = [] then None
         else let authority = takeWhile (\<lambda>c. c \<notin> {CHR ''/'', CHR ''?'', CHR ''#''}) rest in
           if authority = [] then None else Some (scheme @ ''://'' @ authority))"

definition claimed_origin :: "headers \<Rightarrow> string option" where
  "claimed_origin hs = (
     case Option.bind (header_get ''origin'' hs) header_to_str of
       Some origin \<Rightarrow> if origin \<noteq> ''null'' then Some origin
         else Option.bind (Option.bind (header_get ''referer'' hs) header_to_str) origin_of
     | None \<Rightarrow> Option.bind (Option.bind (header_get ''referer'' hs) header_to_str) origin_of)"

definition csrf_reject :: "'p outgoing" where
  "csrf_reject = json_response 403 (rejection_body Validation ERR_CSRF)"

definition origin_from_base_url :: "string \<Rightarrow> string" where
  "origin_from_base_url base_url = base_url"

definition verify_origin :: "string \<Rightarrow> ('w, 'p) service \<Rightarrow> ('w, 'p) service" where
  "verify_origin expected rest req w =
     (if is_safe (in_method req) then rest req w
      else case claimed_origin (in_headers req) of
        Some origin \<Rightarrow> if origin = expected then rest req w else (csrf_reject, w)
      | None \<Rightarrow> (csrf_reject, w))"

text \<open>The second copy of the comparison in the program.\<close>

definition csrf_constant_time_eq :: "string \<Rightarrow> string \<Rightarrow> bool" where
  "csrf_constant_time_eq left right =
     (if length left \<noteq> length right then False
      else foldl (\<lambda>acc (a, b). acc OR (a XOR b)) (0 :: 8 word)
             (zip (map (\<lambda>c. of_nat (byte c)) left) (map (\<lambda>c. of_nat (byte c)) right)) = 0)"

text \<open>\<open>read_token\<close> is the lookup of the token in the session of the request.\<close>

definition verify_token ::
  "('w, session_failure, string option) action \<Rightarrow> ('w, 'p) service \<Rightarrow> ('w, 'p) service" where
  "verify_token read_token rest req w =
     (if is_safe (in_method req) then rest req w
      else if \<not> in_session req then (csrf_reject, w)
      else case read_token w of
        (Inl _, w') \<Rightarrow> (csrf_reject, w')
      | (Inr None, w') \<Rightarrow> (csrf_reject, w')
      | (Inr (Some expected), w') \<Rightarrow>
          let presented = option_or (Option.bind (header_get TOKEN_HEADER (in_headers req)) header_to_str) []
          in if csrf_constant_time_eq presented expected then rest req w' else (csrf_reject, w'))"

section \<open>Error pages\<close>

definition MAX_BODY :: nat where "MAX_BODY = 8 * 1024"

record error_page_template =
  ep_heading :: string
  ep_message :: string
  ep_show_retry :: bool
  ep_correlation_id :: string

text \<open>
  The libraries: \<open>pl_read\<close> collects a body of at most so many bytes, \<open>pl_parse\<close> parses JSON,
  \<open>pl_render\<close> renders the template.
\<close>

record 'p page_lib =
  pl_read :: "nat \<Rightarrow> 'p body \<Rightarrow> string option"
  pl_parse :: "string \<Rightarrow> json option"
  pl_render :: "error_page_template \<Rightarrow> 'p option"

fun heading_for :: "error_code \<Rightarrow> string" where
  "heading_for Unauthenticated = ERROR_HEADING_SIGN_IN"
| "heading_for Forbidden = ERROR_HEADING_NO_ACCESS"
| "heading_for NotFound = ERROR_HEADING_NOT_FOUND"
| "heading_for RateLimited = ERROR_HEADING_TOO_MUCH"
| "heading_for _ = ERROR_HEADING_SOMETHING_WRONG"

definition is_page_navigation :: "uri \<Rightarrow> headers \<Rightarrow> bool" where
  "is_page_navigation u hs =
     (if starts_with API_PREFIX (uri_path u) \<or> header_get ''hx-request'' hs \<noteq> None then False
      else case Option.bind (header_get ''accept'' hs) header_to_str of
        None \<Rightarrow> False | Some accept \<Rightarrow> contains ''text/html'' accept)"

definition is_json_error :: "'p outgoing \<Rightarrow> bool" where
  "is_json_error response =
     (if \<not> ((400 \<le> out_status response \<and> out_status response < 500) \<or> is_server_error (out_status response)) then False
      else case Option.bind (header_get ''content-type'' (out_headers response)) header_to_str of
        None \<Rightarrow> False | Some value \<Rightarrow> starts_with ''application/json'' value)"

definition error_page :: "'p page_lib \<Rightarrow> nat \<Rightarrow> error_code \<Rightarrow> string \<Rightarrow> string \<Rightarrow> 'p outgoing" where
  "error_page lib status code message correlation_id = (
     case pl_render lib \<lparr>ep_heading = heading_for code, ep_message = message,
            ep_show_retry = (code = Unauthenticated \<or> code = Validation), ep_correlation_id = correlation_id\<rparr> of
       Some html \<Rightarrow> response_with status [(''content-type'', ''text/html; charset=utf-8'')] (PageContent html)
     | None \<Rightarrow> response_with 500 [] (TextContent ERR_INTERNAL))"

text \<open>A body that is not one of ours is put back as it was read.\<close>

definition render_html_errors :: "'p page_lib \<Rightarrow> ('w, 'p) service \<Rightarrow> ('w, 'p) service" where
  "render_html_errors lib rest req w = (
     let render_as_html = is_page_navigation (in_uri req) (in_headers req);
         correlation_id = option_or (in_correlation req) [];
         (response, w') = rest req w
     in (if \<not> render_as_html \<or> \<not> is_json_error response then response
         else case pl_read lib MAX_BODY (out_body response) of
           None \<Rightarrow> error_page lib (out_status response) Internal ERR_INTERNAL correlation_id
         | Some bytes \<Rightarrow> (case pl_parse lib bytes of
             None \<Rightarrow> response
           | Some parsed \<Rightarrow> (case (serde_str ''code'' parsed, serde_str ''message'' parsed) of
               (Inr code, Inr message) \<Rightarrow>
                 error_page lib (out_status response) (from_str_or_internal code) message correlation_id
             | _ \<Rightarrow> response)), w'))"

section \<open>Security headers\<close>

definition CONTENT_SECURITY_POLICY :: string where
  "CONTENT_SECURITY_POLICY = ''default-src 'self'; script-src 'self'; style-src 'self'; '' @
     ''img-src 'self' data: blob: https://*.blob.core.windows.net; '' @
     ''media-src 'self' blob: https://*.blob.core.windows.net; '' @
     ''font-src 'self'; connect-src 'self'; form-action 'self'; frame-ancestors 'none'; '' @
     ''base-uri 'none'; object-src '' @ [CHR 0x27] @ ''none'' @ [CHR 0x27]"

definition HSTS :: string where "HSTS = ''max-age=63072000; includeSubDomains''"

text \<open>\<open>SetResponseHeaderLayer::overriding\<close>.\<close>

definition overriding :: "string \<Rightarrow> string \<Rightarrow> ('w, 'p) service \<Rightarrow> ('w, 'p) service" where
  "overriding name v rest req w = (let (response, w') = rest req w in
     (response\<lparr>out_headers := header_insert name v (out_headers response)\<rparr>, w'))"

definition content_security_policy :: "('w, 'p) service \<Rightarrow> ('w, 'p) service" where
  "content_security_policy = overriding ''content-security-policy'' CONTENT_SECURITY_POLICY"

definition no_sniff :: "('w, 'p) service \<Rightarrow> ('w, 'p) service" where
  "no_sniff = overriding ''x-content-type-options'' ''nosniff''"

definition referrer_policy :: "('w, 'p) service \<Rightarrow> ('w, 'p) service" where
  "referrer_policy = overriding ''referrer-policy'' ''strict-origin-when-cross-origin''"

definition frame_options :: "('w, 'p) service \<Rightarrow> ('w, 'p) service" where
  "frame_options = overriding ''x-frame-options'' ''DENY''"

definition strict_transport_security :: "environment \<Rightarrow> (('w, 'p) service \<Rightarrow> ('w, 'p) service) option" where
  "strict_transport_security e =
     (if is_production e then Some (overriding ''strict-transport-security'' HSTS) else None)"

section \<open>Client details\<close>

record client_info =
  ci_ip :: "string option"
  ci_user_agent :: "string option"

text \<open>\<open>ip_ok\<close> is whether a text parses as \<open>IpAddr\<close>.\<close>

definition client_ip :: "(string \<Rightarrow> bool) \<Rightarrow> incoming \<Rightarrow> string option" where
  "client_ip ip_ok req = (
     case Option.bind (header_get ''x-forwarded-for'' (in_headers req)) header_to_str of
       None \<Rightarrow> in_peer req
     | Some forwarded \<Rightarrow>
         let candidate = trim (before_first CHR '','' forwarded) in
         if candidate \<noteq> [] \<and> ip_ok candidate then Some candidate else in_peer req)"

definition client_info_of :: "(string \<Rightarrow> bool) \<Rightarrow> incoming \<Rightarrow> client_info" where
  "client_info_of ip_ok req = \<lparr>ci_ip = client_ip ip_ok req,
     ci_user_agent = Option.bind (header_get ''user-agent'' (in_headers req)) header_to_str\<rparr>"


section \<open>The guards against forged requests\<close>

lemma csrf_constant_time_eq_iff [simp]: "csrf_constant_time_eq s t \<longleftrightarrow> s = t"
  using constant_time_eq_iff [of s t] by (simp add: csrf_constant_time_eq_def constant_time_eq_def)

definition presented_token :: "headers \<Rightarrow> string" where
  "presented_token hs = option_or (Option.bind (header_get TOKEN_HEADER hs) header_to_str) []"

definition origin_pass :: "string \<Rightarrow> incoming \<Rightarrow> 'w \<Rightarrow> (incoming \<times> 'w) option" where
  "origin_pass expected req w =
     (if is_safe (in_method req) \<or> claimed_origin (in_headers req) = Some expected then Some (req, w) else None)"

definition token_pass ::
  "('w, session_failure, string option) action \<Rightarrow> incoming \<Rightarrow> 'w \<Rightarrow> (incoming \<times> 'w) option" where
  "token_pass read_token req w =
     (if is_safe (in_method req) then Some (req, w)
      else if \<not> in_session req then None
      else case read_token w of
        (Inr (Some expected), w') \<Rightarrow> if presented_token (in_headers req) = expected then Some (req, w') else None
      | _ \<Rightarrow> None)"

definition token_deny :: "('w, session_failure, string option) action \<Rightarrow> incoming \<Rightarrow> 'w \<Rightarrow> 'p outgoing \<times> 'w" where
  "token_deny read_token req w = (csrf_reject, if in_session req then snd (read_token w) else w)"

interpretation origin_guard: guard "verify_origin expected" "origin_pass expected" "\<lambda>req w. (csrf_reject, w)" "{403}"
  for expected
  by unfold_locales (auto simp: verify_origin_def origin_pass_def csrf_reject_def split: option.splits if_splits)

interpretation token_guard: guard "verify_token read_token" "token_pass read_token" "token_deny read_token" "{403}"
  for read_token
  by unfold_locales
     (auto simp: verify_token_def token_pass_def token_deny_def csrf_reject_def presented_token_def Let_def
       split: option.splits if_splits prod.splits sum.splits)

text \<open>The origin of a URL is the URL up to the end of its authority.\<close>

lemma origin_of_prefix:
  assumes "origin_of url = Some origin"
  shows "\<exists>tail. url = origin @ tail \<and> (tail = [] \<or> hd tail \<in> {CHR ''/'', CHR ''?'', CHR ''#''})"
proof -
  let ?P = "\<lambda>c. c \<notin> {CHR ''/'', CHR ''?'', CHR ''#''}"
  from assms obtain scheme rest where split: "split_once ''://'' url = Some (scheme, rest)"
    and origin: "origin = scheme @ ''://'' @ takeWhile ?P rest"
    by (auto simp: origin_of_def Let_def split: option.splits if_splits)
  have "url = origin @ dropWhile ?P rest"
    using split_once_Some [OF split] by (simp add: origin)
  moreover have "dropWhile ?P rest = [] \<or> hd (dropWhile ?P rest) \<in> {CHR ''/'', CHR ''?'', CHR ''#''}"
    using hd_dropWhile [of ?P rest] by blast
  ultimately show ?thesis by blast
qed

text \<open>
  C17: a state-changing request under the API runs only when it comes from this application twice
  over: its \<open>Origin\<close> is the base URL, or, lacking a usable one, its \<open>Referer\<close> is the base URL
  followed by nothing or the rest of a URL; and it carries the token of its own session. Every other
  one is answered 403, with the same body, and the service behind the guards is not run.
\<close>

theorem forged_requests_stopped:
  fixes s :: "('w, 'p) service"
  assumes "\<not> is_safe (in_method req)"
    and "verify_origin expected (verify_token read_token s) req w = (out, w')"
  shows "(out = csrf_reject \<and> (\<forall>s'. verify_origin expected (verify_token read_token s') req w = (out, w'))) \<or>
    (\<exists>w1 hs tail. hs = in_headers req \<and> in_session req \<and> read_token w = (Inr (Some (presented_token hs)), w1) \<and>
       s req w1 = (out, w') \<and>
       (Option.bind (header_get ''origin'' hs) header_to_str = Some expected \<or>
        Option.bind (header_get ''origin'' hs) header_to_str \<in> {None, Some ''null''} \<and>
        Option.bind (header_get ''referer'' hs) header_to_str = Some (expected @ tail) \<and>
        (tail = [] \<or> hd tail \<in> {CHR ''/'', CHR ''?'', CHR ''#''})))"
proof (cases "claimed_origin (in_headers req) = Some expected")
  case False
  then have "verify_origin expected r req w = (csrf_reject, w)" for r :: "('w, 'p) service"
    using assms(1) origin_guard.stopped [of expected req w r] by (simp add: origin_pass_def)
  with assms(2) show ?thesis by simp
next
  case True
  then have origin: "verify_origin expected r req w = r req w" for r :: "('w, 'p) service"
    using origin_guard.runs [of expected req w req w r] by (simp add: origin_pass_def)
  from True have claim: "\<exists>tail. (Option.bind (header_get ''origin'' (in_headers req)) header_to_str = Some expected \<or>
      Option.bind (header_get ''origin'' (in_headers req)) header_to_str \<in> {None, Some ''null''} \<and>
      Option.bind (header_get ''referer'' (in_headers req)) header_to_str = Some (expected @ tail) \<and>
      (tail = [] \<or> hd tail \<in> {CHR ''/'', CHR ''?'', CHR ''#''}))"
    using origin_of_prefix [of _ expected]
    by (fastforce simp: claimed_origin_def bind_eq_Some_conv split: option.splits if_splits)
  show ?thesis
  proof (cases "token_pass read_token req w")
    case None
    then have "verify_token read_token r req w = (csrf_reject, snd (token_deny read_token req w :: 'p outgoing \<times> 'w))"
      for r :: "('w, 'p) service"
      using token_guard.stopped [of read_token req w r] by (simp add: token_deny_def)
    with assms(2) origin show ?thesis by simp
  next
    case (Some p)
    then obtain w1 where p: "p = (req, w1)" and read: "in_session req" "read_token w = (Inr (Some (presented_token (in_headers req))), w1)"
      using assms(1) by (auto simp: token_pass_def split: if_splits prod.splits sum.splits option.splits)
    have "s req w1 = (out, w')"
      using token_guard.runs [OF Some [unfolded p], of s] assms(2) origin by simp
    with read claim show ?thesis by blast
  qed
qed

definition sample_post :: "headers \<Rightarrow> incoming" where
  "sample_post hs = \<lparr>in_method = POST, in_uri = Some (''/api/generate'', None), in_headers = hs, in_peer = None,
     in_session = True, in_user = None, in_correlation = None\<rparr>"

theorem forged_requests_stopped_witness:
  "verify_origin ''https://m'' (verify_token (\<lambda>n. (Inr (Some ''t''), n)) (\<lambda>_ n. (redirect_to [], n + 1)))
     (sample_post [(''origin'', ''https://evil'')]) (0 :: nat) = (csrf_reject :: unit outgoing, 0)"
proof -
  let ?stack = "verify_origin ''https://m'' (verify_token (\<lambda>n. (Inr (Some ''t''), n)) (\<lambda>_ n. (redirect_to [] :: unit outgoing, n + 1)))"
  let ?req = "sample_post [(''origin'', ''https://evil'')]"
  obtain out w' where run: "?stack ?req 0 = (out, w')" by fastforce
  have "\<not> is_safe (in_method ?req)" by (simp add: sample_post_def is_safe_def)
  from forged_requests_stopped [OF this run] have "out = csrf_reject"
    by (auto simp: sample_post_def header_get_def header_to_str_def)
  with run show ?thesis
    by (auto simp: verify_origin_def sample_post_def is_safe_def claimed_origin_def header_get_def header_to_str_def)
qed


section \<open>Correlation ids and error pages\<close>

lemma uuid_string_acceptable: "is_acceptable (uuid_string u)"
proof -
  have "list_all (\<lambda>b. ascii_graphic b \<and> b \<noteq> CHR 0x22) (uuid_string u)"
  proof (rule uuid_string_all)
    show "ascii_graphic CHR ''-'' \<and> CHR ''-'' \<noteq> CHR 0x22" by (simp add: ascii_graphic_def)
    have "48 \<le> byte (hex_digit n) \<and> byte (hex_digit n) \<le> 126" if "n < 16" for n
      using that by (simp add: hex_digit_def)
    then show "\<forall>n \<in> {..<16}. ascii_graphic (hex_digit n) \<and> hex_digit n \<noteq> CHR 0x22"
      by (force simp: ascii_graphic_def)
  qed
  moreover have "uuid_string u \<noteq> []" using length_uuid_string [of u] by auto
  ultimately show ?thesis by (simp add: is_acceptable_def MAX_INBOUND_LEN_def length_uuid_string)
qed

lemma acceptable_header: "is_acceptable s \<Longrightarrow> header_value_ok s"
  unfolding is_acceptable_def header_value_ok_def ascii_graphic_def by (fastforce elim: list.pred_mono_strong)

lemma propagate_out:
  assumes "propagate fresh rest req w = (out, w')"
  obtains cid w1 response where "rest (req\<lparr>in_correlation := Some cid\<rparr>) w1 = (response, w')" and "is_acceptable cid"
    and "out = response\<lparr>out_headers := header_insert CORRELATION_ID_HEADER cid (out_headers response)\<rparr>"
    and "case inbound_correlation (in_headers req) of
       Some s \<Rightarrow> cid = s \<and> w1 = w \<and> (\<exists>v. header_get CORRELATION_ID_HEADER (in_headers req) = Some v \<and> s = trim v)
     | None \<Rightarrow> (uuid_string (fst (fresh w)), snd (fresh w)) = (cid, w1)"
proof -
  have acc: "inbound_correlation (in_headers req) = Some s \<Longrightarrow> is_acceptable s \<and>
      (\<exists>v. header_get CORRELATION_ID_HEADER (in_headers req) = Some v \<and> s = trim v)" for s
    by (auto simp: inbound_correlation_def header_to_str_def split: option.splits if_splits)
  define cid where "cid = (case inbound_correlation (in_headers req) of Some s \<Rightarrow> s | None \<Rightarrow> uuid_string (fst (fresh w)))"
  define w1 where "w1 = (case inbound_correlation (in_headers req) of Some s \<Rightarrow> w | None \<Rightarrow> snd (fresh w))"
  have ok: "is_acceptable cid" using acc uuid_string_acceptable by (auto simp: cid_def split: option.split)
  obtain response w2 where rest: "rest (req\<lparr>in_correlation := Some cid\<rparr>) w1 = (response, w2)" by fastforce
  have "(out, w') = (response\<lparr>out_headers := header_insert CORRELATION_ID_HEADER cid (out_headers response)\<rparr>, w2)"
    using assms rest acceptable_header [OF ok]
    by (auto simp: propagate_def cid_def w1_def Let_def split: option.splits prod.splits)
  then show ?thesis
    using rest ok acc by (intro that [of cid w1 response]) (auto simp: cid_def w1_def split: option.split)
qed

text \<open>
  Every request has one correlation id, the same for the service, the log and the client: the
  caller's own, trimmed, when it is printable ASCII of at most 128 characters without quotes, and
  a fresh UUID otherwise. In both cases it cannot break a log line or a header.
\<close>

theorem correlation_id_is_clean:
  assumes "propagate fresh rest req w = (out, w')"
  shows "\<exists>cid w1 response. rest (req\<lparr>in_correlation := Some cid\<rparr>) w1 = (response, w') \<and>
    header_get CORRELATION_ID_HEADER (out_headers out) = Some cid \<and> out_status out = out_status response \<and>
    out_body out = out_body response \<and> is_acceptable cid \<and>
    (case inbound_correlation (in_headers req) of
       Some s \<Rightarrow> cid = s \<and> w1 = w \<and> (\<exists>v. header_get CORRELATION_ID_HEADER (in_headers req) = Some v \<and> s = trim v)
     | None \<Rightarrow> (uuid_string (fst (fresh w)), snd (fresh w)) = (cid, w1))"
  by (rule propagate_out [OF assms], intro exI conjI) (assumption | simp)+

theorem correlation_id_is_clean_witness:
  "header_get CORRELATION_ID_HEADER (out_headers (fst (propagate (\<lambda>n. (7, n)) (\<lambda>_ n. (redirect_to ''/'' :: unit outgoing, n))
     (sample_post [(''x-correlation-id'', ''abc'')]) (0 :: nat)))) = Some ''abc''"
proof -
  let ?stack = "propagate (\<lambda>n :: nat. (7, n)) (\<lambda>_ n. (redirect_to ''/'' :: unit outgoing, n))"
  obtain out w' where run: "?stack (sample_post [(''x-correlation-id'', ''abc'')]) 0 = (out, w')" by fastforce
  have "inbound_correlation (in_headers (sample_post [(''x-correlation-id'', ''abc'')])) = Some ''abc''" by code_simp
  with correlation_id_is_clean [OF run] run show ?thesis by auto
qed

text \<open>
  C39: whoever navigates to a page sees an error as a page with the status of the error, its
  message, a headline and the correlation id; sign-in is offered exactly for errors that signing in
  again can mend. The API and partial page updates get the JSON untouched. The library is only
  assumed to read back the JSON it wrote.
\<close>

theorem error_page_shows_error:
  assumes "rest req w = (into_response e, w')"
    and "pl_read lib MAX_BODY (JsonContent (error_body e)) = Some bytes" and "pl_parse lib bytes = Some (error_body e)"
  shows "render_html_errors lib rest req w =
    (if is_page_navigation (in_uri req) (in_headers req)
     then (case pl_render lib \<lparr>ep_heading = heading_for (app_error_code e), ep_message = app_user_message e,
              ep_show_retry = (app_error_status e = 401 \<or> app_error_status e = 400 \<or> e = AppCsrf),
              ep_correlation_id = option_or (in_correlation req) []\<rparr> of
             Some html \<Rightarrow> response_with (app_error_status e) [(''content-type'', ''text/html; charset=utf-8'')] (PageContent html)
           | None \<Rightarrow> response_with 500 [] (TextContent ERR_INTERNAL))
     else into_response e, w')"
proof -
  have json: "is_json_error (into_response e :: 'a outgoing)"
  proof -
    have "header_to_str ''application/json'' = Some ''application/json''" by code_simp
    then show ?thesis
      by (cases e) (simp_all add: is_json_error_def into_response_def is_server_error_def header_get_def starts_with_def)
  qed
  have fields: "serde_str ''code'' (error_body e) = Inr (error_code_as_str (app_error_code e))"
    "serde_str ''message'' (error_body e) = Inr (app_user_message e)"
    by (simp_all add: error_body_def serde_str_def serde_field_def)
  have retry: "(app_error_code e = Unauthenticated \<or> app_error_code e = Validation) =
      (app_error_status e = 401 \<or> app_error_status e = 400 \<or> e = AppCsrf)"
    by (cases e) simp_all
  have body: "out_body (into_response e :: 'a outgoing) = JsonContent (error_body e)"
    "out_status (into_response e :: 'a outgoing) = app_error_status e"
    by (simp_all add: into_response_def)
  show ?thesis
    using assms json by (simp add: render_html_errors_def Let_def body fields error_page_def retry)
qed


definition sample_page_lib :: "error_page_template page_lib" where
  "sample_page_lib = \<lparr>pl_read = (\<lambda>_ _. Some ''body''), pl_parse = (\<lambda>_. Some (error_body AppNotFound)), pl_render = Some\<rparr>"

theorem error_page_shows_error_witness:
  "out_body (fst (render_html_errors sample_page_lib (\<lambda>_ n. (into_response AppNotFound, n))
     (sample_post [(''accept'', ''text/html'')]) (0 :: nat))) = JsonContent (error_body AppNotFound) \<and>
   out_status (fst (render_html_errors sample_page_lib (\<lambda>_ n. (into_response AppNotFound, n))
     ((sample_post [(''accept'', ''text/html'')])\<lparr>in_uri := Some (''/x'', None)\<rparr>) (0 :: nat))) = 404"
proof -
  have lib: "pl_read sample_page_lib MAX_BODY (JsonContent (error_body AppNotFound)) = Some ''body''"
    "pl_parse sample_page_lib ''body'' = Some (error_body AppNotFound)"
    by (simp_all add: sample_page_lib_def)
  have nav: "\<not> is_page_navigation (in_uri (sample_post [(''accept'', ''text/html'')])) [(''accept'', ''text/html'')]"
    "is_page_navigation (Some (''/x'', None)) [(''accept'', ''text/html'')]" by code_simp+
  have "render_html_errors sample_page_lib (\<lambda>_ n :: nat. (into_response AppNotFound, n)) (sample_post [(''accept'', ''text/html'')]) 0 =
      (into_response AppNotFound, 0)"
    using error_page_shows_error [of "\<lambda>_ n :: nat. (into_response AppNotFound, n)", OF refl lib] nav(1)
    by (simp add: sample_post_def)
  moreover have "out_status (fst (render_html_errors sample_page_lib (\<lambda>_ n :: nat. (into_response AppNotFound, n))
     ((sample_post [(''accept'', ''text/html'')])\<lparr>in_uri := Some (''/x'', None)\<rparr>) 0)) = 404"
    using error_page_shows_error [of "\<lambda>_ n :: nat. (into_response AppNotFound, n)", OF refl lib] nav(2)
    by (simp add: sample_post_def sample_page_lib_def)
  ultimately show ?thesis by (simp add: into_response_def)
qed

end
