(* ===== verification/Storage_Jobs.thy ===== *)
theory Storage_Jobs
  imports Database
begin

text \<open>
  The repository of jobs (\<open>crates/storage/src/jobs.rs\<close>): each function of the module is an
  action on the database, with the \<open>where\<close> clause of its statement as the condition on rows. The
  listing is modelled from the text of the statement it assembles: \<open>eval_where\<close> reads that
  text against the bound parameters, and \<open>eval_list_predicates\<close> shows what it selects.
\<close>

section \<open>Reading rows\<close>

definition to_job :: "job_row \<Rightarrow> job" where
  "to_job row = \<lparr>
     job_id = j_id row,
     job_user_id = j_user_id row,
     job_media_type = unwrap_or Image (media_from_str (media_as_str (j_media_type row))),
     job_prompt = j_prompt row,
     job_parameters = j_parameters row,
     job_status = from_columns (j_status row) (j_error_code row) (j_error_message row),
     job_provider_job_id = j_provider_job_id row,
     job_created_at = j_created_at row,
     job_started_at = j_started_at row,
     job_completed_at = j_completed_at row\<rparr>"

text \<open>The status of a row, as every reader sees it.\<close>

definition row_status :: "job_row \<Rightarrow> job_status" where
  "row_status r = from_columns (j_status r) (j_error_code r) (j_error_message r)"

lemma to_job_simps [simp]:
  "job_id (to_job r) = j_id r" "job_user_id (to_job r) = j_user_id r"
  "job_media_type (to_job r) = j_media_type r" "job_prompt (to_job r) = j_prompt r"
  "job_parameters (to_job r) = j_parameters r" "job_status (to_job r) = row_status r"
  "job_provider_job_id (to_job r) = j_provider_job_id r" "job_created_at (to_job r) = j_created_at r"
  "job_started_at (to_job r) = j_started_at r" "job_completed_at (to_job r) = j_completed_at r"
  by (simp_all add: to_job_def row_status_def)

lemma row_status_terminal: "is_terminal (row_status r) \<longleftrightarrow> \<not> unfinished r"
  by (auto simp: row_status_def from_columns_terminal_iff unfinished_def)

section \<open>Statements on the jobs table\<close>

definition jobs_create :: "instant \<Rightarrow> uuid \<Rightarrow> new_job \<Rightarrow> job db_op" where
  "jobs_create now fresh new db = (
     let row = \<lparr>j_id = fresh, j_user_id = new_user_id new, j_media_type = new_media_type new,
                j_prompt = new_prompt new, j_parameters = new_parameters new, j_status = ''queued'',
                j_provider_job_id = None, j_error_code = None, j_error_message = None,
                j_created_at = now, j_started_at = None, j_completed_at = None, j_hidden = False\<rparr>
     in if fresh \<in> j_id ` set (jobs db) then (Inl (map_sqlx UniqueViolation), db)
        else if new_user_id new \<notin> u_id ` set (users db)
          then (Inl (map_sqlx (OtherDriverError ''foreign key violation'')), db)
        else (Inr (to_job row), db\<lparr>jobs := jobs db @ [row]\<rparr>))"

definition jobs_by_id_for_user :: "uuid \<Rightarrow> uuid \<Rightarrow> job db_op" where
  "jobs_by_id_for_user jid uid =
     select_op (\<lambda>db. fetch_one (filter (\<lambda>r. j_id r = jid \<and> j_user_id r = uid) (jobs db))) to_job"

definition jobs_by_id_for_worker :: "uuid \<Rightarrow> job db_op" where
  "jobs_by_id_for_worker jid = select_op (\<lambda>db. fetch_one (filter (\<lambda>r. j_id r = jid) (jobs db))) to_job"

definition jobs_page_for_user :: "uuid \<Rightarrow> int \<Rightarrow> int \<Rightarrow> job list db_op" where
  "jobs_page_for_user uid lim off =
     select_op (\<lambda>db. limit_offset lim off
       (order_by True j_created_at (filter (\<lambda>r. j_user_id r = uid) (jobs db)))) (map to_job)"

definition jobs_active_for_user :: "uuid \<Rightarrow> job list db_op" where
  "jobs_active_for_user uid =
     select_op (\<lambda>db. Inr (order_by True j_created_at
       (filter (\<lambda>r. j_user_id r = uid \<and> unfinished r) (jobs db)))) (map to_job)"

text \<open>
  \<open>update jobs set .. where ..\<close>: the checks of the table are applied to the new rows, and the
  matching rows are what \<open>returning\<close> and \<open>rows_affected\<close> report.
\<close>

definition update_jobs ::
  "(job_row \<Rightarrow> bool) \<Rightarrow> (job_row \<Rightarrow> job_row) \<Rightarrow> database \<Rightarrow> (sqlx_error + job_row list) \<times> database" where
  "update_jobs P f db = (
     let hits = map f (filter P (jobs db))
     in if list_all job_row_ok hits then (Inr hits, db\<lparr>jobs := update_where P f (jobs db)\<rparr>)
        else (Inl (OtherDriverError ''check constraint violation''), db))"

definition jobs_mark_running :: "instant \<Rightarrow> uuid \<Rightarrow> job db_op" where
  "jobs_mark_running now jid db = (
     case update_jobs (\<lambda>r. j_id r = jid \<and> j_status r = ''queued'')
                      (\<lambda>r. r\<lparr>j_status := ''running'', j_started_at := Some now\<rparr>) db of
       (Inl e, db') \<Rightarrow> (Inl (map_sqlx e), db')
     | (Inr rows, db') \<Rightarrow> (case fetch_one rows of Inl e \<Rightarrow> (Inl (map_sqlx e), db') | Inr r \<Rightarrow> (Inr (to_job r), db')))"

definition finished_row :: "instant \<Rightarrow> job_status \<Rightarrow> job_row \<Rightarrow> job_row" where
  "finished_row now status r = r\<lparr>
     j_status := status_as_str status,
     j_error_code := map_option error_code_as_str (status_error_code status),
     j_error_message := status_error_message status,
     j_completed_at := Some now\<rparr>"

definition jobs_finish :: "instant \<Rightarrow> uuid \<Rightarrow> job_status \<Rightarrow> job db_op" where
  "jobs_finish now jid status db = (
     case update_jobs (\<lambda>r. j_id r = jid \<and> unfinished r) (finished_row now status) db of
       (Inl e, db') \<Rightarrow> (Inl (map_sqlx e), db')
     | (Inr rows, db') \<Rightarrow> (case fetch_one rows of Inl e \<Rightarrow> (Inl (map_sqlx e), db') | Inr r \<Rightarrow> (Inr (to_job r), db')))"

definition jobs_set_provider_job_id :: "uuid \<Rightarrow> string \<Rightarrow> unit db_op" where
  "jobs_set_provider_job_id jid provider_job_id db = (
     case update_jobs (\<lambda>r. j_id r = jid) (\<lambda>r. r\<lparr>j_provider_job_id := Some provider_job_id\<rparr>) db of
       (Inl e, db') \<Rightarrow> (Inl (map_sqlx e), db')
     | (Inr _, db') \<Rightarrow> (Inr (), db'))"

definition jobs_fail_orphans :: "instant \<Rightarrow> string \<Rightarrow> string \<Rightarrow> nat db_op" where
  "jobs_fail_orphans now code message db = (
     case update_jobs unfinished
            (\<lambda>r. r\<lparr>j_status := ''failed'', j_error_code := Some code, j_error_message := Some message,
                   j_completed_at := Some now\<rparr>) db of
       (Inl e, db') \<Rightarrow> (Inl (map_sqlx e), db')
     | (Inr rows, db') \<Rightarrow> (Inr (length rows), db'))"

definition one_hour :: duration where
  "one_hour = seconds 3600"

definition jobs_count_last_hour :: "instant \<Rightarrow> uuid \<Rightarrow> int db_op" where
  "jobs_count_last_hour now uid =
     select_op (\<lambda>db. Inr (filter (\<lambda>r. j_user_id r = uid \<and> now - one_hour < j_created_at r) (jobs db)))
       (\<lambda>rows. int (length rows))"

definition days :: "int \<Rightarrow> duration" where
  "days n = seconds (n * 86400)"

definition jobs_delete_older_than :: "instant \<Rightarrow> int \<Rightarrow> nat db_op" where
  "jobs_delete_older_than now n db =
     (let P = (\<lambda>r. j_created_at r < now - days n)
      in (Inr (length (filter P (jobs db))), delete_jobs P db))"

definition jobs_set_hidden :: "uuid \<Rightarrow> uuid \<Rightarrow> bool \<Rightarrow> unit db_op" where
  "jobs_set_hidden jid uid hidden db = (
     case update_jobs (\<lambda>r. j_id r = jid \<and> j_user_id r = uid) (\<lambda>r. r\<lparr>j_hidden := hidden\<rparr>) db of
       (Inl e, db') \<Rightarrow> (Inl (map_sqlx e), db')
     | (Inr rows, db') \<Rightarrow> (if length rows = 0 then (Inl StorageNotFound, db') else (Inr (), db')))"

definition jobs_asset_paths :: "uuid \<Rightarrow> uuid \<Rightarrow> string list db_op" where
  "jobs_asset_paths jid uid =
     select_op (\<lambda>db. Inr (filter (\<lambda>a. \<exists>r \<in> set (jobs db).
         j_id r = a_job_id a \<and> j_id r = jid \<and> j_user_id r = uid) (assets db))) (map a_blob_path)"

definition jobs_delete_own :: "uuid \<Rightarrow> uuid \<Rightarrow> nat db_op" where
  "jobs_delete_own jid uid db =
     (let mine = (\<lambda>r. j_id r = jid \<and> j_user_id r = uid)
      in (Inr (length (filter mine (jobs db))), delete_jobs mine db))"

definition jobs_delete_for_user :: "uuid \<Rightarrow> uuid \<Rightarrow> string list db_op" where
  "jobs_delete_for_user jid uid =
     attempt (jobs_asset_paths jid uid) (\<lambda>paths.
     attempt (jobs_delete_own jid uid) (\<lambda>rows_affected.
       if rows_affected = 0 then fail StorageNotFound else succeed paths))"


section \<open>What each statement does\<close>

lemma job_row_ok_finished: "job_row_ok (finished_row now s r)"
  by (cases s) (simp_all add: finished_row_def job_row_ok_def jobs_status_valid_def jobs_error_matches_status_def)

lemma finished_row_simps [simp]:
  "j_id (finished_row now s r) = j_id r" "j_user_id (finished_row now s r) = j_user_id r"
  "row_status (finished_row now s r) = s" "j_completed_at (finished_row now s r) = Some now"
  "j_started_at (finished_row now s r) = j_started_at r" "j_prompt (finished_row now s r) = j_prompt r"
  "j_media_type (finished_row now s r) = j_media_type r" "j_created_at (finished_row now s r) = j_created_at r"
  "j_parameters (finished_row now s r) = j_parameters r" "j_hidden (finished_row now s r) = j_hidden r"
  "j_provider_job_id (finished_row now s r) = j_provider_job_id r"
  by (simp_all add: finished_row_def row_status_def from_columns_to_columns)

definition started_row :: "instant \<Rightarrow> job_row \<Rightarrow> job_row" where
  "started_row now r = r\<lparr>j_status := ''running'', j_started_at := Some now\<rparr>"

lemma started_row_simps [simp]:
  "j_id (started_row now r) = j_id r" "j_user_id (started_row now r) = j_user_id r"
  "row_status (started_row now r) = Running" "j_started_at (started_row now r) = Some now"
  "j_completed_at (started_row now r) = j_completed_at r" "j_prompt (started_row now r) = j_prompt r"
  "j_media_type (started_row now r) = j_media_type r" "j_created_at (started_row now r) = j_created_at r"
  "j_parameters (started_row now r) = j_parameters r" "j_hidden (started_row now r) = j_hidden r"
  "j_provider_job_id (started_row now r) = j_provider_job_id r"
  by (simp_all add: started_row_def row_status_def from_columns_def)

lemma row_status_Queued: "job_row_ok r \<Longrightarrow> row_status r = Queued \<longleftrightarrow> j_status r = ''queued''"
  by (auto simp: row_status_def from_columns_def job_row_ok_def jobs_status_valid_def)

lemma row_status_Running: "job_row_ok r \<Longrightarrow> row_status r = Running \<longleftrightarrow> j_status r = ''running''"
  by (auto simp: row_status_def from_columns_def job_row_ok_def jobs_status_valid_def)

lemma update_jobs_ok:
  assumes "db_ok db" and "\<And>r. r \<in> set (jobs db) \<Longrightarrow> P r \<Longrightarrow> job_row_ok r \<Longrightarrow> job_row_ok (f r)"
  shows "update_jobs P f db = (Inr (map f (filter P (jobs db))), db\<lparr>jobs := update_where P f (jobs db)\<rparr>)"
  using assms db_okD(5) [OF assms(1)] by (auto simp: update_jobs_def list_all_iff)

lemma jobs_mark_running_eq:
  assumes "db_ok db"
  shows "jobs_mark_running now jid db = (case job_table db jid of
      Some r \<Rightarrow> if j_status r = ''queued''
        then (Inr (to_job (started_row now r)),
              db\<lparr>jobs := update_where (\<lambda>r. j_id r = jid \<and> j_status r = ''queued'') (started_row now) (jobs db)\<rparr>)
        else (Inl StorageNotFound, db)
    | None \<Rightarrow> (Inl StorageNotFound, db))"
proof -
  note hits = filter_row_by [OF db_okD(3) [OF assms], of jid "\<lambda>r. j_status r = ''queued''"]
  have "update_jobs (\<lambda>r. j_id r = jid \<and> j_status r = ''queued'') (started_row now) db =
    (Inr (map (started_row now) (filter (\<lambda>r. j_id r = jid \<and> j_status r = ''queued'') (jobs db))),
     db\<lparr>jobs := update_where (\<lambda>r. j_id r = jid \<and> j_status r = ''queued'') (started_row now) (jobs db)\<rparr>)"
    by (rule update_jobs_ok [OF assms])
      (auto simp: job_row_ok_def jobs_status_valid_def jobs_error_matches_status_def started_row_def)
  then show ?thesis
    using hits
    by (auto simp: jobs_mark_running_def started_row_def [abs_def] fetch_one_def update_where_no_match
        split: option.splits)
qed

lemma jobs_finish_eq:
  assumes "db_ok db"
  shows "jobs_finish now jid status db = (case job_table db jid of
      Some r \<Rightarrow> if unfinished r
        then (Inr (to_job (finished_row now status r)),
              db\<lparr>jobs := update_where (\<lambda>r. j_id r = jid \<and> unfinished r) (finished_row now status) (jobs db)\<rparr>)
        else (Inl StorageNotFound, db)
    | None \<Rightarrow> (Inl StorageNotFound, db))"
proof -
  note hits = filter_row_by [OF db_okD(3) [OF assms], of jid unfinished]
  have "update_jobs (\<lambda>r. j_id r = jid \<and> unfinished r) (finished_row now status) db =
    (Inr (map (finished_row now status) (filter (\<lambda>r. j_id r = jid \<and> unfinished r) (jobs db))),
     db\<lparr>jobs := update_where (\<lambda>r. j_id r = jid \<and> unfinished r) (finished_row now status) (jobs db)\<rparr>)"
    by (rule update_jobs_ok [OF assms]) (simp add: job_row_ok_finished)
  then show ?thesis
    using hits by (auto simp: jobs_finish_def fetch_one_def update_where_no_match split: option.splits)
qed

lemma jobs_set_hidden_eq:
  assumes "db_ok db"
  shows "jobs_set_hidden jid uid hidden db = (case job_table db jid of
      Some r \<Rightarrow> if j_user_id r = uid
        then (Inr (), db\<lparr>jobs := update_where (\<lambda>r. j_id r = jid \<and> j_user_id r = uid) (\<lambda>r. r\<lparr>j_hidden := hidden\<rparr>) (jobs db)\<rparr>)
        else (Inl StorageNotFound, db)
    | None \<Rightarrow> (Inl StorageNotFound, db))"
proof -
  note hits = filter_row_by [OF db_okD(3) [OF assms], of jid "\<lambda>r. j_user_id r = uid"]
  have "update_jobs (\<lambda>r. j_id r = jid \<and> j_user_id r = uid) (\<lambda>r. r\<lparr>j_hidden := hidden\<rparr>) db =
    (Inr (map (\<lambda>r. r\<lparr>j_hidden := hidden\<rparr>) (filter (\<lambda>r. j_id r = jid \<and> j_user_id r = uid) (jobs db))),
     db\<lparr>jobs := update_where (\<lambda>r. j_id r = jid \<and> j_user_id r = uid) (\<lambda>r. r\<lparr>j_hidden := hidden\<rparr>) (jobs db)\<rparr>)"
    by (rule update_jobs_ok [OF assms])
      (auto simp: job_row_ok_def jobs_status_valid_def jobs_error_matches_status_def)
  then show ?thesis
    using hits by (auto simp: jobs_set_hidden_def update_where_no_match split: option.splits)
qed

lemma jobs_delete_for_user_eq:
  "jobs_delete_for_user jid uid db =
     (let mine = (\<lambda>r. j_id r = jid \<and> j_user_id r = uid) in
      if filter mine (jobs db) = [] then (Inl StorageNotFound, delete_jobs mine db)
      else (Inr (map a_blob_path (filter (\<lambda>a. \<exists>r \<in> set (jobs db). j_id r = a_job_id a \<and> mine r) (assets db))),
            delete_jobs mine db))"
  by (auto simp: jobs_delete_for_user_def jobs_asset_paths_def jobs_delete_own_def action_defs
      select_op_def Let_def)

lemma delete_jobs_none:
  assumes "db_ok db" and "filter P (jobs db) = []"
  shows "delete_jobs P db = db"
proof -
  have "filter (\<lambda>r. \<not> P r) (jobs db) = jobs db"
    using assms(2) by (simp add: filter_empty_conv filter_id_conv)
  moreover have "filter (\<lambda>a. a_job_id a \<in> j_id ` set (jobs db)) (assets db) = assets db"
    using db_okD(7) [OF assms(1)] by (simp add: filter_id_conv)
  ultimately show ?thesis by (simp add: delete_jobs_def Let_def)
qed

lemma keeps_update_jobs:
  assumes "\<And>r. j_id (f r) = j_id r" and "\<And>r. j_user_id (f r) = j_user_id r"
  shows "db_ok db \<Longrightarrow> db_ok (snd (update_jobs P f db))"
  unfolding update_jobs_def Let_def
  using assms by (auto intro!: db_ok_update_jobs simp: list_all_iff)

lemma keeps_jobs_create [keeps_intros]: "keeps db_ok (jobs_create now fresh new)"
proof (rule keepsI)
  fix db assume db: "db_ok db"
  then show "db_ok (snd (jobs_create now fresh new db))"
    by (auto simp: jobs_create_def Let_def db_ok_def job_row_ok_def jobs_status_valid_def
        jobs_error_matches_status_def)
qed

lemma keeps_jobs_reads [keeps_intros]:
  "keeps I (jobs_by_id_for_user jid uid)" "keeps I (jobs_by_id_for_worker jid)"
  "keeps I (jobs_page_for_user uid lim off)" "keeps I (jobs_active_for_user uid)"
  "keeps I (jobs_count_last_hour now uid)" "keeps I (jobs_asset_paths jid uid)"
  by (simp_all add: jobs_by_id_for_user_def jobs_by_id_for_worker_def jobs_page_for_user_def
      jobs_active_for_user_def jobs_count_last_hour_def jobs_asset_paths_def keeps_select)

lemma update_jobs_keeps:
  "update_jobs P f db = (res, db') \<Longrightarrow> db_ok db \<Longrightarrow> (\<And>r. j_id (f r) = j_id r) \<Longrightarrow>
   (\<And>r. j_user_id (f r) = j_user_id r) \<Longrightarrow> db_ok db'"
  using keeps_update_jobs [of f db P] by simp

lemma keeps_jobs_updates [keeps_intros]:
  "keeps db_ok (jobs_mark_running now jid)" "keeps db_ok (jobs_finish now jid status)"
  "keeps db_ok (jobs_set_provider_job_id jid s)" "keeps db_ok (jobs_fail_orphans now code message)"
  "keeps db_ok (jobs_set_hidden jid uid hidden)"
  by (auto simp: keeps_def jobs_mark_running_def jobs_finish_def jobs_set_provider_job_id_def
      jobs_fail_orphans_def jobs_set_hidden_def split: prod.splits sum.splits dest!: update_jobs_keeps)

lemma keeps_jobs_deletes [keeps_intros]:
  "keeps db_ok (jobs_delete_older_than now n)" "keeps db_ok (jobs_delete_own jid uid)"
  "keeps db_ok (jobs_delete_for_user jid uid)"
  by (auto simp: keeps_def jobs_delete_older_than_def jobs_delete_own_def Let_def
      jobs_delete_for_user_eq db_ok_delete_jobs)

section \<open>Ownership\<close>

text \<open>
  The contract of every access a request can make to a row it names: it succeeds exactly for
  the owner, and for anyone else it fails as it does for a row that is not there and
  changes nothing.
\<close>

locale owner_scoped =
  fixes access :: "uuid \<Rightarrow> uuid \<Rightarrow> 'a db_op" and owner :: "database \<Rightarrow> uuid \<Rightarrow> uuid option"
  assumes granted: "db_ok db \<Longrightarrow> owner db i = Some u \<Longrightarrow> \<exists>x. fst (access i u db) = Inr x"
    and denied: "db_ok db \<Longrightarrow> owner db i \<noteq> Some u \<Longrightarrow> access i u db = (Inl StorageNotFound, db)"
begin

lemma succeeds_iff: "db_ok db \<Longrightarrow> (\<exists>x. fst (access i u db) = Inr x) \<longleftrightarrow> owner db i = Some u"
  using granted denied by (metis Inl_Inr_False fst_conv)

lemma only_error: "db_ok db \<Longrightarrow> fst (access i u db) = Inl e \<Longrightarrow> e = StorageNotFound"
  using granted denied by (metis Inl_Inr_False fst_conv sum.inject(1))

lemma foreign_is_missing:
  "db_ok db \<Longrightarrow> owner db i = Some v \<Longrightarrow> v \<noteq> u \<Longrightarrow> owner db k = None \<Longrightarrow> access i u db = access k u db"
  by (simp add: denied)

end

definition job_owner :: "database \<Rightarrow> uuid \<Rightarrow> uuid option" where
  "job_owner db i = map_option j_user_id (job_table db i)"

lemma job_owner_iff: "job_owner db i = Some u \<longleftrightarrow> (\<exists>r. job_table db i = Some r \<and> j_user_id r = u)"
  by (auto simp: job_owner_def)

lemma jobs_by_id_for_user_eq:
  assumes "db_ok db"
  shows "jobs_by_id_for_user jid uid db = (case job_table db jid of
      Some r \<Rightarrow> if j_user_id r = uid then (Inr (to_job r), db) else (Inl StorageNotFound, db)
    | None \<Rightarrow> (Inl StorageNotFound, db))"
  using filter_row_by [OF db_okD(3) [OF assms], of jid "\<lambda>r. j_user_id r = uid"]
  by (simp add: jobs_by_id_for_user_def select_op_def fetch_one_def split: option.split)

lemma jobs_by_id_for_worker_eq:
  assumes "db_ok db"
  shows "jobs_by_id_for_worker jid db = (case job_table db jid of
      Some r \<Rightarrow> (Inr (to_job r), db) | None \<Rightarrow> (Inl StorageNotFound, db))"
  using filter_row_by [OF db_okD(3) [OF assms], of jid "\<lambda>r. True"]
  by (simp add: jobs_by_id_for_worker_def select_op_def fetch_one_def split: option.split)

lemma own_job_filter:
  assumes "db_ok db"
  shows "filter (\<lambda>r. j_id r = jid \<and> j_user_id r = uid) (jobs db) = [] \<longleftrightarrow> job_owner db jid \<noteq> Some uid"
  by (auto simp: filter_row_by [OF db_okD(3) [OF assms]] job_owner_def split: option.split)

interpretation job_reads: owner_scoped jobs_by_id_for_user job_owner
  by unfold_locales (auto simp: jobs_by_id_for_user_eq job_owner_def split: option.splits)

interpretation job_hides: owner_scoped "\<lambda>i u. jobs_set_hidden i u hidden" job_owner for hidden
  by unfold_locales (auto simp: jobs_set_hidden_eq job_owner_def split: option.splits)

interpretation job_deletes: owner_scoped jobs_delete_for_user job_owner
  by unfold_locales (auto simp: jobs_delete_for_user_eq Let_def own_job_filter delete_jobs_none)

section \<open>The listing\<close>

text \<open>
  \<open>list_predicates\<close> assembles the text of the \<open>where\<close> clause from fixed fragments and counts
  the placeholders it hands out.
\<close>

abbreviation SQ :: string where "SQ \<equiv> [CHR 0x27]"

definition list_predicates :: "list_filter \<Rightarrow> string \<times> bool \<times> bool" where
  "list_predicates filt = (
     let clauses = [''true''];
         next = 1;
         by_user = filter_user_id filt \<noteq> None;
         (clauses, next) = (if by_user then (clauses @ [''j.user_id = $'' @ dec next], next + 1) else (clauses, next));
         by_media = filter_media_type filt \<noteq> None;
         clauses = (if by_media then clauses @ [''j.media_type = $'' @ dec next @ ''::media_type''] else clauses);
         clauses = (if exclude_hidden filt then clauses @ [''not j.hidden''] else clauses);
         clauses = (if only_succeeded filt
           then clauses @ [''j.status = '' @ SQ @ ''succeeded'' @ SQ @ '' and a.id is not null''] else clauses)
     in (join '' and '' clauses, by_user, by_media))"

datatype bind = BindUuid uuid | BindText string | BindInt int

text \<open>The parameters bound for the predicates, in the order the code binds them.\<close>

definition list_binds :: "list_filter \<Rightarrow> bind list" where
  "list_binds filt =
     (case filter_user_id filt of Some u \<Rightarrow> [BindUuid u] | None \<Rightarrow> []) @
     (case filter_media_type filt of Some m \<Rightarrow> [BindText (media_as_str m)] | None \<Rightarrow> [])"

text \<open>
  What the server makes of the text: a conjunction of atoms on the joined row of a job and
  its asset, \<open>None\<close> for text it would refuse.
\<close>

function split_sub :: "string \<Rightarrow> string \<Rightarrow> string list" where
  "split_sub p s = (case split_once p s of None \<Rightarrow> [s]
     | Some (a, b) \<Rightarrow> if length b < length s then a # split_sub p b else [s])"
  by pat_completeness auto
termination by (relation "measure (\<lambda>(p, s). length s)") auto

declare split_sub.simps [simp del]

definition placeholder :: "bind list \<Rightarrow> string \<Rightarrow> bind option" where
  "placeholder binds s = (case parse_unsigned u16_max s of
     Some n \<Rightarrow> if 1 \<le> n \<and> n \<le> length binds then Some (binds ! (n - 1)) else None
   | None \<Rightarrow> None)"

definition eval_atom :: "bind list \<Rightarrow> job_row \<times> asset_row option \<Rightarrow> string \<Rightarrow> bool option" where
  "eval_atom binds row s = (
     let (j, a) = row in
     if s = ''true'' then Some True
     else if starts_with ''j.user_id = $'' s then
       (case placeholder binds (drop 13 s) of Some (BindUuid u) \<Rightarrow> Some (j_user_id j = u) | _ \<Rightarrow> None)
     else if starts_with ''j.media_type = $'' s \<and> ends_with ''::media_type'' s then
       (case placeholder binds (take (length s - 28) (drop 16 s)) of
          Some (BindText m) \<Rightarrow> Some (media_as_str (j_media_type j) = m) | _ \<Rightarrow> None)
     else if s = ''not j.hidden'' then Some (\<not> j_hidden j)
     else if s = ''j.status = '' @ SQ @ ''succeeded'' @ SQ then Some (j_status j = ''succeeded'')
     else if s = ''a.id is not null'' then Some (a \<noteq> None)
     else None)"

definition eval_where :: "bind list \<Rightarrow> string \<Rightarrow> job_row \<times> asset_row option \<Rightarrow> bool option" where
  "eval_where binds s row =
     fold (\<lambda>atom acc. case (acc, eval_atom binds row atom) of (Some p, Some q) \<Rightarrow> Some (p \<and> q) | _ \<Rightarrow> None)
       (split_sub '' and '' s) (Some True)"

text \<open>What a filter promises to select.\<close>

definition list_matches :: "list_filter \<Rightarrow> job_row \<times> asset_row option \<Rightarrow> bool" where
  "list_matches filt row \<longleftrightarrow> (let (j, a) = row in
     (case filter_user_id filt of None \<Rightarrow> True | Some u \<Rightarrow> j_user_id j = u) \<and>
     (case filter_media_type filt of None \<Rightarrow> True | Some m \<Rightarrow> j_media_type j = m) \<and>
     (exclude_hidden filt \<longrightarrow> \<not> j_hidden j) \<and>
     (only_succeeded filt \<longrightarrow> j_status j = ''succeeded'' \<and> a \<noteq> None))"

definition predicate_atoms :: "bool \<Rightarrow> bool \<Rightarrow> bool \<Rightarrow> bool \<Rightarrow> string list" where
  "predicate_atoms u m h s = [''true''] @ (if u then [''j.user_id = $1''] else []) @
     (if m then [''j.media_type = $'' @ (if u then ''2'' else ''1'') @ ''::media_type''] else []) @
     (if h then [''not j.hidden''] else []) @
     (if s then [''j.status = '' @ SQ @ ''succeeded'' @ SQ, ''a.id is not null''] else [])"

lemma split_predicate_atoms:
  "split_sub '' and '' (join '' and '' (predicate_atoms u m h s)) = predicate_atoms u m h s"
proof -
  have "\<forall>u m h s. split_sub '' and '' (join '' and '' (predicate_atoms u m h s)) = predicate_atoms u m h s"
    by code_simp
  then show ?thesis by blast
qed

lemma dec_small: "dec 1 = ''1''" "dec 2 = ''2''"
  by (code_simp)+

lemma list_predicates_text:
  "fst (list_predicates filt) = join '' and ''
     (predicate_atoms (filter_user_id filt \<noteq> None) (filter_media_type filt \<noteq> None) (exclude_hidden filt) (only_succeeded filt))"
  by (simp add: list_predicates_def predicate_atoms_def Let_def dec_small numeral_2_eq_2 [symmetric] del: One_nat_def)

lemma placeholder_one_two:
  "placeholder (b # bs) ''1'' = Some b" "placeholder (b # c # bs) ''2'' = Some c"
  using parse_unsigned_dec [of 1 u16_max] parse_unsigned_dec [of 2 u16_max]
  by (simp_all add: placeholder_def dec_small [unfolded One_nat_def])

lemma eval_atoms:
  "eval_atom bs (j, a) ''true'' = Some True"
  "eval_atom bs (j, a) ''j.user_id = $1'' =
     (case placeholder bs ''1'' of Some (BindUuid u) \<Rightarrow> Some (j_user_id j = u) | _ \<Rightarrow> None)"
  "eval_atom bs (j, a) ''j.media_type = $1::media_type'' =
     (case placeholder bs ''1'' of Some (BindText m) \<Rightarrow> Some (media_as_str (j_media_type j) = m) | _ \<Rightarrow> None)"
  "eval_atom bs (j, a) ''j.media_type = $2::media_type'' =
     (case placeholder bs ''2'' of Some (BindText m) \<Rightarrow> Some (media_as_str (j_media_type j) = m) | _ \<Rightarrow> None)"
  "eval_atom bs (j, a) ''not j.hidden'' = Some (\<not> j_hidden j)"
  "eval_atom bs (j, a) (''j.status = '' @ SQ @ ''succeeded'' @ SQ) = Some (j_status j = ''succeeded'')"
  "eval_atom bs (j, a) ''a.id is not null'' = Some (a \<noteq> None)"
  by (simp_all add: eval_atom_def starts_with_def ends_with_def)

text \<open>The assembled text, read with the parameters in the order they are bound, is the filter.\<close>

lemma eval_list_predicates:
  "eval_where (list_binds filt) (fst (list_predicates filt)) row = Some (list_matches filt row)"
proof (cases row)
  case (Pair j a)
  show ?thesis
    unfolding eval_where_def list_predicates_text split_predicate_atoms Pair
    by (auto simp: predicate_atoms_def list_binds_def list_matches_def eval_atoms [simplified]
        placeholder_one_two [simplified] media_types.encode_inj split: option.split)
qed

text \<open>The joins of the two statements.\<close>

definition left_join_assets :: "database \<Rightarrow> job_row \<Rightarrow> (job_row \<times> asset_row option) list" where
  "left_join_assets db j = (case filter (\<lambda>a. a_job_id a = j_id j) (assets db) of
     [] \<Rightarrow> [(j, None)] | found \<Rightarrow> map (\<lambda>a. (j, Some a)) found)"

definition list_rows :: "database \<Rightarrow> (job_row \<times> user_row \<times> asset_row option) list" where
  "list_rows db = concat (map (\<lambda>j. concat (map (\<lambda>u.
     map (\<lambda>(j, a). (j, u, a)) (left_join_assets db j)) (filter (\<lambda>u. u_id u = j_user_id j) (users db)))) (jobs db))"

text \<open>Rows for which the text evaluates; \<open>None\<close> when the server refuses it.\<close>

definition where_rows :: "bind list \<Rightarrow> string \<Rightarrow> ('r \<Rightarrow> job_row \<times> asset_row option) \<Rightarrow> 'r list \<Rightarrow> sqlx_error + 'r list" where
  "where_rows binds s pick rows =
     (if list_ex (\<lambda>r. eval_where binds s (pick r) = None) rows then Inl (OtherDriverError ''syntax error'')
      else Inr (filter (\<lambda>r. eval_where binds s (pick r) = Some True) rows))"

definition to_list_item :: "uuid \<Rightarrow> job_row \<times> user_row \<times> asset_row option \<Rightarrow> job_list_item" where
  "to_list_item viewer row = (let (j, u, a) = row in \<lparr>
     item_id = j_id j,
     item_media_type = unwrap_or Image (media_from_str (media_as_str (j_media_type j))),
     item_prompt = j_prompt j,
     item_status = from_columns (j_status j) (j_error_code j) (j_error_message j),
     item_created_at = j_created_at j,
     item_asset_id = map_option a_id a,
     item_owner_name = u_display_name u,
     item_hidden = j_hidden j,
     item_owned_by_viewer = (j_user_id j = viewer)\<rparr>)"

definition jobs_list :: "list_filter \<Rightarrow> uuid \<Rightarrow> job_list_item list db_op" where
  "jobs_list filt viewer = (
     let (predicates, by_user, by_media) = list_predicates filt
     in select_op (\<lambda>db.
          case where_rows (list_binds filt) predicates (\<lambda>(j, u, a). (j, a)) (list_rows db) of
            Inl e \<Rightarrow> Inl e
          | Inr rows \<Rightarrow> limit_offset (page_limit filt) (page_offset filt)
              (order_by (newest_first filt) (\<lambda>(j, u, a). j_created_at j) rows))
        (map (to_list_item viewer)))"

definition jobs_count :: "list_filter \<Rightarrow> int db_op" where
  "jobs_count filt = (
     let (predicates, by_user, by_media) = list_predicates filt
     in select_op (\<lambda>db. where_rows (list_binds filt) predicates (\<lambda>r. r) (concat (map (left_join_assets db) (jobs db))))
        (\<lambda>rows. int (length rows)))"

lemma where_rows_predicates:
  "where_rows (list_binds filt) (fst (list_predicates filt)) pick rows = Inr (filter (\<lambda>r. list_matches filt (pick r)) rows)"
  by (simp add: where_rows_def eval_list_predicates list_ex_iff)

lemma jobs_list_eq:
  "jobs_list filt viewer db = (
     case limit_offset (page_limit filt) (page_offset filt)
       (order_by (newest_first filt) (\<lambda>(j, u, a). j_created_at j)
         (filter (\<lambda>(j, u, a). list_matches filt (j, a)) (list_rows db))) of
       Inl e \<Rightarrow> (Inl (map_sqlx e), db) | Inr rows \<Rightarrow> (Inr (map (to_list_item viewer) rows), db))"
  unfolding jobs_list_def select_op_def case_prod_unfold Let_def
  by (simp only: where_rows_predicates sum.case)

lemma jobs_count_eq:
  "jobs_count filt db =
     (Inr (int (length (filter (list_matches filt) (concat (map (left_join_assets db) (jobs db)))))), db)"
  using where_rows_predicates [of filt "\<lambda>r. r"]
  by (simp add: jobs_count_def select_op_def case_prod_unfold Let_def)

lemma keeps_jobs_list [keeps_intros]: "keeps I (jobs_list filt viewer)" "keeps I (jobs_count filt)"
  by (simp_all add: jobs_list_def jobs_count_def case_prod_unfold Let_def keeps_select)

lemma map_concat_map: "map f (concat (map g xs)) = concat (map (\<lambda>x. map f (g x)) xs)"
  by (induction xs) simp_all

text \<open>
  The two statements join differently, but a job has exactly one owner, so they range over the
  same rows.
\<close>

lemma list_rows_pairs:
  assumes "db_ok db"
  shows "map (\<lambda>(j, u, a). (j, a)) (list_rows db) = concat (map (left_join_assets db) (jobs db))"
proof -
  have one: "map (\<lambda>(j, u, a). (j, a)) (concat (map (\<lambda>u. map (\<lambda>(j, a). (j, u, a)) (left_join_assets db j))
      (filter (\<lambda>u. u_id u = j_user_id j) (users db)))) = left_join_assets db j" if j: "j \<in> set (jobs db)" for j
  proof -
    obtain u where u: "u \<in> set (users db)" "u_id u = j_user_id j"
      using db_okD(6) [OF assms j] by auto
    then have "filter (\<lambda>u. u_id u = j_user_id j) (users db) = [u]"
      using filter_distinct_key [OF db_okD(1) [OF assms] u(1)] by simp
    then show ?thesis by (simp add: case_prod_unfold comp_def)
  qed
  then have "map (\<lambda>(j, u, a). (j, a)) (list_rows db) = concat (map (left_join_assets db) (jobs db))"
    unfolding list_rows_def map_concat_map by (intro arg_cong [where f = concat] map_cong refl) blast
  then show ?thesis .
qed

lemma jobs_count_rows:
  assumes "db_ok db"
  shows "jobs_count filt db = (Inr (int (length (filter (\<lambda>(j, u, a). list_matches filt (j, a)) (list_rows db)))), db)"
proof -
  have "length (filter (\<lambda>(j, u, a). list_matches filt (j, a)) (list_rows db)) =
    length (filter (list_matches filt) (map (\<lambda>(j, u, a). (j, a)) (list_rows db)))"
    by (simp add: filter_map comp_def case_prod_unfold)
  then show ?thesis by (simp add: jobs_count_eq list_rows_pairs [OF assms])
qed

end
