(* ===== verification/Storage.thy ===== *)
theory Storage
  imports Storage_Jobs "HOL-Library.Multiset"
begin

text \<open>
  The repositories of assets, users and the audit trail (\<open>crates/storage/src/assets.rs\<close>,
  \<open>users.rs\<close>, \<open>audit.rs\<close>), the step relation of the database under all statements the program
  issues, and the lifecycle and ownership theorems that hold under any interleaving of them.
\<close>

section \<open>Assets\<close>

definition to_asset :: "asset_row \<Rightarrow> asset" where
  "to_asset row = \<lparr>
     asset_id = a_id row,
     asset_job_id = a_job_id row,
     asset_blob_path = a_blob_path row,
     asset_content_type = a_content_type row,
     asset_size_bytes = a_size_bytes row,
     asset_duration_ms = a_duration_ms row,
     asset_width = a_width row,
     asset_height = a_height row,
     asset_created_at = a_created_at row\<rparr>"

lemma to_asset_simps [simp]:
  "asset_id (to_asset r) = a_id r" "asset_job_id (to_asset r) = a_job_id r"
  "asset_blob_path (to_asset r) = a_blob_path r" "asset_content_type (to_asset r) = a_content_type r"
  "asset_size_bytes (to_asset r) = a_size_bytes r"
  by (simp_all add: to_asset_def)

definition assets_create :: "instant \<Rightarrow> uuid \<Rightarrow> new_asset \<Rightarrow> asset db_op" where
  "assets_create now fresh new db = (
     let row = \<lparr>a_id = fresh, a_job_id = na_job_id new, a_blob_path = na_blob_path new,
                a_content_type = na_content_type new, a_size_bytes = na_size_bytes new,
                a_duration_ms = na_duration_ms new, a_width = na_width new, a_height = na_height new,
                a_created_at = now\<rparr>
     in if fresh \<in> a_id ` set (assets db) then (Inl (map_sqlx UniqueViolation), db)
        else if na_job_id new \<notin> j_id ` set (jobs db)
          then (Inl (map_sqlx (OtherDriverError ''foreign key violation'')), db)
        else if \<not> assets_size_non_negative row
          then (Inl (map_sqlx (OtherDriverError ''check constraint violation'')), db)
        else (Inr (to_asset row), db\<lparr>assets := assets db @ [row]\<rparr>))"

definition assets_for_job :: "uuid \<Rightarrow> asset option db_op" where
  "assets_for_job jid = select_op
     (\<lambda>db. limit_offset 1 0 (order_by False a_created_at (filter (\<lambda>a. a_job_id a = jid) (assets db))))
     (\<lambda>rows. case rows of [] \<Rightarrow> None | r # _ \<Rightarrow> Some (to_asset r))"

definition assets_by_id_for_user :: "uuid \<Rightarrow> uuid \<Rightarrow> asset db_op" where
  "assets_by_id_for_user aid uid = select_op
     (\<lambda>db. fetch_one (filter (\<lambda>a. a_id a = aid \<and>
        (\<exists>j \<in> set (jobs db). j_id j = a_job_id a \<and> j_user_id j = uid)) (assets db))) to_asset"

definition assets_paths_older_than :: "instant \<Rightarrow> int \<Rightarrow> string list db_op" where
  "assets_paths_older_than now n = select_op
     (\<lambda>db. Inr (filter (\<lambda>a. \<exists>j \<in> set (jobs db). j_id j = a_job_id a \<and> j_created_at j < now - days n) (assets db)))
     (map a_blob_path)"

section \<open>Users\<close>

definition to_user :: "user_row \<Rightarrow> user" where
  "to_user row = \<lparr>user_id = u_id row, entra_oid = u_entra_oid row, user_email = u_email row,
     display_name = u_display_name row, user_created_at = u_created_at row, last_login_at = u_last_login_at row\<rparr>"

definition users_upsert_on_login ::
  "instant \<Rightarrow> uuid \<Rightarrow> string \<Rightarrow> string option \<Rightarrow> string \<Rightarrow> user db_op" where
  "users_upsert_on_login now fresh oid email name db = (
     let refresh = (\<lambda>r. r\<lparr>u_email := email, u_display_name := name, u_last_login_at := now\<rparr>);
         row = \<lparr>u_id = fresh, u_entra_oid = oid, u_email = email, u_display_name = name,
                u_created_at = now, u_last_login_at = now\<rparr>
     in case find (\<lambda>r. u_entra_oid r = oid) (users db) of
          Some r \<Rightarrow> (Inr (to_user (refresh r)),
                     db\<lparr>users := update_where (\<lambda>r. u_entra_oid r = oid) refresh (users db)\<rparr>)
        | None \<Rightarrow> if fresh \<in> u_id ` set (users db) then (Inl (map_sqlx UniqueViolation), db)
                  else (Inr (to_user row), db\<lparr>users := users db @ [row]\<rparr>))"

definition users_by_id :: "uuid \<Rightarrow> user db_op" where
  "users_by_id uid = select_op (\<lambda>db. fetch_one (filter (\<lambda>r. u_id r = uid) (users db))) to_user"

section \<open>Audit trail\<close>

definition MAX_USER_AGENT :: nat where
  "MAX_USER_AGENT = 512"

definition truncate_user_agent :: "string \<Rightarrow> string" where
  "truncate_user_agent value = take (floor_boundary value (min (length value) MAX_USER_AGENT)) value"

text \<open>\<open>inet_ok\<close> is what the server's cast to \<open>inet\<close> accepts.\<close>

definition audit_record :: "(string \<Rightarrow> bool) \<Rightarrow> instant \<Rightarrow> audit_entry \<Rightarrow> unit db_op" where
  "audit_record inet_ok now entry db = (
     let row = \<lparr>l_user_id = entry_user_id entry, l_action = audit_action_as_str (entry_action entry),
                l_entity = entry_entity entry, l_entity_id = entry_entity_id entry, l_ip = entry_ip entry,
                l_user_agent = map_option truncate_user_agent (entry_user_agent entry), l_created_at = now\<rparr>
     in if \<not> pred_option inet_ok (entry_ip entry) then (Inl (map_sqlx (OtherDriverError ''invalid input syntax'')), db)
        else if \<not> set_option (entry_user_id entry) \<subseteq> u_id ` set (users db)
          then (Inl (map_sqlx (OtherDriverError ''foreign key violation'')), db)
        else (Inr (), db\<lparr>audit_log := audit_log db @ [row]\<rparr>))"

lemma truncate_user_agent_bounds:
  "length (truncate_user_agent s) \<le> MAX_USER_AGENT"
  "utf8_valid s \<Longrightarrow> utf8_valid (truncate_user_agent s)"
  "length s \<le> MAX_USER_AGENT \<Longrightarrow> truncate_user_agent s = s"
  using floor_boundary_le [of s "min (length s) MAX_USER_AGENT"]
    floor_boundary_boundary [of s "min (length s) MAX_USER_AGENT"]
    floor_boundary_greatest [of s "length s" "length s"]
  by (auto simp: truncate_user_agent_def take_boundary_valid is_char_boundary_def min_def)

section \<open>Constraints are kept\<close>

lemma keeps_assets_create [keeps_intros]: "keeps db_ok (assets_create now fresh new)"
  by (auto simp: keeps_def assets_create_def Let_def db_ok_def)

lemma keeps_asset_reads [keeps_intros]:
  "keeps I (assets_for_job jid)" "keeps I (assets_by_id_for_user aid uid)" "keeps I (assets_paths_older_than now n)"
  "keeps I (users_by_id uid)"
  by (simp_all add: assets_for_job_def assets_by_id_for_user_def assets_paths_older_than_def users_by_id_def keeps_select)

lemma keeps_users_upsert [keeps_intros]: "keeps db_ok (users_upsert_on_login now fresh oid email name)"
proof (rule keepsI)
  fix db assume db: "db_ok db"
  let ?f = "\<lambda>r. r\<lparr>u_email := email, u_display_name := name, u_last_login_at := now\<rparr>"
  have ids: "map u_id (update_where P ?f (users db)) = map u_id (users db)"
    "map u_entra_oid (update_where P ?f (users db)) = map u_entra_oid (users db)" for P
    by (simp_all add: map_update_where)
  then have ids': "u_id ` set (update_where P ?f (users db)) = u_id ` set (users db)" for P
    by (metis set_map)
  show "db_ok (snd (users_upsert_on_login now fresh oid email name db))"
    using db by (auto simp: users_upsert_on_login_def Let_def db_ok_def ids ids' find_None_iff split: option.split)
qed

lemma keeps_audit_record [keeps_intros]: "keeps db_ok (audit_record inet_ok now entry)"
  by (auto simp: keeps_def audit_record_def Let_def db_ok_def)

section \<open>Ownership of assets\<close>

definition asset_owner :: "database \<Rightarrow> uuid \<Rightarrow> uuid option" where
  "asset_owner db i = (case asset_table db i of None \<Rightarrow> None | Some a \<Rightarrow> job_owner db (a_job_id a))"

lemma assets_by_id_for_user_eq:
  assumes "db_ok db"
  shows "assets_by_id_for_user aid uid db = (case asset_table db aid of
      Some a \<Rightarrow> if job_owner db (a_job_id a) = Some uid then (Inr (to_asset a), db) else (Inl StorageNotFound, db)
    | None \<Rightarrow> (Inl StorageNotFound, db))"
proof -
  have "(\<exists>j \<in> set (jobs db). j_id j = i \<and> j_user_id j = uid) \<longleftrightarrow> job_owner db i = Some uid" for i
    using row_by_iff [OF db_okD(3) [OF assms]] by (auto simp: job_owner_def)
  then show ?thesis
    using filter_row_by [OF db_okD(4) [OF assms], of aid "\<lambda>a. job_owner db (a_job_id a) = Some uid"]
    by (simp add: assets_by_id_for_user_def select_op_def fetch_one_def split: option.split)
qed

interpretation asset_reads: owner_scoped assets_by_id_for_user asset_owner
  by unfold_locales (auto simp: assets_by_id_for_user_eq asset_owner_def split: option.splits)

section \<open>The database under all statements\<close>

text \<open>
  One step of the database is one statement of the program, whoever issues it and in
  whichever order: requests, workers, the retention sweep and the restart interleave freely.
\<close>

inductive db_step :: "(string \<Rightarrow> bool) \<Rightarrow> database \<Rightarrow> database \<Rightarrow> bool" for inet_ok where
  create_job: "db_step inet_ok db (snd (jobs_create now fresh new db))"
| mark_running: "db_step inet_ok db (snd (jobs_mark_running now jid db))"
| finish_job: "is_terminal status \<Longrightarrow> db_step inet_ok db (snd (jobs_finish now jid status db))"
| set_provider_job_id: "db_step inet_ok db (snd (jobs_set_provider_job_id jid s db))"
| fail_orphans: "db_step inet_ok db (snd (jobs_fail_orphans now (error_code_as_str code) message db))"
| delete_older_than: "db_step inet_ok db (snd (jobs_delete_older_than now n db))"
| set_hidden: "db_step inet_ok db (snd (jobs_set_hidden jid uid hidden db))"
| delete_own: "db_step inet_ok db (snd (jobs_delete_own jid uid db))"
| create_asset: "db_step inet_ok db (snd (assets_create now fresh asset db))"
| upsert_user: "db_step inet_ok db (snd (users_upsert_on_login now fresh oid email name db))"
| record_audit: "db_step inet_ok db (snd (audit_record inet_ok now entry db))"

lemma db_step_ok: "db_step inet_ok db db' \<Longrightarrow> db_ok db \<Longrightarrow> db_ok db'"
  by (induction rule: db_step.induct) (auto intro!: keepsD [where I = db_ok] keeps_intros)

lemma db_steps_ok: "(db_step inet_ok)\<^sup>*\<^sup>* db db' \<Longrightarrow> db_ok db \<Longrightarrow> db_ok db'"
  by (induction rule: rtranclp_induct) (auto intro: db_step_ok)

text \<open>What can become of a row while it exists.\<close>

definition row_evolves :: "job_row \<Rightarrow> job_row \<Rightarrow> bool" where
  "row_evolves r r' \<longleftrightarrow> j_id r' = j_id r \<and> j_user_id r' = j_user_id r \<and> j_media_type r' = j_media_type r \<and>
     j_prompt r' = j_prompt r \<and> j_parameters r' = j_parameters r \<and> j_created_at r' = j_created_at r \<and>
     status_step\<^sup>*\<^sup>* (row_status r) (row_status r') \<and>
     (\<not> unfinished r \<longrightarrow> j_started_at r' = j_started_at r \<and> j_completed_at r' = j_completed_at r)"

lemma row_evolves_refl [simp]: "row_evolves r r"
  by (simp add: row_evolves_def)

lemma row_evolves_terminal:
  "row_evolves r r' \<Longrightarrow> \<not> unfinished r \<Longrightarrow> row_status r' = row_status r"
  using status_steps_terminal row_status_terminal by (auto simp: row_evolves_def)

lemma row_evolves_trans:
  assumes "row_evolves r s" and "row_evolves s t"
  shows "row_evolves r t"
proof -
  have "\<not> unfinished r \<Longrightarrow> \<not> unfinished s"
    using row_evolves_terminal [OF assms(1)] by (metis row_status_terminal)
  with assms show ?thesis unfolding row_evolves_def by (metis rtranclp_trans)
qed

text \<open>Every row of the result is a row of the start that evolved, or a new one.\<close>

definition jobs_evolve :: "database \<Rightarrow> database \<Rightarrow> bool" where
  "jobs_evolve db db' \<longleftrightarrow> (\<forall>r' \<in> set (jobs db').
     (\<exists>r \<in> set (jobs db). row_evolves r r') \<or> (j_id r' \<notin> j_id ` set (jobs db) \<and> row_status r' = Queued))"

lemma jobs_evolve_same [simp]: "jobs db' = jobs db \<Longrightarrow> jobs_evolve db db'"
  unfolding jobs_evolve_def by (metis row_evolves_refl)

lemma jobs_evolve_update:
  "(\<And>r. r \<in> set (jobs db) \<Longrightarrow> P r \<Longrightarrow> row_evolves r (f r)) \<Longrightarrow>
   jobs_evolve db (db\<lparr>jobs := update_where P f (jobs db)\<rparr>)"
  by (force simp: jobs_evolve_def set_update_where)

lemma jobs_evolve_update_jobs:
  "(\<And>r. r \<in> set (jobs db) \<Longrightarrow> P r \<Longrightarrow> row_evolves r (f r)) \<Longrightarrow>
   update_jobs P f db = (res, db') \<Longrightarrow> jobs_evolve db db'"
  by (auto simp: update_jobs_def Let_def jobs_evolve_update split: if_splits)

lemma jobs_evolve_delete: "jobs_evolve db (delete_jobs P db)"
  by (auto simp: jobs_evolve_def delete_jobs_def Let_def intro: row_evolves_refl)

lemma row_evolves_started:
  "job_row_ok r \<Longrightarrow> j_status r = ''queued'' \<Longrightarrow> row_evolves r (started_row now r)"
  using row_status_Queued [of r]
  by (auto simp: row_evolves_def unfinished_def intro: status_step.claim)

lemma row_evolves_finished: "is_terminal s \<Longrightarrow> unfinished r \<Longrightarrow> row_evolves r (finished_row now s r)"
  using row_status_terminal [of r] by (auto simp: row_evolves_def intro: status_step.finish)

lemma row_status_failed:
  "row_status (r\<lparr>j_status := ''failed'', j_error_code := Some (error_code_as_str code), j_error_message := Some message,
     j_completed_at := Some now\<rparr>) = Failed code message"
  by (simp add: row_status_def from_columns_def)

lemma jobs_fail_orphans_row:
  "r\<lparr>j_status := ''failed'', j_error_code := Some (error_code_as_str code), j_error_message := Some message,
     j_completed_at := Some now\<rparr> = finished_row now (Failed code message) r"
  by (simp add: finished_row_def)

lemma db_step_evolves: "db_step inet_ok db db' \<Longrightarrow> db_ok db \<Longrightarrow> jobs_evolve db db'"
proof (induction rule: db_step.induct)
  case (create_job db now fresh new)
  then show ?case
    by (auto simp: jobs_create_def Let_def jobs_evolve_def row_status_def from_columns_def intro: row_evolves_refl)
next
  case (mark_running db now jid)
  then show ?case
    by (auto simp: jobs_mark_running_eq split: option.split intro!: jobs_evolve_update row_evolves_started
        dest: db_okD(5))
next
  case (finish_job status db now jid)
  then show ?case
    by (auto simp: jobs_finish_eq split: option.split intro!: jobs_evolve_update row_evolves_finished)
next
  case (set_provider_job_id db jid s)
  show ?case
    by (auto simp: jobs_set_provider_job_id_def row_evolves_def row_status_def
        split: prod.split sum.split elim!: jobs_evolve_update_jobs [rotated])
next
  case (fail_orphans db now code message)
  show ?case
    by (auto simp: jobs_fail_orphans_def jobs_fail_orphans_row split: prod.split sum.split
        elim!: jobs_evolve_update_jobs [rotated] intro!: row_evolves_finished)
next
  case (set_hidden db jid uid hidden)
  show ?case
    by (auto simp: jobs_set_hidden_def row_evolves_def row_status_def
        split: prod.split sum.split elim!: jobs_evolve_update_jobs [rotated])
qed (auto simp: jobs_delete_older_than_def jobs_delete_own_def Let_def jobs_evolve_delete
      assets_create_def users_upsert_on_login_def audit_record_def split: option.split)

section \<open>A small database\<close>

text \<open>Two users; the first has a queued job and a finished one with a file, the second a hidden finished one.\<close>

definition sample_user :: "uuid \<Rightarrow> string \<Rightarrow> user_row" where
  "sample_user i oid = \<lparr>u_id = i, u_entra_oid = oid, u_email = None, u_display_name = ''Ola'',
     u_created_at = 0, u_last_login_at = 0\<rparr>"

definition sample_job :: "uuid \<Rightarrow> uuid \<Rightarrow> string \<Rightarrow> bool \<Rightarrow> instant \<Rightarrow> job_row" where
  "sample_job i u s hidden created = \<lparr>j_id = i, j_user_id = u, j_media_type = Image, j_prompt = ''hav'',
     j_parameters = JNull, j_status = s, j_provider_job_id = None, j_error_code = None, j_error_message = None,
     j_created_at = created, j_started_at = None, j_completed_at = None, j_hidden = hidden\<rparr>"

definition sample_asset :: "uuid \<Rightarrow> uuid \<Rightarrow> string \<Rightarrow> asset_row" where
  "sample_asset i j path = \<lparr>a_id = i, a_job_id = j, a_blob_path = path, a_content_type = ''image/png'',
     a_size_bytes = 3, a_duration_ms = None, a_width = None, a_height = None, a_created_at = 0\<rparr>"

definition sample_db :: database where
  "sample_db = \<lparr>users = [sample_user 1 ''a'', sample_user 2 ''b''],
     jobs = [sample_job 10 1 ''queued'' False 5, sample_job 11 1 ''succeeded'' False 6,
             sample_job 12 2 ''succeeded'' True 7],
     assets = [sample_asset 21 11 ''bilder/x.png'', sample_asset 22 12 ''bilder/y.png''], audit_log = []\<rparr>"

lemmas sample_defs = sample_db_def sample_user_def sample_job_def sample_asset_def

lemma sample_db_ok: "db_ok sample_db"
  by (simp add: db_ok_def sample_defs job_row_ok_def jobs_status_valid_def jobs_error_matches_status_def
      assets_size_non_negative_def)

lemma sample_tables:
  "job_table sample_db 10 = Some (sample_job 10 1 ''queued'' False 5)"
  "job_table sample_db 11 = Some (sample_job 11 1 ''succeeded'' False 6)"
  "job_table sample_db 12 = Some (sample_job 12 2 ''succeeded'' True 7)"
  "job_table sample_db 99 = None"
  "asset_table sample_db 22 = Some (sample_asset 22 12 ''bilder/y.png'')"
  "asset_table sample_db 99 = None"
  by (simp_all add: row_by_def sample_defs)

section \<open>Properties of the storage layer\<close>



text \<open>Steps during which a job keeps existing.\<close>

definition keeps_job :: "(string \<Rightarrow> bool) \<Rightarrow> uuid \<Rightarrow> database \<Rightarrow> database \<Rightarrow> bool" where
  "keeps_job inet_ok jid db db' \<longleftrightarrow> db_step inet_ok db db' \<and> job_table db' jid \<noteq> None"

lemma keeps_job_evolves:
  assumes "(keeps_job inet_ok jid)\<^sup>*\<^sup>* db db'" and "db_ok db" and "job_table db jid = Some r"
  shows "db_ok db' \<and> (\<exists>r'. job_table db' jid = Some r' \<and> row_evolves r r')"
  using assms(1)
proof (induction rule: rtranclp_induct)
  case (step b c)
  then obtain s where s: "db_ok b" "job_table b jid = Some s" "row_evolves r s" by blast
  from step.hyps(2) obtain t where t: "db_step inet_ok b c" "job_table c jid = Some t"
    by (auto simp: keeps_job_def)
  have ok: "db_ok c" using db_step_ok [OF t(1) s(1)] .
  have "t \<in> set (jobs c)" "j_id t = jid" "s \<in> set (jobs b)" "j_id s = jid"
    using row_by_SomeD [OF t(2)] row_by_SomeD [OF s(2)] by simp_all
  with db_step_evolves [OF t(1) s(1)] obtain q where "q \<in> set (jobs b)" "row_evolves q t"
    unfolding jobs_evolve_def by (metis image_eqI)
  moreover from this have "j_id q = jid" using \<open>j_id t = jid\<close> by (simp add: row_evolves_def)
  ultimately have "q = s"
    using \<open>s \<in> set (jobs b)\<close> \<open>j_id s = jid\<close> inj_on_mapD [OF db_okD(3) [OF s(1)]] by metis
  then have "row_evolves r t" using \<open>row_evolves q t\<close> s(3) row_evolves_trans by blast
  with ok t(2) show ?case by simp
qed (use assms in simp)

text \<open>
  C11: whatever statements run in between, a job that still exists keeps its owner, prompt, parameters
  and creation time, moves only forward in the lifecycle (queued, running, finished), and once
  it has finished its status and its timestamps never change again.
\<close>

theorem job_lifecycle:
  assumes "db_ok db" and "(keeps_job inet_ok jid)\<^sup>*\<^sup>* db db'"
    and "job_table db jid = Some r" and "job_table db' jid = Some r'"
  shows "row_evolves r r' \<and> (is_terminal (row_status r) \<longrightarrow> row_status r' = row_status r)"
  using keeps_job_evolves [OF assms(2,1,3)] assms(4) row_evolves_terminal row_status_terminal by auto

theorem job_lifecycle_witness:
  "row_evolves (sample_job 11 1 ''succeeded'' False 6) (sample_job 11 1 ''succeeded'' True 6) \<and>
   row_status (sample_job 11 1 ''succeeded'' True 6) = Succeeded"
proof -
  let ?db = "snd (jobs_set_hidden 11 1 True sample_db)"
  have t: "job_table ?db 11 = Some (sample_job 11 1 ''succeeded'' True 6)"
    by (simp add: jobs_set_hidden_eq [OF sample_db_ok] sample_tables row_by_update_where)
      (simp add: sample_job_def)
  have "(keeps_job (\<lambda>_. True) 11)\<^sup>*\<^sup>* sample_db ?db"
    by (rule r_into_rtranclp) (simp only: keeps_job_def t, simp add: db_step.set_hidden)
  from job_lifecycle [OF sample_db_ok this sample_tables(2) t] show ?thesis
    by (simp add: row_status_def from_columns_def sample_job_def)
qed

lemma status_steps_from_Running: "status_step\<^sup>*\<^sup>* Running s \<Longrightarrow> s \<noteq> Queued"
proof -
  have "status_step\<^sup>*\<^sup>* a s \<Longrightarrow> a \<noteq> Queued \<Longrightarrow> s \<noteq> Queued" for a
    by (induction rule: rtranclp_induct) (auto elim: status_stepE simp: is_terminal_iff)
  then show "status_step\<^sup>*\<^sup>* Running s \<Longrightarrow> s \<noteq> Queued" by blast
qed

text \<open>
  Claiming a job is a compare-and-set. After one worker has moved a job to running, no
  later attempt to claim it succeeds, whatever happens to the database in between; the attempt
  is told the job is gone and changes nothing.
\<close>

theorem mark_running_once:
  assumes "db_ok db" and "jobs_mark_running now jid db = (Inr j, db\<^sub>1)"
    and "(keeps_job inet_ok jid)\<^sup>*\<^sup>* db\<^sub>1 db\<^sub>2"
  shows "job_status j = Running \<and> jobs_mark_running now' jid db\<^sub>2 = (Inl StorageNotFound, db\<^sub>2)"
proof -
  have ok1: "db_ok db\<^sub>1" using keepsD' [OF keeps_jobs_updates(1) assms(2,1)] .
  obtain r where r: "job_table db jid = Some r" "j_status r = ''queued''" "j = to_job (started_row now r)"
    "db\<^sub>1 = db\<lparr>jobs := update_where (\<lambda>r. j_id r = jid \<and> j_status r = ''queued'') (started_row now) (jobs db)\<rparr>"
    using assms(2) by (auto simp: jobs_mark_running_eq [OF assms(1)] split: option.splits if_splits)
  have "j_id r = jid" using row_by_SomeD [OF r(1)] by simp
  then have "job_table db\<^sub>1 jid = Some (started_row now r)"
    using r by (simp add: row_by_update_where)
  from keeps_job_evolves [OF assms(3) ok1 this] obtain r' where r': "db_ok db\<^sub>2" "job_table db\<^sub>2 jid = Some r'"
    "row_evolves (started_row now r) r'" by blast
  then have "row_status r' \<noteq> Queued" using status_steps_from_Running by (auto simp: row_evolves_def)
  then have "j_status r' \<noteq> ''queued''" by (auto simp: row_status_def from_columns_def)
  with r' r(3) show ?thesis by (simp add: jobs_mark_running_eq)
qed

theorem mark_running_once_witness:
  "jobs_mark_running 9 10 (snd (jobs_mark_running 8 10 sample_db)) =
     (Inl StorageNotFound, snd (jobs_mark_running 8 10 sample_db))"
proof -
  obtain j db where m: "jobs_mark_running 8 10 sample_db = (Inr j, db)"
    by (simp add: jobs_mark_running_eq [OF sample_db_ok] sample_tables) (simp add: sample_job_def)
  show ?thesis
    using mark_running_once [OF sample_db_ok m rtranclp.rtrancl_refl, of 9] m by simp
qed

text \<open>The map view of \<open>finish\<close>.\<close>

definition finish_spec ::
  "instant \<Rightarrow> uuid \<Rightarrow> job_status \<Rightarrow> (uuid \<Rightarrow> job_row option) \<Rightarrow> (storage_error + job_row) \<times> (uuid \<Rightarrow> job_row option)" where
  "finish_spec now jid s t = (case t jid of
     None \<Rightarrow> (Inl StorageNotFound, t)
   | Some r \<Rightarrow> if is_terminal (row_status r) then (Inl StorageNotFound, t)
       else (Inr (finished_row now s r), t(jid \<mapsto> finished_row now s r)))"

text \<open>
  C25: seen as a map from ids to rows, finishing a job is one update of the map when the row is
  unfinished and nothing otherwise: the status read back is the status written, code and
  message included, and only an unfinished row can be finished.
\<close>

theorem finish_refines:
  assumes "db_ok db"
  shows "(let (result, db') = jobs_finish now jid s db; (result', t') = finish_spec now jid s (job_table db)
          in job_table db' = t' \<and> result = map_sum (\<lambda>e. e) to_job result' \<and>
             (\<forall>j. result = Inr j \<longrightarrow> job_status j = s \<and> job_completed_at j = Some now) \<and>
             assets db' = assets db \<and> users db' = users db \<and> audit_log db' = audit_log db)"
proof (cases "job_table db jid")
  case None
  then show ?thesis by (simp add: jobs_finish_eq [OF assms] finish_spec_def)
next
  case (Some r)
  let ?P = "\<lambda>r. j_id r = jid \<and> unfinished r"
  have "job_table (db\<lparr>jobs := update_where ?P (finished_row now s) (jobs db)\<rparr>) =
      (job_table db)(jid \<mapsto> finished_row now s r)" if "unfinished r"
    using that Some row_by_SomeD [OF Some]
    by (auto simp: row_by_update_where fun_eq_iff map_option_case split: option.split dest: row_by_SomeD)
  with Some show ?thesis
    by (simp add: jobs_finish_eq [OF assms] finish_spec_def row_status_terminal)
qed

theorem finish_refines_witness:
  "job_table (snd (jobs_finish 9 10 (Failed Upstream ''x'') sample_db)) 10 =
     Some (finished_row 9 (Failed Upstream ''x'') (sample_job 10 1 ''queued'' False 5))"
proof -
  have "job_table (snd (jobs_finish 9 10 (Failed Upstream ''x'') sample_db)) =
      snd (finish_spec 9 10 (Failed Upstream ''x'') (job_table sample_db))"
    using finish_refines [OF sample_db_ok, of 9 10 "Failed Upstream ''x''"]
    unfolding Let_def case_prod_unfold by (rule conjunct1)
  moreover have "row_status (sample_job 10 1 ''queued'' False 5) = Queued"
    by (simp add: row_status_def from_columns_def sample_job_def)
  ultimately show ?thesis by (simp only: finish_spec_def sample_tables option.case) simp
qed

text \<open>
  A row that belongs to someone else is indistinguishable from one that does not exist.
  Reading a job, hiding it, deleting it and reading an asset all answer the same, and leave
  the database the same, for an id owned by another user and for an id of nothing.
\<close>

theorem foreign_rows_are_missing:
  assumes db: "db_ok db" and no_job: "job_owner db k = None" and no_asset: "asset_owner db l = None"
    and job: "job_owner db i = Some v" "v \<noteq> u" and asset: "asset_owner db a = Some w" "w \<noteq> u"
  shows "jobs_by_id_for_user i u db = jobs_by_id_for_user k u db \<and>
      jobs_set_hidden i u hidden db = jobs_set_hidden k u hidden db \<and>
      jobs_delete_for_user i u db = jobs_delete_for_user k u db \<and>
      assets_by_id_for_user a u db = assets_by_id_for_user l u db"
  by (intro conjI job_reads.foreign_is_missing [OF db job no_job] job_hides.foreign_is_missing [OF db job no_job]
      job_deletes.foreign_is_missing [OF db job no_job] asset_reads.foreign_is_missing [OF db asset no_asset])

theorem foreign_rows_are_missing_witness:
  "jobs_delete_for_user 12 1 sample_db = jobs_delete_for_user 99 1 sample_db \<and>
   assets_by_id_for_user 22 1 sample_db = assets_by_id_for_user 99 1 sample_db"
proof -
  have "job_owner sample_db 99 = None" "asset_owner sample_db 99 = None" "job_owner sample_db 12 = Some 2"
    "asset_owner sample_db 22 = Some 2"
    by (simp_all add: job_owner_def asset_owner_def sample_tables) (simp_all add: sample_defs row_by_def)
  from foreign_rows_are_missing [OF sample_db_ok this(1,2,3) _ this(4), of 1] show ?thesis by simp
qed

text \<open>
  Access by the owner always succeeds, for every operation a request can name a row with, and
  access by anyone else always fails with not found.
\<close>

theorem access_iff_owner:
  assumes "db_ok db"
  shows "((\<exists>x. fst (jobs_by_id_for_user i u db) = Inr x) \<longleftrightarrow> job_owner db i = Some u) \<and>
    ((\<exists>x. fst (jobs_set_hidden i u hidden db) = Inr x) \<longleftrightarrow> job_owner db i = Some u) \<and>
    ((\<exists>x. fst (jobs_delete_for_user i u db) = Inr x) \<longleftrightarrow> job_owner db i = Some u) \<and>
    ((\<exists>x. fst (assets_by_id_for_user a u db) = Inr x) \<longleftrightarrow> asset_owner db a = Some u)"
  by (intro conjI job_reads.succeeds_iff [OF assms] job_hides.succeeds_iff [OF assms]
      job_deletes.succeeds_iff [OF assms] asset_reads.succeeds_iff [OF assms])

theorem access_iff_owner_witness: "\<exists>x. fst (assets_by_id_for_user 22 2 sample_db) = Inr x"
  using access_iff_owner [OF sample_db_ok, of 10 2 True 22]
  by (simp add: job_owner_def asset_owner_def sample_tables) (simp add: sample_defs row_by_def)

text \<open>
  Deleting one's own job loses no file: the paths handed back are exactly those of the
  asset rows that disappear, with multiplicity, so that every path is either returned to the
  caller or still recorded.
\<close>

theorem delete_accounts_for_paths:
  assumes "db_ok db" and "jobs_delete_for_user jid uid db = (Inr paths, db')"
  shows "mset (map a_blob_path (assets db)) = mset paths + mset (map a_blob_path (assets db')) \<and>
    job_table db' = (job_table db)(jid := None)"
proof -
  let ?mine = "\<lambda>r. j_id r = jid \<and> j_user_id r = uid"
  have own: "job_owner db jid = Some uid"
    using assms by (auto simp: jobs_delete_for_user_eq Let_def own_job_filter split: if_splits)
  then obtain r where r: "job_table db jid = Some r" "j_user_id r = uid" by (auto simp: job_owner_iff)
  have db': "db' = delete_jobs ?mine db"
    and paths: "paths = map a_blob_path (filter (\<lambda>a. \<exists>r \<in> set (jobs db). j_id r = a_job_id a \<and> ?mine r) (assets db))"
    using assms(2) by (auto simp: jobs_delete_for_user_eq Let_def split: if_splits)
  note dist = db_okD(3) [OF assms(1)]
  have mine_iff: "?mine s \<longleftrightarrow> j_id s = jid" if "s \<in> set (jobs db)" for s
    using that r row_by_key [OF dist that] by auto
  have kept: "j_id ` set (filter (\<lambda>r. \<not> ?mine r) (jobs db)) = j_id ` set (jobs db) - {jid}"
    using mine_iff by auto
  have "(\<exists>r \<in> set (jobs db). j_id r = a_job_id a \<and> ?mine r) \<longleftrightarrow> \<not> a_job_id a \<in> j_id ` set (jobs db) - {jid}"
    if "a \<in> set (assets db)" for a
    using db_okD(7) [OF assms(1) that] row_by_SomeD [OF r(1)] r(2) by auto
  then have paths': "paths = map a_blob_path (filter (\<lambda>a. \<not> a_job_id a \<in> j_id ` set (jobs db) - {jid}) (assets db))"
    unfolding paths by (auto intro!: arg_cong [where f = "map a_blob_path"] filter_cong)
  have assets': "assets db' = filter (\<lambda>a. a_job_id a \<in> j_id ` set (jobs db) - {jid}) (assets db)"
    by (simp add: db' delete_jobs_def Let_def kept [simplified])
  have "mset (map a_blob_path (filter (\<lambda>a. \<not> Q a) xs)) + mset (map a_blob_path (filter Q xs)) = mset (map a_blob_path xs)"
    for Q xs by (induction xs) simp_all
  then have "mset (map a_blob_path (assets db)) = mset paths + mset (map a_blob_path (assets db'))"
    unfolding paths' assets' by metis
  moreover have "job_table db' i = ((job_table db)(jid := None)) i" for i
    using mine_iff
    by (auto simp: db' delete_jobs_def Let_def row_by_filter [OF dist] r(2) split: option.split dest!: row_by_SomeD)
      (metis r(1) row_by_key [OF dist])?
  ultimately show ?thesis by blast
qed

theorem delete_accounts_for_paths_witness:
  "jobs_delete_for_user 11 1 sample_db = (Inr [''bilder/x.png''], snd (jobs_delete_for_user 11 1 sample_db)) \<and>
   job_table (snd (jobs_delete_for_user 11 1 sample_db)) 11 = None"
proof -
  have d: "jobs_delete_for_user 11 1 sample_db = (Inr [''bilder/x.png''], snd (jobs_delete_for_user 11 1 sample_db))"
    by (simp add: jobs_delete_for_user_eq sample_defs Let_def)
  from delete_accounts_for_paths [OF sample_db_ok d] d show ?thesis by auto
qed

section \<open>Properties of the listing and the remaining repositories\<close>

text \<open>The rows a filter selects, in listing order.\<close>

definition listing :: "list_filter \<Rightarrow> uuid \<Rightarrow> database \<Rightarrow> job_list_item list" where
  "listing filt viewer db = map (to_list_item viewer)
     (order_by (newest_first filt) (\<lambda>(j, u, a). j_created_at j)
       (filter (\<lambda>(j, u, a). list_matches filt (j, a)) (list_rows db)))"

lemma jobs_list_page:
  assumes "0 \<le> page_limit filt" and "0 \<le> page_offset filt"
  shows "jobs_list filt viewer db =
    (Inr (take (nat (page_limit filt)) (drop (nat (page_offset filt)) (listing filt viewer db))), db)"
  using assms by (simp add: jobs_list_eq limit_offset_def listing_def take_map drop_map)

lemma listing_page_irrelevant [simp]:
  "listing (filt\<lparr>page_limit := l, page_offset := f\<rparr>) viewer db = listing filt viewer db"
  by (simp add: listing_def list_matches_def)

lemma left_join_assetsD:
  assumes "(j, a) \<in> set (left_join_assets db x)"
  shows "j = x \<and> (case a of None \<Rightarrow> True | Some a \<Rightarrow> a \<in> set (assets db) \<and> a_job_id a = j_id x)"
proof (cases "filter (\<lambda>a. a_job_id a = j_id x) (assets db)")
  case (Cons b bs)
  then have "c \<in> set (assets db) \<and> a_job_id c = j_id x" if "c \<in> set (b # bs)" for c
    using that by (metis (mono_tags, lifting) mem_Collect_eq set_filter)
  with assms Cons show ?thesis by (auto simp: left_join_assets_def)
qed (use assms in \<open>simp add: left_join_assets_def\<close>)

lemma listing_item:
  assumes "item \<in> set (listing filt viewer db)"
  obtains j u a where "j \<in> set (jobs db)" "u \<in> set (users db)" "u_id u = j_user_id j"
    "case a of None \<Rightarrow> True | Some a \<Rightarrow> a \<in> set (assets db) \<and> a_job_id a = j_id j"
    "list_matches filt (j, a)" "item = to_list_item viewer (j, u, a)"
proof -
  obtain j u a where m: "list_matches filt (j, a)" "item = to_list_item viewer (j, u, a)"
    and r: "(j, u, a) \<in> set (list_rows db)"
    using assms by (auto simp: listing_def)
  from r obtain x where "x \<in> set (jobs db)" "u \<in> set (users db)" "u_id u = j_user_id x"
    "(j, a) \<in> set (left_join_assets db x)"
    by (auto simp: list_rows_def)
  with m that show thesis by (auto dest!: left_join_assetsD)
qed

lemma listing_length:
  "db_ok db \<Longrightarrow> jobs_count filt db = (Inr (int (length (listing filt viewer db))), db)"
  by (simp add: jobs_count_rows listing_def)

text \<open>
  C27: what a listing may show. Whatever the page asked for, an item is a job with its owner's
  name; with an owner filter every item is that user's; without hidden jobs none is hidden;
  with only finished ones each has a file; the viewer's mark is set exactly on the viewer's
  own jobs; and the page holds at most the limit, in the order asked for.
\<close>

theorem listing_shows_only_matches:
  assumes "jobs_list filt viewer db = (Inr items, db')" and "item \<in> set items"
  shows "(\<exists>j \<in> set (jobs db). \<exists>u \<in> set (users db).
       item_id item = j_id j \<and> u_id u = j_user_id j \<and> item_owner_name item = u_display_name u \<and>
       item_status item = row_status j \<and> item_hidden item = j_hidden j \<and>
       item_owned_by_viewer item = (j_user_id j = viewer) \<and>
       (\<forall>w. filter_user_id filt = Some w \<longrightarrow> j_user_id j = w) \<and>
       (\<forall>m. filter_media_type filt = Some m \<longrightarrow> item_media_type item = m)) \<and>
     (exclude_hidden filt \<longrightarrow> \<not> item_hidden item) \<and>
     (only_succeeded filt \<longrightarrow> item_status item = Succeeded \<and> item_asset_id item \<noteq> None) \<and>
     db' = db \<and> int (length items) \<le> page_limit filt \<and>
     sorted_wrt (\<lambda>x y. if newest_first filt then item_created_at y \<le> item_created_at x
       else item_created_at x \<le> item_created_at y) items"
proof -
  have pos: "0 \<le> page_limit filt" "0 \<le> page_offset filt"
    using assms(1) by (auto simp: jobs_list_eq limit_offset_def split: if_splits sum.splits)
  have items: "items = take (nat (page_limit filt)) (drop (nat (page_offset filt)) (listing filt viewer db))"
    and db': "db' = db"
    using assms(1) by (auto simp: jobs_list_page [OF pos])
  have "item \<in> set (listing filt viewer db)"
    using assms(2) unfolding items by (meson in_set_dropD in_set_takeD)
  then obtain j u a where r: "j \<in> set (jobs db)" "u \<in> set (users db)" "u_id u = j_user_id j"
    "list_matches filt (j, a)" "item = to_list_item viewer (j, u, a)"
    by (rule listing_item) blast
  have "sorted_wrt (\<lambda>x y. if newest_first filt then item_created_at y \<le> item_created_at x
      else item_created_at x \<le> item_created_at y) (listing filt viewer db)"
    unfolding listing_def sorted_wrt_map
    by (rule sorted_wrt_mono_rel [OF _ order_by_sorted]) (auto simp: to_list_item_def split: if_splits)
  then have sorted: "sorted_wrt (\<lambda>x y. if newest_first filt then item_created_at y \<le> item_created_at x
      else item_created_at x \<le> item_created_at y) items"
    unfolding items by (intro sorted_wrt_take sorted_wrt_drop)
  have len: "int (length items) \<le> page_limit filt" using pos unfolding items by simp
  have fields: "item_id item = j_id j" "item_owner_name item = u_display_name u" "item_status item = row_status j"
    "item_hidden item = j_hidden j" "item_owned_by_viewer item = (j_user_id j = viewer)"
    "item_media_type item = j_media_type j" "item_asset_id item = map_option a_id a"
    using r(5) by (simp_all add: to_list_item_def row_status_def)
  have item: "item_id item = j_id j \<and> u_id u = j_user_id j \<and> item_owner_name item = u_display_name u \<and>
       item_status item = row_status j \<and> item_hidden item = j_hidden j \<and>
       item_owned_by_viewer item = (j_user_id j = viewer) \<and>
       (\<forall>w. filter_user_id filt = Some w \<longrightarrow> j_user_id j = w) \<and>
       (\<forall>m. filter_media_type filt = Some m \<longrightarrow> item_media_type item = m)"
    using r(3,4) by (simp add: fields list_matches_def split: option.splits)
  have "exclude_hidden filt \<longrightarrow> \<not> item_hidden item"
    and "only_succeeded filt \<longrightarrow> item_status item = Succeeded \<and> item_asset_id item \<noteq> None"
    using r(4) by (simp_all add: fields list_matches_def row_status_def from_columns_def)
  then show ?thesis
    using r(1,2) item sorted len db' by blast
qed

definition sample_filter :: list_filter where
  "sample_filter = \<lparr>filter_user_id = None, filter_media_type = Some Image, exclude_hidden = True,
     only_succeeded = True, newest_first = True, page_limit = 10, page_offset = 0\<rparr>"

lemma sample_listing: "map item_id (listing sample_filter 2 sample_db) = [11]"
  by code_simp

theorem listing_shows_only_matches_witness:
  "\<exists>item. item_id item = 11 \<and> \<not> item_hidden item \<and> item_status item = Succeeded \<and>
     item \<in> set (listing sample_filter 2 sample_db)"
proof -
  obtain item where l: "listing sample_filter 2 sample_db = [item]" and i: "item_id item = 11"
    using sample_listing by (auto simp: map_eq_Cons_conv)
  have "jobs_list sample_filter 2 sample_db = (Inr [item], sample_db)"
    by (subst jobs_list_page) (simp_all add: l sample_filter_def [THEN arg_cong, of page_limit]
        sample_filter_def [THEN arg_cong, of page_offset])
  from listing_shows_only_matches [OF this, of item] i l show ?thesis
    by (auto simp: sample_filter_def)
qed

lemma concat_pages: "concat (map (\<lambda>k. take n (drop (k * n) xs)) [0..<m]) = take (m * n) xs"
proof (induction m)
  case (Suc m)
  have "take (Suc m * n) xs = take (m * n) xs @ take n (drop (m * n) xs)"
    using take_add [of "m * n" n xs] by (simp add: add.commute)
  with Suc show ?case by simp
qed simp



text \<open>
  An audit entry is appended, never merged or dropped, and nothing a client sends can bloat it
  or make it unreadable: the stored user agent is the longest prefix of the header that fits in
  512 bytes and cuts no character.
\<close>

theorem audit_record_appends:
  assumes "audit_record inet_ok now entry db = (Inr (), db')"
    and "entry_user_agent entry = Some agent" and "utf8_valid agent"
  shows "\<exists>row kept. audit_log db' = audit_log db @ [row] \<and> l_user_agent row = Some kept \<and>
    l_action row = audit_action_as_str (entry_action entry) \<and> l_user_id row = entry_user_id entry \<and>
    kept = take (length kept) agent \<and> utf8_valid kept \<and> length kept \<le> 512 \<and>
    (\<forall>n. n \<le> 512 \<and> n \<le> length agent \<and> is_char_boundary agent n \<longrightarrow> n \<le> length kept) \<and>
    jobs db' = jobs db \<and> assets db' = assets db \<and> users db' = users db"
proof -
  let ?kept = "truncate_user_agent agent" and ?m = "min (length agent) MAX_USER_AGENT"
  have len: "length ?kept = floor_boundary agent ?m"
    using floor_boundary_le [of agent ?m] by (simp add: truncate_user_agent_def)
  have "?kept = take (length ?kept) agent" by (simp add: len) (simp add: truncate_user_agent_def)
  moreover have "n \<le> length ?kept" if "n \<le> 512" "n \<le> length agent" "is_char_boundary agent n" for n
    unfolding len using that by (intro floor_boundary_greatest) (simp_all add: MAX_USER_AGENT_def)
  moreover have "length ?kept \<le> 512" using truncate_user_agent_bounds(1) [of agent] by (simp add: MAX_USER_AGENT_def)
  ultimately show ?thesis
    using assms truncate_user_agent_bounds(2) by (auto simp: audit_record_def Let_def split: if_splits)
qed

definition sample_entry :: audit_entry where
  "sample_entry = \<lparr>entry_user_id = Some 1, entry_action = SignIn, entry_entity = ''user'', entry_entity_id = None,
     entry_ip = None, entry_user_agent = Some (replicate 511 (CHR ''a'') @ ae)\<rparr>"

theorem audit_record_appends_witness:
  "\<exists>row kept. audit_log (snd (audit_record (\<lambda>_. True) 3 sample_entry sample_db)) = [row] \<and>
     l_user_agent row = Some kept \<and> length kept \<le> 512 \<and> utf8_valid kept"
proof -
  have agent: "entry_user_agent sample_entry = Some (replicate 511 (CHR ''a'') @ ae)"
    by (simp add: sample_entry_def)
  have "audit_record (\<lambda>_. True) 3 sample_entry sample_db = (Inr (), snd (audit_record (\<lambda>_. True) 3 sample_entry sample_db))"
    by (simp add: audit_record_def Let_def sample_entry_def sample_defs)
  moreover have "utf8_valid (replicate 511 (CHR ''a'') @ ae)"
  proof (subst utf8_valid_append)
    show "utf8_valid (replicate 511 (CHR ''a''))" by (rule utf8_valid_ascii) (simp add: list_all_iff)
    show "utf8_valid ae" by (simp add: utf8_valid_def utf8_width_def wf_char_def is_continuation_def)
  qed
  moreover have "audit_log sample_db = []" by (simp add: sample_db_def)
  ultimately show ?thesis using audit_record_appends [OF _ agent] by fastforce
qed

text \<open>
  A person keeps one identity. Signing in again under the same directory object id returns
  the same user with the profile of the new sign-in, creates no second row, and changes no
  other user.
\<close>

theorem upsert_keeps_identity:
  assumes "db_ok db" and "users_upsert_on_login now fresh oid email name db = (Inr u, db')"
  shows "users_upsert_on_login now' fresh' oid email' name' db' =
      (Inr (u\<lparr>user_email := email', display_name := name', last_login_at := now'\<rparr>),
       snd (users_upsert_on_login now' fresh' oid email' name' db')) \<and>
    entra_oid u = oid \<and> user_email u = email \<and> display_name u = name \<and> last_login_at u = now \<and>
    map u_id (users (snd (users_upsert_on_login now' fresh' oid email' name' db'))) = map u_id (users db') \<and>
    filter (\<lambda>r. u_entra_oid r \<noteq> oid) (users db') = filter (\<lambda>r. u_entra_oid r \<noteq> oid) (users db)"
proof -
  let ?f = "\<lambda>r. r\<lparr>u_email := email, u_display_name := name, u_last_login_at := now\<rparr>"
  let ?g = "\<lambda>r. r\<lparr>u_email := email', u_display_name := name', u_last_login_at := now'\<rparr>"
  have f_keeps: "find (\<lambda>r. u_entra_oid r = oid) (update_where (\<lambda>r. u_entra_oid r = oid) ?f rows) =
      map_option ?f (find (\<lambda>r. u_entra_oid r = oid) rows)" for rows
    by (induction rows) (auto simp: update_where_def)
  have others: "filter (\<lambda>r. u_entra_oid r \<noteq> oid) (update_where (\<lambda>r. u_entra_oid r = oid) ?f rows) =
      filter (\<lambda>r. u_entra_oid r \<noteq> oid) rows" for rows
    by (induction rows) (auto simp: update_where_def)
  have ids: "map u_id (update_where P ?g rows) = map u_id rows" for P rows
    by (simp add: map_update_where)
  obtain r where r: "find (\<lambda>r. u_entra_oid r = oid) (users db') = Some r" and u: "u = to_user r"
    and fields: "u_entra_oid r = oid" "u_email r = email" "u_display_name r = name" "u_last_login_at r = now"
    and rest: "filter (\<lambda>r. u_entra_oid r \<noteq> oid) (users db') = filter (\<lambda>r. u_entra_oid r \<noteq> oid) (users db)"
  proof (cases "find (\<lambda>r. u_entra_oid r = oid) (users db)")
    case (Some s)
    with assms(2) have "users db' = update_where (\<lambda>r. u_entra_oid r = oid) ?f (users db)" "u = to_user (?f s)"
      by (auto simp: users_upsert_on_login_def)
    moreover have "u_entra_oid s = oid" using find_map_Some [OF Some] by simp
    ultimately show thesis using that [of "?f s"] Some by (simp add: f_keeps others)
  next
    case None
    define row where "row = \<lparr>u_id = fresh, u_entra_oid = oid, u_email = email, u_display_name = name,
                u_created_at = now, u_last_login_at = now\<rparr>"
    from None assms(2) have "users db' = users db @ [row]" "u = to_user row"
      by (auto simp: users_upsert_on_login_def Let_def row_def split: if_splits)
    moreover have "find (\<lambda>r. u_entra_oid r = oid) (users db @ [row]) = Some row"
    proof -
      have "find P rows = None \<Longrightarrow> P row \<Longrightarrow> find P (rows @ [row]) = Some row" for P and rows :: "user_row list"
        by (induction rows) (auto split: if_splits)
      with None show ?thesis by (simp add: row_def)
    qed
    ultimately show thesis using that [of row] None by (simp add: row_def)
  qed
  show ?thesis
    using r u fields rest ids by (simp add: users_upsert_on_login_def Let_def to_user_def)
qed

theorem upsert_keeps_identity_witness:
  "map u_id (users (snd (users_upsert_on_login 9 8 ''a'' None ''Kari'' (snd (users_upsert_on_login 8 7 ''a'' None ''Ola'' sample_db)))))
     = [1, 2]"
proof -
  obtain u where u: "users_upsert_on_login 8 7 ''a'' None ''Ola'' sample_db =
      (Inr u, snd (users_upsert_on_login 8 7 ''a'' None ''Ola'' sample_db))"
    by (simp add: users_upsert_on_login_def sample_defs)
  have "map u_id (users (snd (users_upsert_on_login 8 7 ''a'' None ''Ola'' sample_db))) = [1, 2]"
    by (simp add: users_upsert_on_login_def sample_defs update_where_def)
  with upsert_keeps_identity [OF sample_db_ok u, of 9 8 None "''Kari''"] show ?thesis by simp
qed

end
