(* ===== verification/World.thy ===== *)
theory World
  imports Middleware Storage
begin

text \<open>
  The state a handler or worker runs in, and the shared application state (\<open>state.rs\<close>): the
  tables, the session of the request, the two caches, the queue, the published events, and the
  environment beyond the process. Also the bridge from the session to the users table
  (\<open>identity.rs\<close>) and the rate limit (\<open>ratelimit.rs\<close>).
\<close>

section \<open>The world\<close>

text \<open>
  \<open>'s\<close> is the session of the request, \<open>'n\<close> the environment (network, clocks, randomness), \<open>'d\<close>
  the discovery document of the identity provider.
\<close>

record ('s, 'n, 'd) world =
  wd_db :: database
  wd_session :: 's
  wd_net :: 'n
  wd_key :: "delegation_key option"
  wd_metadata :: "'d metadata option"
  wd_queue :: "uuid list"
  wd_events :: "(uuid \<times> job_status) list"

text \<open>
  What can happen to a statement on its way to the database: nothing, the connection is lost before
  it is executed, or after.
\<close>

datatype db_fault = NoFault | LostRequest string | LostReply string

text \<open>
  The application state with everything it was built from. \<open>ap_others\<close> is what other requests and
  workers did to the tables since the previous statement of this one.
\<close>

record ('s, 'n, 'd, 'r) app =
  ap_config :: app_config
  ap_role_policy :: role_policy
  ap_oidc :: "('n, 'd, 'r) oidc_lib"
  ap_sessions :: "'s session_lib"
  ap_store :: blob_store
  ap_blob_libs :: blob_libs
  ap_blob_token :: "('n, string) net"
  ap_blob_send :: "http_request \<Rightarrow> ('n, http_response) net"
  ap_providers :: "'n provider"
  ap_clock :: "'n \<Rightarrow> instant"
  ap_mono :: "'n \<Rightarrow> instant"
  ap_fresh :: "'n \<Rightarrow> uuid \<times> 'n"
  ap_sleep :: "duration \<Rightarrow> 'n \<Rightarrow> 'n"
  ap_pool :: "'n \<Rightarrow> db_fault \<times> 'n"
  ap_others :: "'n \<Rightarrow> database \<Rightarrow> database"
  ap_inet_ok :: "string \<Rightarrow> bool"
  ap_ip_ok :: "string \<Rightarrow> bool"

type_synonym ('s, 'n, 'd, 'e, 'a) act = "(('s, 'n, 'd) world, 'e, 'a) action"

text \<open>\<open>AppState::new\<close>, after the pool, the providers and the store have been built.\<close>

definition app_state_new ::
  "(unit \<Rightarrow> string + 'h) \<Rightarrow> app_config \<Rightarrow> (role_policy \<Rightarrow> oidc_config \<times> 'h \<Rightarrow> 'a) \<Rightarrow> auth_error + 'a" where
  "app_state_new build_client config build = (
     let policy = role_policy_new (config_required_app_role config)
     in and_then (oidc_provider_new build_client (config_oidc config)) (\<lambda>oidc. Inr (build policy oidc)))"

section \<open>Running a part of the world\<close>

definition focus :: "('w \<Rightarrow> 'x) \<Rightarrow> ('x \<Rightarrow> 'w \<Rightarrow> 'w) \<Rightarrow> ('x, 'e, 'a) action \<Rightarrow> ('w, 'e, 'a) action" where
  "focus get put m w = (let (r, x) = m (get w) in (r, put x w))"

definition in_the_session :: "('s, 'e, 'a) action \<Rightarrow> ('s, 'n, 'd, 'e, 'a) act" where
  "in_the_session = focus wd_session (\<lambda>s w. w\<lparr>wd_session := s\<rparr>)"

definition in_the_net :: "('n, 'e, 'a) action \<Rightarrow> ('s, 'n, 'd, 'e, 'a) act" where
  "in_the_net = focus wd_net (\<lambda>n w. w\<lparr>wd_net := n\<rparr>)"

definition with_key :: "(delegation_key option \<times> 'n, 'e, 'a) action \<Rightarrow> ('s, 'n, 'd, 'e, 'a) act" where
  "with_key = focus (\<lambda>w. (wd_key w, wd_net w)) (\<lambda>(c, n) w. w\<lparr>wd_key := c, wd_net := n\<rparr>)"

definition with_metadata :: "('d metadata option \<times> 'n, 'e, 'a) action \<Rightarrow> ('s, 'n, 'd, 'e, 'a) act" where
  "with_metadata = focus (\<lambda>w. (wd_metadata w, wd_net w)) (\<lambda>(c, n) w. w\<lparr>wd_metadata := c, wd_net := n\<rparr>)"

text \<open>\<open>OffsetDateTime::now_utc()\<close> and \<open>Uuid::new_v4()\<close>.\<close>

definition now_utc :: "('s, 'n, 'd, 'r) app \<Rightarrow> ('s, 'n, 'd, 'e, instant) act" where
  "now_utc app w = (Inr (ap_clock app (wd_net w)), w)"

definition new_v4 :: "('s, 'n, 'd, 'r) app \<Rightarrow> ('s, 'n, 'd, 'e, uuid) act" where
  "new_v4 app w = (let (u, n) = ap_fresh app (wd_net w) in (Inr u, w\<lparr>wd_net := n\<rparr>))"

text \<open>
  One statement through the connection pool. The database has a clock and a source of ids of its
  own; the statement is atomic, and others may have run theirs in between.
\<close>

definition on_pool ::
  "('s, 'n, 'd, 'r) app \<Rightarrow> (instant \<Rightarrow> uuid \<Rightarrow> 'a db_op) \<Rightarrow> ('s, 'n, 'd, storage_error, 'a) act" where
  "on_pool app stmt w = (
     let (fault, n1) = ap_pool app (wd_net w); (u, n2) = ap_fresh app n1;
         now = ap_clock app n2; db = ap_others app n2 (wd_db w)
     in case fault of
       NoFault \<Rightarrow> (let (r, db') = stmt now u db in (r, w\<lparr>wd_net := n2, wd_db := db'\<rparr>))
     | LostRequest e \<Rightarrow> (Inl (map_sqlx (OtherDriverError e)), w\<lparr>wd_net := n2, wd_db := db\<rparr>)
     | LostReply e \<Rightarrow> (Inl (map_sqlx (OtherDriverError e)), w\<lparr>wd_net := n2, wd_db := snd (stmt now u db)\<rparr>))"

lemmas world_defs = focus_def in_the_session_def in_the_net_def with_key_def with_metadata_def now_utc_def new_v4_def

section \<open>What an action does to the tables\<close>

text \<open>
  The others run statements of the program too. Under that assumption every action of the program
  changes the tables only by its statements, so that what holds of all of them, the schema first,
  holds of any interleaving.
\<close>

definition others_ok :: "('s, 'n, 'd, 'r) app \<Rightarrow> bool" where
  "others_ok app \<longleftrightarrow> (\<forall>n db. (db_step (ap_inet_ok app))\<^sup>*\<^sup>* db (ap_others app n db))"

definition from_db :: "('s, 'n, 'd, 'r) app \<Rightarrow> database \<Rightarrow> ('s, 'n, 'd) world \<Rightarrow> bool" where
  "from_db app db w \<longleftrightarrow> (db_step (ap_inet_ok app))\<^sup>*\<^sup>* db (wd_db w)"

definition stays_in_program :: "('s, 'n, 'd, 'r) app \<Rightarrow> ('s, 'n, 'd, 'e, 'a) act \<Rightarrow> bool" where
  "stays_in_program app m \<longleftrightarrow> (\<forall>db. keeps (from_db app db) m)"

lemma keeps_focus:
  assumes "\<And>x w. wd_db (put x w) = wd_db w"
  shows "keeps (from_db app db) (focus get put m)"
  using assms by (auto intro!: keepsI simp: focus_def from_db_def split: prod.splits)

lemma keeps_in_the_session [keeps_intros]: "keeps (from_db app db) (in_the_session m)"
  unfolding in_the_session_def by (rule keeps_focus) simp

lemma keeps_in_the_net [keeps_intros]: "keeps (from_db app db) (in_the_net m)"
  unfolding in_the_net_def by (rule keeps_focus) simp

lemma keeps_with_key [keeps_intros]: "keeps (from_db app db) (with_key m)"
  unfolding with_key_def by (rule keeps_focus) auto

lemma keeps_with_metadata [keeps_intros]: "keeps (from_db app db) (with_metadata m)"
  unfolding with_metadata_def by (rule keeps_focus) auto

lemma keeps_now_utc [keeps_intros]: "keeps (from_db app db) (now_utc app')"
  by (simp add: keeps_def now_utc_def)

lemma keeps_new_v4 [keeps_intros]: "keeps (from_db app db) (new_v4 app')"
  by (auto simp: keeps_def new_v4_def from_db_def split: prod.splits)

text \<open>A statement is one step, or none when it only reads or is lost.\<close>

definition is_statement :: "('s, 'n, 'd, 'r) app \<Rightarrow> (instant \<Rightarrow> uuid \<Rightarrow> 'a db_op) \<Rightarrow> bool" where
  "is_statement app stmt \<longleftrightarrow> (\<forall>now u db. (db_step (ap_inet_ok app))\<^sup>*\<^sup>* db (snd (stmt now u db)))"

lemma keeps_on_pool [keeps_intros]:
  assumes "others_ok app" and "is_statement app stmt"
  shows "keeps (from_db app db) (on_pool app stmt)"
proof (rule keepsI)
  fix w assume w: "from_db app db w"
  obtain fault n1 u n2 where env: "ap_pool app (wd_net w) = (fault, n1)" "ap_fresh app n1 = (u, n2)" by fastforce
  let ?db = "ap_others app n2 (wd_db w)"
  have 1: "(db_step (ap_inet_ok app))\<^sup>*\<^sup>* db ?db"
    using w assms(1) by (auto simp: from_db_def others_ok_def intro: rtranclp_trans)
  have 2: "(db_step (ap_inet_ok app))\<^sup>*\<^sup>* db (snd (stmt (ap_clock app n2) u ?db))"
    using 1 assms(2) by (auto simp: is_statement_def intro: rtranclp_trans)
  show "from_db app db (snd (on_pool app stmt w))"
    using 1 2 by (cases fault) (auto simp: on_pool_def env from_db_def split: prod.splits)
qed

named_theorems statements \<open>the statements of the storage crate\<close>

lemma is_statement_read: "(\<And>now u db. snd (stmt now u db) = db) \<Longrightarrow> is_statement app stmt"
  by (simp add: is_statement_def)

lemma is_statement_step:
  "(\<And>now u db. db_step (ap_inet_ok app) db (snd (stmt now u db))) \<Longrightarrow> is_statement app stmt"
  by (simp add: is_statement_def r_into_rtranclp)


lemma statement_reads [statements]:
  "is_statement app (\<lambda>now u. jobs_by_id_for_user jid uid)" "is_statement app (\<lambda>now u. jobs_by_id_for_worker jid)"
  "is_statement app (\<lambda>now u. jobs_page_for_user uid a b)" "is_statement app (\<lambda>now u. jobs_active_for_user uid)"
  "is_statement app (\<lambda>now u. jobs_count_last_hour now uid)" "is_statement app (\<lambda>now u. jobs_list filt uid)"
  "is_statement app (\<lambda>now u. jobs_count filt)" "is_statement app (\<lambda>now u. jobs_asset_paths jid uid)"
  "is_statement app (\<lambda>now u. assets_for_job jid)" "is_statement app (\<lambda>now u. assets_by_id_for_user aid uid)"
  "is_statement app (\<lambda>now u. assets_paths_older_than now d)" "is_statement app (\<lambda>now u. users_by_id uid)"
  by (rule is_statement_read;
      simp add: jobs_by_id_for_user_def jobs_by_id_for_worker_def jobs_page_for_user_def jobs_active_for_user_def
        jobs_count_last_hour_def jobs_list_def jobs_count_def jobs_asset_paths_def assets_for_job_def
        assets_by_id_for_user_def assets_paths_older_than_def users_by_id_def split: prod.split)+

lemma statement_writes [statements]:
  "is_statement app (\<lambda>now u. jobs_create now u new)" "is_statement app (\<lambda>now u. jobs_mark_running now jid)"
  "is_terminal status \<Longrightarrow> is_statement app (\<lambda>now u. jobs_finish now jid status)"
  "is_statement app (\<lambda>now u. jobs_set_provider_job_id jid s)"
  "is_statement app (\<lambda>now u. jobs_fail_orphans now (error_code_as_str code) message)"
  "is_statement app (\<lambda>now u. jobs_delete_older_than now d)" "is_statement app (\<lambda>now u. jobs_set_hidden jid uid hidden)"
  "is_statement app (\<lambda>now u. jobs_delete_own jid uid)" "is_statement app (\<lambda>now u. assets_create now u asset)"
  "is_statement app (\<lambda>now u. users_upsert_on_login now u oid email name)"
  "is_statement app (\<lambda>now u. audit_record (ap_inet_ok app) now entry)"
  by (rule is_statement_step; blast intro: db_step.intros)+


section \<open>Who the session belongs to\<close>

definition USER_ID_KEY :: string where "USER_ID_KEY = ''app.user_id''"

definition remember :: "('s, 'n, 'd, 'r) app \<Rightarrow> uuid \<Rightarrow> ('s, 'n, 'd, app_error, unit) act" where
  "remember app uid =
     map_err (\<lambda>e. AppInternal (CauseSession e)) (in_the_session (sl_insert (ap_sessions app) USER_ID_KEY (UuidEntry uid)))"

definition upsert_user :: "('s, 'n, 'd, 'r) app \<Rightarrow> session_user \<Rightarrow> ('s, 'n, 'd, storage_error, user) act" where
  "upsert_user app u =
     on_pool app (\<lambda>now fresh. users_upsert_on_login now fresh (su_oid u) (su_email u) (su_display_name u))"

definition local_user_id :: "('s, 'n, 'd, 'r) app \<Rightarrow> session_user \<Rightarrow> ('s, 'n, 'd, app_error, uuid) act" where
  "local_user_id app u =
     attempt (map_err (\<lambda>e. AppInternal (CauseSession e)) (in_the_session (session_get (ap_sessions app) USER_ID_KEY as_uuid))) (\<lambda>cached.
       case cached of
         Some uid \<Rightarrow> succeed uid
       | None \<Rightarrow>
           attempt (map_err (\<lambda>e. AppInternal (CauseStorage e)) (upsert_user app u)) (\<lambda>row.
           attempt (remember app (user_id row)) (\<lambda>_. succeed (user_id row))))"

section \<open>The rate limit\<close>

definition ratelimit_check :: "('s, 'n, 'd, 'r) app \<Rightarrow> uuid \<Rightarrow> 32 word \<Rightarrow> ('s, 'n, 'd, app_error, unit) act" where
  "ratelimit_check app uid per_hour =
     (if per_hour = 0 then succeed ()
      else attempt (map_err (\<lambda>e. AppInternal (CauseStorage e)) (on_pool app (\<lambda>now _. jobs_count_last_hour now uid))) (\<lambda>used.
        if used \<ge> uint per_hour then fail AppRateLimited else succeed ()))"

text \<open>\<open>u32::try_from(used.max(0)).unwrap_or(u32::MAX)\<close>, then \<open>saturating_sub\<close>.\<close>

definition ratelimit_remaining :: "('s, 'n, 'd, 'r) app \<Rightarrow> uuid \<Rightarrow> 32 word \<Rightarrow> ('s, 'n, 'd, app_error, (32 word) option) act" where
  "ratelimit_remaining app uid per_hour =
     (if per_hour = 0 then succeed None
      else attempt (map_err (\<lambda>e. AppInternal (CauseStorage e)) (on_pool app (\<lambda>now _. jobs_count_last_hour now uid))) (\<lambda>used.
        let used' = (if max used 0 \<le> int u32_max then of_int (max used 0) else (- 1 :: 32 word))
        in succeed (Some (if used' \<le> per_hour then per_hour - used' else 0))))"

section \<open>The audit trail\<close>

text \<open>\<open>audit::record\<close> with its failure logged and dropped.\<close>

definition try_audit :: "('s, 'n, 'd, 'r) app \<Rightarrow> audit_entry \<Rightarrow> ('s, 'n, 'd, 'e, unit) act" where
  "try_audit app entry =
     handle (on_pool app (\<lambda>now _. audit_record (ap_inet_ok app) now entry)) (\<lambda>_. succeed ()) (\<lambda>_. succeed ())"

lemmas handler_helper_defs [handler_defs] = remember_def upsert_user_def local_user_id_def ratelimit_check_def
  ratelimit_remaining_def try_audit_def

lemma keeps_helpers [keeps_intros]:
  assumes "others_ok app"
  shows "keeps (from_db app db) (remember app uid)" "keeps (from_db app db) (upsert_user app su)"
    "keeps (from_db app db) (local_user_id app su)" "keeps (from_db app db) (ratelimit_check app uid limit)"
    "keeps (from_db app db) (ratelimit_remaining app uid limit)" "keeps (from_db app db) (try_audit app entry)"
  unfolding handler_defs Let_def by (intro keeps_intros statements assms)+

text \<open>The session functions of the auth crate, in the world of the handlers.\<close>

definition the_current_user :: "('s, 'n, 'd, 'r) app \<Rightarrow> ('s, 'n, 'd, auth_error, session_user option) act" where
  "the_current_user app = in_the_session (current_user (ap_sessions app))"

text \<open>What the rate limit shown to a user means.\<close>

lemma ratelimit_remaining_value:
  assumes "ratelimit_remaining app uid per_hour w = (Inr (Some left), w')" and "per_hour \<noteq> 0"
    and "on_pool app (\<lambda>now _. jobs_count_last_hour now uid) w = (Inr used, w')" and "0 \<le> used"
  shows "uint left = max 0 (uint per_hour - used)"
proof -
  define cap where "cap = (if used \<le> int u32_max then of_int used else (- 1 :: 32 word))"
  have "left = (if cap \<le> per_hour then per_hour - cap else 0)"
    using assms by (auto simp: ratelimit_remaining_def action_defs Let_def cap_def split: if_splits)
  then have left: "uint left = (if uint cap \<le> uint per_hour then uint per_hour - uint cap else 0)"
    by (auto simp: word_le_def uint_sub_if')
  have bound: "uint per_hour \<le> 4294967295" using uint_lt2p [of per_hour] by simp
  show ?thesis
  proof (cases "used \<le> int u32_max")
    case True
    then have "uint cap = used" using assms(4) by (simp add: cap_def uint_word_of_int take_bit_eq_mod)
    then show ?thesis using left by simp
  next
    case False
    then have "uint cap = 4294967295" by (simp add: cap_def unsigned_minus_1_eq_mask mask_eq_exp_minus_1)
    then show ?thesis using False left bound by simp
  qed
qed


section \<open>A small instance\<close>

text \<open>For evaluation: everything works, and the environment counts the calls made of it.\<close>

definition sample_app :: "(nat \<times> (string \<Rightarrow> session_value option), nat, unit, string) app" where
  "sample_app = \<lparr>ap_config = sample_config\<lparr>cf_azure_tenant_id := ''t'', cf_azure_client_id := ''c'',
       cf_azure_client_secret := None, cf_oidc_redirect_uri := ''http://localhost/auth/callback'',
       cf_app_base_url := ''http://localhost'', cf_required_app_role := None\<rparr>,
     ap_role_policy = \<lparr>rp_required = Some ''User''\<rparr>, ap_oidc = sample_oidc, ap_sessions = memory_sessions,
     ap_store = sample_store, ap_blob_libs = sample_libs,
     ap_blob_token = (\<lambda>n. (Inr ''token'', n)),
     ap_blob_send = (\<lambda>_ n. (Inr \<lparr>rs_status = 201, rs_shown = ''201 Created'', rs_headers = [], rs_body = []\<rparr>, n + 1)),
     ap_providers = sample_provider, ap_clock = int, ap_mono = int, ap_fresh = (\<lambda>n. (of_nat n, n + 1)), ap_sleep = (\<lambda>_ n. n + 1),
     ap_pool = (\<lambda>n. (NoFault, n)), ap_others = (\<lambda>_ db. db), ap_inet_ok = (\<lambda>_. True), ap_ip_ok = (\<lambda>_. True)\<rparr>"

lemma sample_app_simps [simp]:
  "config_oidc (ap_config sample_app) = sample_oidc_config" "ap_role_policy sample_app = \<lparr>rp_required = Some ''User''\<rparr>"
  "ap_oidc sample_app = sample_oidc" "ap_sessions sample_app = memory_sessions" "ap_clock sample_app n = int n"
  "ap_fresh sample_app n = (of_nat n, n + 1)" "ap_pool sample_app n = (NoFault, n)" "ap_others sample_app n db = db"
  "ap_store sample_app = sample_store" "ap_blob_token sample_app n = (Inr ''token'', n)"
  "ap_providers sample_app = sample_provider" "ap_sleep sample_app d n = n + 1" "ap_inet_ok sample_app s"
  by (simp_all add: sample_app_def config_oidc_def sample_config_def sample_oidc_config_def)

definition sample_client :: client_info where
  "sample_client = \<lparr>ci_ip = None, ci_user_agent = None\<rparr>"

lemma sample_others_ok: "others_ok sample_app"
  by (simp add: others_ok_def)

definition sample_world :: "database \<Rightarrow> (string \<Rightarrow> session_value option) \<Rightarrow> (nat \<times> (string \<Rightarrow> session_value option), nat, unit) world" where
  "sample_world db entries = \<lparr>wd_db = db, wd_session = (0, entries), wd_net = 0, wd_key = None, wd_metadata = None,
     wd_queue = [], wd_events = []\<rparr>"


section \<open>A quiet environment\<close>

text \<open>No connection is lost and no one else touches the tables: what an operation does on its own.\<close>

definition quiet :: "('s, 'n, 'd, 'r) app \<Rightarrow> bool" where
  "quiet app \<longleftrightarrow> (\<forall>n. fst (ap_pool app n) = NoFault) \<and> (\<forall>n db. ap_others app n db = db)"

lemma quiet_pool:
  assumes "quiet app"
  obtains n now u where "on_pool app stmt w =
    (fst (stmt now u (wd_db w)), w\<lparr>wd_net := n, wd_db := snd (stmt now u (wd_db w))\<rparr>)"
proof -
  obtain n1 where 1: "ap_pool app (wd_net w) = (NoFault, n1)"
    using assms by (cases "ap_pool app (wd_net w)") (auto simp: quiet_def dest: spec [of _ "wd_net w"])
  obtain u n2 where 2: "ap_fresh app n1 = (u, n2)" by fastforce
  have "on_pool app stmt w = (fst (stmt (ap_clock app n2) u (wd_db w)),
      w\<lparr>wd_net := n2, wd_db := snd (stmt (ap_clock app n2) u (wd_db w))\<rparr>)"
    using assms by (simp add: on_pool_def 1 2 quiet_def split: prod.split)
  then show ?thesis by (rule that)
qed

lemma sample_quiet: "quiet sample_app"
  by (simp add: quiet_def)

text \<open>What statements and calls leave alone.\<close>

definition aside :: "('s, 'n, 'd) world \<Rightarrow> uuid list \<times> (uuid \<times> job_status) list" where
  "aside w = (wd_queue w, wd_events w)"

lemma keeps_aside [keeps_intros]:
  "keeps (\<lambda>w. aside w = x) (on_pool app stmt)" "keeps (\<lambda>w. aside w = x) (in_the_net m)"
  "keeps (\<lambda>w. aside w = x) (in_the_session m')" "keeps (\<lambda>w. aside w = x) (now_utc app)"
  "keeps (\<lambda>w. aside w = x) (new_v4 app)" "keeps (\<lambda>w. aside w = x) (with_key m'')"
  by (auto simp: keeps_def aside_def on_pool_def world_defs Let_def split: prod.splits db_fault.splits)

lemma keeps_db_only:
  "keeps (\<lambda>w. P (wd_db w)) (in_the_net m)" "keeps (\<lambda>w. P (wd_db w)) (in_the_session m')"
  "keeps (\<lambda>w. P (wd_db w)) (now_utc app)" "keeps (\<lambda>w. P (wd_db w)) (new_v4 app)" "keeps (\<lambda>w. P (wd_db w)) (with_key m'')"
  by (auto simp: keeps_def world_defs split: prod.splits)

lemma keeps_quiet_pool:
  fixes app :: "('a, 'b, 'c, 'r) app"
  assumes "quiet app" and "\<And>now u. keeps P (stmt now u)"
  shows "keeps (\<lambda>w. P (wd_db w)) (on_pool app stmt)"
proof (rule keepsI)
  fix w :: "('a, 'b, 'c) world" assume w: "P (wd_db w)"
  obtain n now u where "on_pool app stmt w =
      (fst (stmt now u (wd_db w)), w\<lparr>wd_net := n, wd_db := snd (stmt now u (wd_db w))\<rparr>)"
    using quiet_pool [OF assms(1)] .
  then show "P (wd_db (snd (on_pool app stmt w)))" using keepsD [OF assms(2) w] by simp
qed

end
