(* ===== verification/Worker.thy ===== *)
theory Worker
  imports World
begin

text \<open>
  The job queue and its workers (\<open>jobs.rs\<close>): a job id is queued, a worker claims the row, calls the
  provider, stores the media and writes the terminal status, and every change of status is
  published.
\<close>

definition QUEUE_CAPACITY :: nat where "QUEUE_CAPACITY = 64"
definition WORKER_COUNT :: nat where "WORKER_COUNT = 4"
definition MAX_ASYNC_WAIT :: duration where "MAX_ASYNC_WAIT = seconds (15 * 60)"

section \<open>The queue and the events\<close>

text \<open>
  The channel is closed only when the process ends, so \<open>try_send\<close> fails exactly on a full queue. A
  published event is recorded whether or not anyone listens.
\<close>

definition enqueue :: "uuid \<Rightarrow> ('s, 'n, 'd, unit, unit) act" where
  "enqueue jid w = (if length (wd_queue w) < QUEUE_CAPACITY
     then (Inr (), w\<lparr>wd_queue := wd_queue w @ [jid]\<rparr>) else (Inl (), w))"

definition publish :: "uuid \<Rightarrow> job_status \<Rightarrow> ('s, 'n, 'd, 'e, unit) act" where
  "publish jid status w = (Inr (), w\<lparr>wd_events := wd_events w @ [(jid, status)]\<rparr>)"

section \<open>Names\<close>

definition blob_path :: "blob_libs \<Rightarrow> instant \<Rightarrow> uuid \<Rightarrow> media_type \<Rightarrow> string \<Rightarrow> string" where
  "blob_path libs now jid media extension = (let d = lib_civil libs now in
     dec_int (c_year d) @ ''/'' @ pad 2 (c_month d) @ ''/'' @ media_as_str media @ ''/'' @
     uuid_string jid @ ''.'' @ extension)"

definition reference_path :: "job \<Rightarrow> string option" where
  "reference_path j = (case Option.bind (json_get ''reference_path'' (job_parameters j)) json_as_str of
     None \<Rightarrow> None | Some path \<Rightarrow> if path = [] then None else Some path)"

definition content_type_for :: "string \<Rightarrow> string" where
  "content_type_for path = (let ext = after_last CHR ''.'' path in
     if ext = ''jpg'' \<or> ext = ''jpeg'' then ''image/jpeg''
     else if ext = ''webp'' then ''image/webp'' else ''image/png'')"

definition file_name_of :: "string \<Rightarrow> string" where
  "file_name_of path = (let name = after_last CHR ''/'' path in if name = [] then ''referanse.png'' else name)"

definition failed_with :: "provider_error \<Rightarrow> job_status" where
  "failed_with e = Failed (provider_error_code e) (provider_user_message e)"

section \<open>Generating\<close>

definition load_reference ::
  "('s, 'n, 'd, 'r) app \<Rightarrow> job \<Rightarrow> ('s, 'n, 'd, job_status, reference_image option) act" where
  "load_reference app j = (case reference_path j of
     None \<Rightarrow> succeed None
   | Some path \<Rightarrow>
       handle (in_the_net (blob_download (ap_store app) (ap_blob_token app) (ap_blob_send app) path))
         (\<lambda>_. fail (Failed Internal ERR_INTERNAL))
         (\<lambda>bytes. succeed (Some \<lparr>ri_bytes = bytes, ri_content_type = content_type_for path,
            ri_file_name = file_name_of path\<rparr>)))"

text \<open>
  The wait for an asynchronous provider. \<open>not_before\<close> is what the previous round tells about the
  monotonic clock: a sleep does not return before its time, and instants never go back.
\<close>

function poll_loop ::
  "('s, 'n, 'd, 'r) app \<Rightarrow> job \<Rightarrow> provider_job \<Rightarrow> instant \<Rightarrow> instant \<Rightarrow> ('s, 'n, 'd, job_status, generated_media) act" where
  "poll_loop app j submitted deadline not_before w = (
     let now = max (ap_mono app (wd_net w)) not_before in
     if deadline \<le> now then (Inl (Failed Upstream ERR_GENERATION_TIMEOUT), w)
     else
       (case in_the_net (provider_poll (ap_providers app) (job_media_type j) submitted)
               (w\<lparr>wd_net := ap_sleep app POLL_INTERVAL (wd_net w)\<rparr>) of
          (Inr PollRunning, w') \<Rightarrow> poll_loop app j submitted deadline (now + POLL_INTERVAL) w'
        | (Inr (PollSucceeded media), w') \<Rightarrow> (Inr media, w')
        | (Inr (PollFailed e), w') \<Rightarrow> (Inl (failed_with e), w')
        | (Inl e, w') \<Rightarrow> (Inl (failed_with e), w')))"
  by pat_completeness auto
termination
  by (relation "measure (\<lambda>(app, j, submitted, deadline, not_before, w). nat (deadline - not_before))")
     (auto simp: POLL_INTERVAL_def duration_defs)

declare poll_loop.simps [simp del]

definition record_provider_job ::
  "('s, 'n, 'd, 'r) app \<Rightarrow> job \<Rightarrow> provider_job \<Rightarrow> ('s, 'n, 'd, 'e, unit) act" where
  "record_provider_job app j submitted = (case pj_id submitted of
     None \<Rightarrow> succeed ()
   | Some pid \<Rightarrow> handle (on_pool app (\<lambda>_ _. jobs_set_provider_job_id (job_id j) pid)) (\<lambda>_. succeed ()) (\<lambda>_. succeed ()))"

definition worker_generate ::
  "('s, 'n, 'd, 'r) app \<Rightarrow> job \<Rightarrow> ('s, 'n, 'd, job_status, generated_media) act" where
  "worker_generate app j =
     attempt (load_reference app j) (\<lambda>reference.
     attempt (map_err failed_with (in_the_net (provider_submit (ap_providers app) (job_media_type j)
         \<lparr>gr_media_type = job_media_type j, gr_prompt = job_prompt j, gr_parameters = job_parameters j,
          gr_reference = reference, gr_correlation_id = uuid_string (job_id j)\<rparr>))) (\<lambda>submitted.
       case pj_media submitted of
         Some media \<Rightarrow> succeed media
       | None \<Rightarrow>
           attempt (record_provider_job app j submitted) (\<lambda>_ w.
             poll_loop app j submitted (ap_mono app (wd_net w) + MAX_ASYNC_WAIT) (ap_mono app (wd_net w)) w)))"

section \<open>Storing\<close>

definition store_media ::
  "('s, 'n, 'd, 'r) app \<Rightarrow> job \<Rightarrow> generated_media \<Rightarrow> ('s, 'n, 'd, storage_error, unit) act" where
  "store_media app j media =
     attempt (now_utc app) (\<lambda>now.
       let path = blob_path (ap_blob_libs app) now (job_id j) (job_media_type j) (gm_extension media) in
       attempt (in_the_net (blob_upload (ap_store app) (ap_blob_token app) (ap_blob_send app) path
           (gm_content_type media) (gm_bytes media))) (\<lambda>_.
       attempt (on_pool app (\<lambda>t fresh. assets_create t fresh
           \<lparr>na_job_id = job_id j, na_blob_path = path, na_content_type = gm_content_type media,
            na_size_bytes = int (length (gm_bytes media)), na_duration_ms = gm_duration_ms media,
            na_width = gm_width media, na_height = gm_height media\<rparr>)) (\<lambda>_. succeed ())))"

section \<open>Processing\<close>

text \<open>Nothing here returns an error: every failure ends up in the status of the job or in the log.\<close>

definition job_outcome :: "('s, 'n, 'd, 'r) app \<Rightarrow> job \<Rightarrow> ('s, 'n, 'd, unit, job_status) act" where
  "job_outcome app j =
     handle (worker_generate app j) succeed (\<lambda>media.
     handle (store_media app j media) (\<lambda>_. succeed (Failed Internal ERR_INTERNAL)) (\<lambda>_. succeed Succeeded))"

definition process :: "('s, 'n, 'd, 'r) app \<Rightarrow> uuid \<Rightarrow> ('s, 'n, 'd, unit, unit) act" where
  "process app jid =
     handle (on_pool app (\<lambda>now _. jobs_mark_running now jid)) (\<lambda>_. succeed ()) (\<lambda>j.
     attempt (publish jid Running) (\<lambda>_.
     attempt (job_outcome app j) (\<lambda>outcome.
     handle (on_pool app (\<lambda>now _. jobs_finish now jid outcome)) (\<lambda>_. succeed ()) (\<lambda>_. publish jid outcome))))"

text \<open>One turn of a worker: the next id of the shared queue.\<close>

definition worker_turn :: "('s, 'n, 'd, 'r) app \<Rightarrow> ('s, 'n, 'd, unit, unit) act" where
  "worker_turn app w = (case wd_queue w of
     [] \<Rightarrow> succeed () w
   | jid # rest \<Rightarrow> process app jid (w\<lparr>wd_queue := rest\<rparr>))"

definition fail_orphans :: "('s, 'n, 'd, 'r) app \<Rightarrow> ('s, 'n, 'd, storage_error, unit) act" where
  "fail_orphans app =
     attempt (on_pool app (\<lambda>now _. jobs_fail_orphans now (error_code_as_str Internal) ERR_JOB_INTERRUPTED)) (\<lambda>_. succeed ())"


section \<open>The wait is bounded\<close>

lemma keeps_poll_loop [keeps_intros]:
  fixes I :: "('s, 'n, 'd) world \<Rightarrow> bool"
  assumes "\<And>n w. I (w\<lparr>wd_net := n\<rparr>) = I w"
  shows "keeps I (poll_loop app j submitted deadline not_before)"
proof (rule keepsI)
  fix w :: "('s, 'n, 'd) world" assume "I w"
  then show "I (snd (poll_loop app j submitted deadline not_before w))"
  proof (induction app j submitted deadline not_before w rule: poll_loop.induct)
    case (1 app j submitted deadline not_before w)
    let ?now = "max (ap_mono app (wd_net w)) not_before"
    obtain r n where poll: "provider_poll (ap_providers app) (job_media_type j) submitted (ap_sleep app POLL_INTERVAL (wd_net w)) = (r, n)"
      by fastforce
    have net: "in_the_net (provider_poll (ap_providers app) (job_media_type j) submitted)
        (w\<lparr>wd_net := ap_sleep app POLL_INTERVAL (wd_net w)\<rparr>) = (r, w\<lparr>wd_net := n\<rparr>)"
      by (simp add: world_defs poll)
    have inv: "I (w\<lparr>wd_net := n\<rparr>)" using 1(2) assms by simp
    show ?case
    proof (cases "deadline \<le> ?now")
      case True
      then show ?thesis using 1(2) by (simp add: poll_loop.simps [of app j submitted deadline not_before w] Let_def)
    next
      case False
      then show ?thesis
        using 1(1) [OF refl False net [symmetric]] inv
        by (subst poll_loop.simps) (auto simp: Let_def net split: sum.split poll_status.split)
    qed
  qed
qed

lemma keeps_wait:
  assumes "\<And>n w. I (w\<lparr>wd_net := n\<rparr>) = I w"
  shows "keeps I (\<lambda>w. poll_loop app j submitted (deadline w) (not_before w) w)"
  unfolding keeps_def using keepsD [OF keeps_poll_loop [OF assms]] by blast

text \<open>Where the result of a wait comes from: a poll that succeeded, one that failed, or the deadline.\<close>

definition poll_accounts_for ::
  "('s, 'n, 'd, 'r) app \<Rightarrow> job \<Rightarrow> provider_job \<Rightarrow> job_status + generated_media \<Rightarrow> bool" where
  "poll_accounts_for app j submitted r \<longleftrightarrow> (case r of
     Inr media \<Rightarrow> \<exists>n n'. provider_poll (ap_providers app) (job_media_type j) submitted n = (Inr (PollSucceeded media), n')
   | Inl status \<Rightarrow> status = Failed Upstream ERR_GENERATION_TIMEOUT \<or>
       (\<exists>e n n'. status = failed_with e \<and>
          provider_poll (ap_providers app) (job_media_type j) submitted n \<in> {(Inl e, n'), (Inr (PollFailed e), n')}))"

text \<open>One round of the loop: it times out, goes on, or ends with the answer of the poll.\<close>

definition poll_result :: "provider_error + poll_status \<Rightarrow> job_status + generated_media" where
  "poll_result q = (case q of Inl e \<Rightarrow> Inl (failed_with e) | Inr (PollFailed e) \<Rightarrow> Inl (failed_with e)
     | Inr (PollSucceeded media) \<Rightarrow> Inr media | Inr PollRunning \<Rightarrow> Inl (Failed Upstream ERR_GENERATION_TIMEOUT))"

lemma poll_loop_round:
  assumes "provider_poll (ap_providers app) (job_media_type j) submitted (ap_sleep app POLL_INTERVAL (wd_net w)) = (q, n)"
  shows "poll_loop app j submitted deadline not_before w = (
    let now = max (ap_mono app (wd_net w)) not_before in
    if deadline \<le> now then (Inl (Failed Upstream ERR_GENERATION_TIMEOUT), w)
    else if q = Inr PollRunning then poll_loop app j submitted deadline (now + POLL_INTERVAL) (w\<lparr>wd_net := n\<rparr>)
    else (poll_result q, w\<lparr>wd_net := n\<rparr>))"
  using assms
  by (subst poll_loop.simps) (auto simp: Let_def world_defs poll_result_def split: sum.split poll_status.split)

lemma poll_result_accounts:
  assumes "provider_poll (ap_providers app) (job_media_type j) submitted n = (q, n')" and "q \<noteq> Inr PollRunning"
  shows "poll_accounts_for app j submitted (poll_result q)"
proof (cases q)
  case (Inl e)
  then show ?thesis using assms(1) by (auto simp: poll_accounts_for_def poll_result_def)
next
  case (Inr s)
  then show ?thesis using assms by (cases s) (auto simp: poll_accounts_for_def poll_result_def)
qed

text \<open>Each round pays for its sleep with the time it brings the deadline closer.\<close>

lemma poll_loop_pays:
  assumes "\<And>d n. meter (ap_sleep app d n) = meter n + (1 :: nat)"
    and "\<And>n. meter (snd (provider_poll (ap_providers app) (job_media_type j) submitted n)) = meter n"
    and "poll_loop app j submitted deadline not_before w = (r, w')"
  shows "int (meter (wd_net w')) * seconds 10 \<le> int (meter (wd_net w)) * seconds 10 + max 0 (deadline - not_before + seconds 10 - 1) \<and>
    poll_accounts_for app j submitted r"
  using assms
proof (induction app j submitted deadline not_before w rule: poll_loop.induct)
  case (1 app j submitted deadline not_before w)
  let ?now = "max (ap_mono app (wd_net w)) not_before"
  let ?w1 = "w\<lparr>wd_net := ap_sleep app POLL_INTERVAL (wd_net w)\<rparr>"
  obtain q n where poll: "provider_poll (ap_providers app) (job_media_type j) submitted (ap_sleep app POLL_INTERVAL (wd_net w)) = (q, n)"
    by fastforce
  then have net: "in_the_net (provider_poll (ap_providers app) (job_media_type j) submitted) ?w1 = (q, w\<lparr>wd_net := n\<rparr>)"
    by (simp add: world_defs)
  have m: "meter n = meter (wd_net w) + 1"
    using 1(2) [of POLL_INTERVAL "wd_net w"] 1(3) [of "ap_sleep app POLL_INTERVAL (wd_net w)"] poll by simp
  note round = 1(4) [unfolded poll_loop_round [OF poll] Let_def]
  consider "deadline \<le> ?now" | "\<not> deadline \<le> ?now" "q = Inr PollRunning" | "\<not> deadline \<le> ?now" "q \<noteq> Inr PollRunning" by blast
  then show ?case
  proof cases
    case 1
    then show ?thesis using round by (auto simp: poll_accounts_for_def)
  next
    case 2
    then have rec: "poll_loop app j submitted deadline (?now + POLL_INTERVAL) (w\<lparr>wd_net := n\<rparr>) = (r, w')" using round by simp
    have "int (meter n) * seconds 10 + max 0 (deadline - (?now + POLL_INTERVAL) + seconds 10 - 1) \<le>
        int (meter (wd_net w)) * seconds 10 + max 0 (deadline - not_before + seconds 10 - 1)"
      using 2(1) m by (auto simp: POLL_INTERVAL_def duration_defs)
    with "1.IH" [OF refl 2(1) net [symmetric, unfolded 2(2)] refl refl "1.prems"(1,2) rec] show ?thesis by auto
  next
    case 3
    then have "w' = w\<lparr>wd_net := n\<rparr>" "r = poll_result q" using round by auto
    moreover have "int (meter n) * seconds 10 \<le> int (meter (wd_net w)) * seconds 10 + max 0 (deadline - not_before + seconds 10 - 1)"
      using 3(1) m by (auto simp: duration_defs)
    ultimately show ?thesis using poll_result_accounts [OF poll 3(2)] by simp
  qed
qed

text \<open>
  C19: a generation never holds a worker for more than fifteen minutes of polling: however the
  provider answers, at most 90 polls are made, ten seconds apart, and then the job fails as timed
  out. Media is only ever that of a poll that succeeded, a failure that of a poll that failed.
  \<open>meter\<close> is any count of the sleeps of the environment.
\<close>

theorem polling_is_bounded:
  assumes slept: "\<And>d n. meter (ap_sleep app d n) = meter n + (1 :: nat)"
    and polled: "\<And>n. meter (snd (provider_poll (ap_providers app) (job_media_type j) submitted n)) = meter n"
    and run: "poll_loop app j submitted (start + MAX_ASYNC_WAIT) start w = (r, w')"
  shows "meter (wd_net w') \<le> meter (wd_net w) + 90 \<and> poll_accounts_for app j submitted r"
  using poll_loop_pays [OF slept polled run] by (auto simp: MAX_ASYNC_WAIT_def duration_defs)


text \<open>A provider whose videos never finish.\<close>

definition endless_provider :: "nat provider" where
  "endless_provider = sample_provider\<lparr>
     pv_net := sample_env\<lparr>ne_send := (\<lambda>req n. (Inr \<lparr>rs_status = 200, rs_shown = ''200 OK'', rs_headers = [], rs_body = ''video''\<rparr>, n))\<rparr>,
     pv_parse_json := (\<lambda>_. Inr (JObj [(''id'', JStr ''v''), (''status'', JStr ''queued'')]))\<rparr>"

definition sample_video_job :: job where
  "sample_video_job = \<lparr>job_id = 7, job_user_id = 1, job_media_type = Video, job_prompt = ''Hei'', job_parameters = JNull,
     job_status = Running, job_provider_job_id = None, job_created_at = 0, job_started_at = Some 0, job_completed_at = None\<rparr>"

lemma endless_poll: "provider_poll endless_provider Video (pending ''v'') n = (Inr PollRunning, n)"
proof -
  have send: "send_with_retry (pv_net endless_provider) req n = (Inr \<lparr>rs_status = 200, rs_shown = ''200 OK'', rs_headers = [], rs_body = ''video''\<rparr>, n)"
    for req unfolding send_with_retry_def by (subst send_attempt.simps) (simp add: endless_provider_def is_success_def)
  have lower: "classify u ''queued'' = ProgressRunning" for u
  proof -
    have "to_lowercase u ''queued'' = ''queued''" by (simp add: to_lowercase_def chars_all_ascii) code_simp
    then show ?thesis by (simp add: classify_def)
  qed
  have fixed: "pv_headers endless_provider m = (Inr [], m)" "pv_read_body endless_provider resp = Inr (rs_body resp)"
    "pv_parse_json endless_provider s = Inr (JObj [(''id'', JStr ''v''), (''status'', JStr ''queued'')])" for m resp s
    by (simp_all add: endless_provider_def sample_provider_def)
  show ?thesis
    by (simp add: provider_poll_def video_poll_def pending_def action_defs send response_json_def response_text_def
        fixed video_of_def serde_str_def serde_opt_str_def serde_field_def lower)
qed

theorem polling_is_bounded_witness:
  "wd_net (snd (poll_loop (sample_app\<lparr>ap_providers := endless_provider\<rparr>) sample_video_job (pending ''v'') MAX_ASYNC_WAIT 0
     (sample_world empty_database Map.empty))) \<le> 90"
proof -
  let ?app = "sample_app\<lparr>ap_providers := endless_provider\<rparr>" and ?w = "sample_world empty_database Map.empty"
  obtain r w' where run: "poll_loop ?app sample_video_job (pending ''v'') (0 + MAX_ASYNC_WAIT) 0 ?w = (r, w')" by fastforce
  have slept: "id (ap_sleep ?app d n) = id n + (1 :: nat)" for d n by (simp add: sample_app_def)
  have polled: "id (snd (provider_poll (ap_providers ?app) (job_media_type sample_video_job) (pending ''v'') n)) = id n" for n
    by (simp add: endless_poll sample_video_job_def)
  from polling_is_bounded [of id, OF slept polled run] run show ?thesis by (simp add: sample_world_def)
qed


section \<open>Every job comes to an end\<close>

lemma failed_terminal [simp]: "is_terminal (failed_with e)"
  by (simp add: failed_with_def)

lemma poll_loop_terminal:
  "poll_loop app j submitted deadline not_before w = (Inl status, w') \<Longrightarrow> \<exists>code message. status = Failed code message"
proof (induction app j submitted deadline not_before w rule: poll_loop.induct)
  case (1 app j submitted deadline not_before w)
  then show ?case
    by (subst (asm) (2) poll_loop.simps)
       (auto simp: Let_def failed_with_def split: if_splits prod.splits sum.splits poll_status.splits)
qed

lemma worker_generate_terminal:
  "worker_generate app j w = (Inl status, w') \<Longrightarrow> \<exists>code message. status = Failed code message"
  by (auto simp: worker_generate_def load_reference_def record_provider_job_def action_defs failed_with_def
      dest!: poll_loop_terminal split: option.splits prod.splits sum.splits)

lemma job_outcome_total:
  obtains status w' where "job_outcome app j w = (Inr status, w')"
    and "status = Succeeded \<or> (\<exists>code message. status = Failed code message)"
proof -
  have "\<exists>status w'. job_outcome app j w = (Inr status, w') \<and> (status = Succeeded \<or> (\<exists>code message. status = Failed code message))"
    using worker_generate_terminal [of app j w]
    by (auto simp: job_outcome_def action_defs split: prod.splits sum.splits)
  with that show ?thesis by blast
qed

lemma keeps_job_outcome:
  assumes "others_ok app"
  shows "keeps (from_db app db) (job_outcome app j)"
proof -
  have net: "from_db app db (w\<lparr>wd_net := n\<rparr>) = from_db app db w" for n w by (simp add: from_db_def)
  have wait: "keeps (from_db app db) (\<lambda>w. poll_loop app j s (d w) (b w) w)" for s d b
    by (rule keeps_wait) (rule net)
  show ?thesis
    unfolding job_outcome_def worker_generate_def load_reference_def record_provider_job_def store_media_def Let_def
    by (intro keeps_intros statements assms wait)
qed

lemma process_stays_in_program:
  assumes "others_ok app"
  shows "keeps (from_db app db) (process app jid)"
proof -
  have tail: "keeps (from_db app db) (attempt (job_outcome app j) (\<lambda>outcome.
      handle (on_pool app (\<lambda>now _. jobs_finish now jid outcome)) (\<lambda>_. succeed ()) (\<lambda>_. publish jid outcome)))" for j
  proof (rule keepsI)
    fix w assume w: "from_db app db w"
    obtain status w1 where o: "job_outcome app j w = (Inr status, w1)" "is_terminal status"
      by (rule job_outcome_total [of app j w]) auto
    have w1: "from_db app db w1" using keepsD' [OF keeps_job_outcome [OF assms] o(1) w] .
    have "keeps (from_db app db) (handle (on_pool app (\<lambda>now _. jobs_finish now jid status)) (\<lambda>_. succeed ()) (\<lambda>_. publish jid status))"
      using assms o(2) by (intro keeps_intros statements) (auto simp: keeps_def publish_def from_db_def)
    from keepsD [OF this w1]
    show "from_db app db (snd (attempt (job_outcome app j) (\<lambda>outcome.
      handle (on_pool app (\<lambda>now _. jobs_finish now jid outcome)) (\<lambda>_. succeed ()) (\<lambda>_. publish jid outcome)) w))"
      by (simp add: attempt_def o)
  qed
  have pub: "keeps (from_db app db) (publish jid st)" for st by (auto simp: keeps_def publish_def from_db_def)
  show ?thesis unfolding process_def by (intro keeps_intros statements assms tail pub)
qed

text \<open>The tables while the provider works: only the provider's own id of the job may change.\<close>

definition without_provider_id :: "job_row \<Rightarrow> job_row" where
  "without_provider_id r = r\<lparr>j_provider_job_id := None\<rparr>"

definition same_jobs :: "database \<Rightarrow> database \<Rightarrow> bool" where
  "same_jobs db db' \<longleftrightarrow> db_ok db' \<and> users db' = users db \<and> audit_log db' = audit_log db \<and>
     map without_provider_id (jobs db') = map without_provider_id (jobs db)"

lemma row_by_map: "(\<And>r. k (f r) = k r) \<Longrightarrow> row_by k (map f rows) i = map_option f (row_by k rows i)"
  by (induction rows) (auto simp: row_by_def)

lemma same_jobs_table:
  assumes "same_jobs db db'"
  shows "map_option without_provider_id (job_table db' i) = map_option without_provider_id (job_table db i)"
proof -
  have key: "j_id (without_provider_id r) = j_id r" for r by (simp add: without_provider_id_def)
  have "row_by j_id (map without_provider_id (jobs db')) i = row_by j_id (map without_provider_id (jobs db)) i"
    using assms by (simp add: same_jobs_def)
  then show ?thesis by (simp add: row_by_map key)
qed

lemma update_provider_id:
  "map without_provider_id (update_where P (\<lambda>r. r\<lparr>j_provider_job_id := x\<rparr>) rows) = map without_provider_id rows"
  by (auto simp: update_where_def without_provider_id_def)

lemma set_provider_job_id_same:
  "keeps (\<lambda>db'. same_jobs db db' \<and> assets db' = A) (jobs_set_provider_job_id jid s)"
proof (rule keepsI)
  fix db' assume db': "same_jobs db db' \<and> assets db' = A"
  have "db_ok (snd (jobs_set_provider_job_id jid s db'))"
    using db' keepsD [OF keeps_jobs_updates(3)] by (auto simp: same_jobs_def)
  then show "same_jobs db (snd (jobs_set_provider_job_id jid s db')) \<and> assets (snd (jobs_set_provider_job_id jid s db')) = A"
    using db' by (auto simp: jobs_set_provider_job_id_def update_jobs_def Let_def same_jobs_def update_provider_id)
qed

lemma worker_generate_same:
  assumes "quiet app"
  shows "keeps (\<lambda>w. same_jobs db (wd_db w) \<and> assets (wd_db w) = A) (worker_generate app j)"
    and "keeps (\<lambda>w. aside w = x) (worker_generate app j)"
proof -
  let ?I = "\<lambda>w. same_jobs db (wd_db w) \<and> assets (wd_db w) = A"
  have wait: "keeps ?I (\<lambda>w. poll_loop app j s (d w) (b w) w)" for s d b
    by (rule keeps_wait) simp
  show "keeps ?I (worker_generate app j)"
    unfolding worker_generate_def load_reference_def record_provider_job_def
    by (intro keeps_intros keeps_db_only [where P = "\<lambda>d. same_jobs db d \<and> assets d = A"] wait
        keeps_quiet_pool [where P = "\<lambda>d. same_jobs db d \<and> assets d = A", OF assms] set_provider_job_id_same)
  have wait': "keeps (\<lambda>w. aside w = x) (\<lambda>w. poll_loop app j s (d w) (b w) w)" for s d b
    by (rule keeps_wait) (simp add: aside_def)
  show "keeps (\<lambda>w. aside w = x) (worker_generate app j)"
    unfolding worker_generate_def load_reference_def record_provider_job_def
    by (intro keeps_intros wait')
qed


text \<open>The asset of a job: recorded under the path its bytes were uploaded to, with their size and type.\<close>

definition stored_asset ::
  "('s, 'n, 'd, 'r) app \<Rightarrow> uuid \<Rightarrow> generated_media \<Rightarrow> asset_row \<Rightarrow> bool" where
  "stored_asset app jid media a \<longleftrightarrow> (\<exists>n n'.
     blob_upload (ap_store app) (ap_blob_token app) (ap_blob_send app) (a_blob_path a) (gm_content_type media) (gm_bytes media) n =
       (Inr (), n') \<and>
     a_job_id a = jid \<and> a_content_type a = gm_content_type media \<and> a_size_bytes a = int (length (gm_bytes media)))"

lemma assets_create_same:
  "same_jobs db db' \<Longrightarrow> same_jobs db (snd (assets_create t u new db'))"
  "assets_create t u new db' = (Inl e, db'') \<Longrightarrow> db'' = db'"
  "assets_create t u new db' = (Inr a, db'') \<Longrightarrow> \<exists>row. assets db'' = assets db' @ [row] \<and> a_job_id row = na_job_id new \<and>
     a_blob_path row = na_blob_path new \<and> a_content_type row = na_content_type new \<and> a_size_bytes row = na_size_bytes new"
  using keepsD [OF keeps_assets_create, of db' t u new]
  by (auto simp: assets_create_def Let_def same_jobs_def split: if_splits)

lemma store_media_quiet:
  assumes "quiet app" and "store_media app j media w = (r, w')" and "same_jobs db (wd_db w)"
  shows "same_jobs db (wd_db w') \<and> aside w' = aside w \<and>
    (case r of Inl _ \<Rightarrow> assets (wd_db w') = assets (wd_db w)
     | Inr _ \<Rightarrow> \<exists>a. stored_asset app (job_id j) media a \<and> assets (wd_db w') = assets (wd_db w) @ [a])"
proof -
  let ?path = "blob_path (ap_blob_libs app) (ap_clock app (wd_net w)) (job_id j) (job_media_type j) (gm_extension media)"
  let ?new = "\<lparr>na_job_id = job_id j, na_blob_path = ?path, na_content_type = gm_content_type media,
     na_size_bytes = int (length (gm_bytes media)), na_duration_ms = gm_duration_ms media,
     na_width = gm_width media, na_height = gm_height media\<rparr>"
  obtain q n where up: "blob_upload (ap_store app) (ap_blob_token app) (ap_blob_send app) ?path (gm_content_type media) (gm_bytes media) (wd_net w) = (q, n)"
    by fastforce
  show ?thesis
  proof (cases q)
    case (Inl e)
    then have "r = Inl e" "w' = w\<lparr>wd_net := n\<rparr>"
      using assms(2) by (auto simp: store_media_def now_utc_def attempt_def in_the_net_def focus_def Let_def up)
    then show ?thesis using assms(3) by (simp add: aside_def)
  next
    case (Inr x)
    obtain n' t u where pool: "on_pool app (\<lambda>t fresh. assets_create t fresh ?new) (w\<lparr>wd_net := n\<rparr>) =
        (fst (assets_create t u ?new (wd_db w)), w\<lparr>wd_net := n', wd_db := snd (assets_create t u ?new (wd_db w))\<rparr>)"
      by (rule quiet_pool [OF assms(1), of "\<lambda>t fresh. assets_create t fresh ?new" "w\<lparr>wd_net := n\<rparr>"]) simp
    obtain ra db' where made: "assets_create t u ?new (wd_db w) = (ra, db')" by fastforce
    have w': "w' = w\<lparr>wd_net := n', wd_db := db'\<rparr>" and r: "r = (case ra of Inl e \<Rightarrow> Inl e | Inr _ \<Rightarrow> Inr ())"
      using assms(2) Inr
      by (auto simp: store_media_def now_utc_def attempt_def in_the_net_def focus_def up pool made succeed_def Let_def split: sum.splits)
    have same: "same_jobs db db'" using assets_create_same(1) [OF assms(3), of t u ?new] made by simp
    show ?thesis
    proof (cases ra)
      case (Inl e)
      with made assets_create_same(2) have "db' = wd_db w" by blast
      with Inl same w' r show ?thesis by (simp add: aside_def)
    next
      case ra: (Inr a)
      from assets_create_same(3) [OF made [unfolded ra]] obtain row where row: "assets db' = assets (wd_db w) @ [row]"
        "a_job_id row = job_id j" "a_blob_path row = ?path" "a_content_type row = gm_content_type media"
        "a_size_bytes row = int (length (gm_bytes media))" by auto
      have "stored_asset app (job_id j) media row"
        using up Inr row unfolding stored_asset_def by (intro exI [of _ "wd_net w"] exI [of _ n]) simp
      with row(1) same w' r ra show ?thesis by (auto simp: aside_def)
    qed
  qed
qed

lemma job_outcome_quiet:
  assumes "quiet app" and "job_outcome app j w = (Inr status, w')" and "db_ok (wd_db w)"
  shows "same_jobs (wd_db w) (wd_db w') \<and> aside w' = aside w \<and>
    (if status = Succeeded
     then \<exists>media a. stored_asset app (job_id j) media a \<and> assets (wd_db w') = assets (wd_db w) @ [a]
     else assets (wd_db w') = assets (wd_db w))"
proof -
  have start: "same_jobs (wd_db w) (wd_db w)" using assms(3) by (simp add: same_jobs_def)
  obtain rg w1 where g: "worker_generate app j w = (rg, w1)" by fastforce
  have g1: "same_jobs (wd_db w) (wd_db w1)" "assets (wd_db w1) = assets (wd_db w)" "aside w1 = aside w"
    using keepsD' [OF worker_generate_same(1) [OF assms(1)] g, of "wd_db w" "assets (wd_db w)"]
      keepsD' [OF worker_generate_same(2) [OF assms(1)] g, of "aside w"] start by simp_all
  show ?thesis
  proof (cases rg)
    case (Inl st)
    then have "status = st" "w' = w1" using assms(2) by (auto simp: job_outcome_def handle_def g succeed_def)
    moreover have "st \<noteq> Succeeded" using worker_generate_terminal [OF g [unfolded Inl]] by auto
    ultimately show ?thesis using g1 by simp
  next
    case (Inr media)
    obtain rs w2 where s: "store_media app j media w1 = (rs, w2)" by fastforce
    note s1 = store_media_quiet [OF assms(1) s g1(1)]
    have "status = (case rs of Inl _ \<Rightarrow> Failed Internal ERR_INTERNAL | Inr _ \<Rightarrow> Succeeded)" "w' = w2"
      using assms(2) Inr by (auto simp: job_outcome_def handle_def g s succeed_def split: sum.splits)
    with s1 g1 show ?thesis by (auto split: sum.splits)
  qed
qed


text \<open>The claim of a job and its end, each one statement on a quiet pool.\<close>

lemma claim_quiet:
  assumes "quiet app" and "db_ok (wd_db w)" and "job_table (wd_db w) jid = Some row" and "j_status row = ''queued''"
  obtains now w1 where
    "on_pool app (\<lambda>now _. jobs_mark_running now jid) w = (Inr (to_job (started_row now row)), w1)"
    "job_table (wd_db w1) = (job_table (wd_db w)) (jid \<mapsto> started_row now row)"
    "assets (wd_db w1) = assets (wd_db w)" "aside w1 = aside w" "db_ok (wd_db w1)"
proof -
  let ?stmt = "\<lambda>now (_ :: uuid). jobs_mark_running now jid"
  let ?db = "\<lambda>now. (wd_db w)\<lparr>jobs := update_where (\<lambda>r. j_id r = jid \<and> j_status r = ''queued'') (started_row now) (jobs (wd_db w))\<rparr>"
  obtain n now where step: "on_pool app ?stmt w = (fst (jobs_mark_running now jid (wd_db w)),
      w\<lparr>wd_net := n, wd_db := snd (jobs_mark_running now jid (wd_db w))\<rparr>)"
    by (rule quiet_pool [OF assms(1), of ?stmt w])
  have run: "jobs_mark_running now jid (wd_db w) = (Inr (to_job (started_row now row)), ?db now)"
    using assms by (simp add: jobs_mark_running_eq)
  have "db_ok (?db now)" using keepsD [OF keeps_jobs_updates(1) assms(2), of now jid] run by simp
  moreover have "job_table (?db now) = (job_table (wd_db w)) (jid \<mapsto> started_row now row)"
    using assms(3,4) by (auto simp: fun_eq_iff row_by_update_where map_option_case dest: row_by_SomeD split: option.split)
  ultimately show ?thesis
    using that [of now "w\<lparr>wd_net := n, wd_db := ?db now\<rparr>"] step run by (simp add: aside_def)
qed

lemma finish_quiet:
  assumes "quiet app" and "db_ok (wd_db w)" and "job_table (wd_db w) jid = Some row" and "j_status row = ''running''"
  obtains now job w1 where
    "on_pool app (\<lambda>now _. jobs_finish now jid status) w = (Inr job, w1)"
    "job_table (wd_db w1) = (job_table (wd_db w)) (jid \<mapsto> finished_row now status row)"
    "assets (wd_db w1) = assets (wd_db w)" "aside w1 = aside w" "db_ok (wd_db w1)"
proof -
  let ?stmt = "\<lambda>now (_ :: uuid). jobs_finish now jid status"
  let ?db = "\<lambda>now. (wd_db w)\<lparr>jobs := update_where (\<lambda>r. j_id r = jid \<and> unfinished r) (finished_row now status) (jobs (wd_db w))\<rparr>"
  obtain n now where step: "on_pool app ?stmt w = (fst (jobs_finish now jid status (wd_db w)),
      w\<lparr>wd_net := n, wd_db := snd (jobs_finish now jid status (wd_db w))\<rparr>)"
    by (rule quiet_pool [OF assms(1), of ?stmt w])
  have un: "unfinished row" using assms(4) by (simp add: unfinished_def)
  have run: "jobs_finish now jid status (wd_db w) = (Inr (to_job (finished_row now status row)), ?db now)"
    using assms un by (simp add: jobs_finish_eq)
  have "db_ok (?db now)" using keepsD [OF keeps_jobs_updates(2) assms(2), of now jid status] run by simp
  moreover have "job_table (?db now) = (job_table (wd_db w)) (jid \<mapsto> finished_row now status row)"
    using assms(3) un by (auto simp: fun_eq_iff row_by_update_where map_option_case dest: row_by_SomeD split: option.split)
  ultimately show ?thesis
    using that [of "to_job (finished_row now status row)" "w\<lparr>wd_net := n, wd_db := ?db now\<rparr>" now] step run
    by (simp add: aside_def)
qed


lemma without_provider_idD:
  "without_provider_id r = without_provider_id s \<Longrightarrow> r = s\<lparr>j_provider_job_id := j_provider_job_id r\<rparr>"
  by (cases r; cases s) (simp add: without_provider_id_def)

definition ran_to :: "uuid \<Rightarrow> job_status \<Rightarrow> job_row \<Rightarrow> job_row \<Rightarrow> bool" where
  "ran_to jid status row row' \<longleftrightarrow> row_status row' = status \<and> j_started_at row' \<noteq> None \<and> j_completed_at row' \<noteq> None \<and>
     j_id row' = jid \<and> j_user_id row' = j_user_id row \<and> j_prompt row' = j_prompt row \<and>
     j_parameters row' = j_parameters row \<and> j_hidden row' = j_hidden row"

lemma process_quiet:
  assumes quiet: "quiet app" and ok: "db_ok (wd_db w)"
    and row: "job_table (wd_db w) jid = Some row" and queued: "j_status row = ''queued''"
    and run: "process app jid w = (r, w')"
  obtains status row' made where "status = Succeeded \<or> (\<exists>code message. status = Failed code message)"
    and "r = Inr ()" and "db_ok (wd_db w')" and "job_table (wd_db w') jid = Some row'" and "ran_to jid status row row'"
    and "wd_events w' = wd_events w @ [(jid, Running), (jid, status)]" and "wd_queue w' = wd_queue w"
    and "assets (wd_db w') = assets (wd_db w) @ made"
    and "if status = Succeeded then \<exists>media a. made = [a] \<and> stored_asset app jid media a else made = []"
    and "\<And>i. i \<noteq> jid \<Longrightarrow> map_option without_provider_id (job_table (wd_db w') i) = map_option without_provider_id (job_table (wd_db w) i)"
proof -
  obtain now w1 where claim: "on_pool app (\<lambda>now _. jobs_mark_running now jid) w = (Inr (to_job (started_row now row)), w1)"
      and t1: "job_table (wd_db w1) = (job_table (wd_db w)) (jid \<mapsto> started_row now row)"
      and w1: "assets (wd_db w1) = assets (wd_db w)" "aside w1 = aside w" "db_ok (wd_db w1)"
    by (rule claim_quiet [OF quiet ok row queued])
  let ?j = "to_job (started_row now row)" and ?w1 = "w1\<lparr>wd_events := wd_events w1 @ [(jid, Running)]\<rparr>"
  have jid: "j_id row = jid" using row_by_SomeD [OF row] by simp
  obtain status w2 where out: "job_outcome app ?j ?w1 = (Inr status, w2)"
      and st: "status = Succeeded \<or> (\<exists>code message. status = Failed code message)"
    by (rule job_outcome_total)
  have ok1: "db_ok (wd_db ?w1)" using w1 by simp
  note q = job_outcome_quiet [OF quiet out ok1]
  have same: "same_jobs (wd_db w1) (wd_db w2)" using q by simp
  note t2 = same_jobs_table [OF same]
  obtain row2 where row2: "job_table (wd_db w2) jid = Some row2"
      "without_provider_id row2 = without_provider_id (started_row now row)"
    using t2 [of jid] by (auto simp: t1)
  note row2' = without_provider_idD [OF row2(2)]
  have running: "j_status row2 = ''running''" by (subst row2') (simp add: started_row_def)
  have ok2: "db_ok (wd_db w2)" using same by (simp add: same_jobs_def)
  obtain now' j' w3 where fin: "on_pool app (\<lambda>now _. jobs_finish now jid status) w2 = (Inr j', w3)"
      and t3: "job_table (wd_db w3) = (job_table (wd_db w2)) (jid \<mapsto> finished_row now' status row2)"
      and w3: "assets (wd_db w3) = assets (wd_db w2)" "aside w3 = aside w2" "db_ok (wd_db w3)"
    by (rule finish_quiet [OF quiet ok2 row2(1) running])
  have w': "r = Inr ()" "w' = w3\<lparr>wd_events := wd_events w3 @ [(jid, status)]\<rparr>"
    using run by (simp_all add: process_def handle_def attempt_def publish_def claim out fin)
  have row': "ran_to jid status row (finished_row now' status row2)"
    by (subst row2') (simp add: ran_to_def jid)
  have others: "map_option without_provider_id (job_table (wd_db w') i) = map_option without_provider_id (job_table (wd_db w) i)"
    if "i \<noteq> jid" for i using t2 [of i] that by (simp add: w' t3 t1)
  obtain made where made: "assets (wd_db w') = assets (wd_db w) @ made"
      "if status = Succeeded then \<exists>media a. made = [a] \<and> stored_asset app jid media a else made = []"
    using q w1 w3 jid by (cases "status = Succeeded") (auto simp: w')
  have ends: "wd_events w' = wd_events w @ [(jid, Running), (jid, status)]" "wd_queue w' = wd_queue w"
    using q w1(2) w3(2) by (simp_all add: w' aside_def)
  have "db_ok (wd_db w')" "job_table (wd_db w') jid = Some (finished_row now' status row2)" using w3(3) t3 by (simp_all add: w')
  then show ?thesis by (rule that [OF st w'(1) _ _ row' ends made others])
qed

text \<open>
  C1: on a working database every claimed job comes to an end, whatever the provider and the
  store answer. A queued job is taken to a terminal status, that status is what is published last,
  exactly one asset is recorded when it is \<open>Succeeded\<close> (of bytes the store accepted under that
  path, with their size and type) and none when it is \<open>Failed\<close>; the queue is left alone, and of
  other jobs nothing changes.
\<close>

theorem process_finishes_job:
  assumes quiet: "quiet app" and ok: "db_ok (wd_db w)"
    and row: "job_table (wd_db w) jid = Some row" and queued: "j_status row = ''queued''"
    and run: "process app jid w = (r, w')"
  shows "\<exists>status row' made. (status = Succeeded \<or> (\<exists>code message. status = Failed code message)) \<and>
    r = Inr () \<and> db_ok (wd_db w') \<and> job_table (wd_db w') jid = Some row' \<and> ran_to jid status row row' \<and>
    wd_events w' = wd_events w @ [(jid, Running), (jid, status)] \<and> wd_queue w' = wd_queue w \<and>
    assets (wd_db w') = assets (wd_db w) @ made \<and>
    (if status = Succeeded then \<exists>media a. made = [a] \<and> stored_asset app jid media a else made = []) \<and>
    (\<forall>i. i \<noteq> jid \<longrightarrow> map_option without_provider_id (job_table (wd_db w') i) = map_option without_provider_id (job_table (wd_db w) i))"
  using process_quiet [OF quiet ok row queued run] by metis


theorem process_finishes_job_witness:
  "let w' = snd (process sample_app 10 (sample_world sample_db Map.empty))
   in \<exists>status. is_terminal status \<and> wd_events w' = [(10, Running), (10, status)] \<and>
        map_option row_status (job_table (wd_db w') 10) = Some status"
proof -
  let ?w = "sample_world sample_db Map.empty"
  obtain r w' where run: "process sample_app 10 ?w = (r, w')" by fastforce
  have w: "db_ok (wd_db ?w)" "job_table (wd_db ?w) 10 = Some (sample_job 10 1 ''queued'' False 5)"
    by (simp_all add: sample_world_def sample_db_ok sample_tables)
  have "j_status (sample_job 10 1 ''queued'' False 5) = ''queued''" by (simp add: sample_job_def)
  from process_finishes_job [OF sample_quiet w this run] obtain status row' where
    "status = Succeeded \<or> (\<exists>code message. status = Failed code message)" "job_table (wd_db w') 10 = Some row'"
    "row_status row' = status" "wd_events w' = wd_events ?w @ [(10, Running), (10, status)]"
    by (auto simp: ran_to_def)
  then show ?thesis using run by (auto simp: sample_world_def)
qed

text \<open>An id that is not waiting is skipped: no event, no provider call's result, no change of the tables.\<close>

lemma process_skips:
  assumes "quiet app" and "db_ok (wd_db w)" and "\<And>row. job_table (wd_db w) jid = Some row \<Longrightarrow> j_status row \<noteq> ''queued''"
  shows "fst (process app jid w) = Inr ()" and "wd_db (snd (process app jid w)) = wd_db w"
    and "aside (snd (process app jid w)) = aside w"
proof -
  let ?stmt = "\<lambda>now (_ :: uuid). jobs_mark_running now jid"
  obtain n now u where step: "on_pool app ?stmt w = (fst (jobs_mark_running now jid (wd_db w)),
      w\<lparr>wd_net := n, wd_db := snd (jobs_mark_running now jid (wd_db w))\<rparr>)"
    by (rule quiet_pool [OF assms(1), of ?stmt w])
  have "jobs_mark_running now jid (wd_db w) = (Inl StorageNotFound, wd_db w)"
    using assms(3) by (simp add: jobs_mark_running_eq [OF assms(2)] split: option.split)
  with step show "fst (process app jid w) = Inr ()" "wd_db (snd (process app jid w)) = wd_db w"
    "aside (snd (process app jid w)) = aside w"
    by (simp_all add: process_def handle_def succeed_def aside_def)
qed

end
