(* ===== verification/Retention.thy ===== *)
theory Retention
  imports Worker
begin

text \<open>
  The daily clean-up (\<open>retention.rs\<close>): the files of expired assets are deleted first, the job
  rows with their assets after them, and a sweep that fails is tried again at the next tick.
\<close>

definition SWEEP_INTERVAL :: duration where "SWEEP_INTERVAL = seconds (24 * 60 * 60)"
definition FIRST_SWEEP_DELAY :: duration where "FIRST_SWEEP_DELAY = seconds (5 * 60)"

record sweep_report =
  sr_jobs_deleted :: nat
  sr_blobs_deleted :: nat
  sr_blobs_failed :: nat

definition touched_anything :: "sweep_report \<Rightarrow> bool" where
  "touched_anything r \<longleftrightarrow> sr_jobs_deleted r > 0 \<or> sr_blobs_deleted r > 0 \<or> sr_blobs_failed r > 0"

section \<open>A sweep\<close>

definition delete_file :: "('s, 'n, 'd, 'r) app \<Rightarrow> string \<Rightarrow> ('s, 'n, 'd, storage_error, unit) act" where
  "delete_file app path = in_the_net (blob_delete (ap_store app) (ap_blob_token app) (ap_blob_send app) path)"

text \<open>The loop over the paths, with its two counters.\<close>

primrec delete_files ::
  "('s, 'n, 'd, 'r) app \<Rightarrow> string list \<Rightarrow> nat \<Rightarrow> nat \<Rightarrow> ('s, 'n, 'd, storage_error, nat \<times> nat) act" where
  "delete_files app [] deleted failed = succeed (deleted, failed)"
| "delete_files app (path # paths) deleted failed =
     handle (delete_file app path)
       (\<lambda>_. delete_files app paths deleted (failed + 1)) (\<lambda>_. delete_files app paths (deleted + 1) failed)"

text \<open>\<open>i32::try_from(retention_days).unwrap_or(i32::MAX)\<close>\<close>

definition sweep_days :: "32 word \<Rightarrow> int" where
  "sweep_days retention_days = (if uint retention_days \<le> 2147483647 then uint retention_days else 2147483647)"

definition sweep :: "('s, 'n, 'd, 'r) app \<Rightarrow> 32 word \<Rightarrow> ('s, 'n, 'd, storage_error, sweep_report) act" where
  "sweep app retention_days =
     attempt (on_pool app (\<lambda>now _. assets_paths_older_than now (sweep_days retention_days))) (\<lambda>paths.
     attempt (delete_files app paths 0 0) (\<lambda>(deleted, failed).
     attempt (on_pool app (\<lambda>now _. jobs_delete_older_than now (sweep_days retention_days))) (\<lambda>n.
       succeed \<lparr>sr_jobs_deleted = n, sr_blobs_deleted = deleted, sr_blobs_failed = failed\<rparr>)))"

section \<open>The task\<close>

text \<open>
  The first \<open>n\<close> ticks from the \<open>k\<close>-th on: tick \<open>k\<close> is due \<open>k\<close> intervals after the first, and a
  late one is not skipped. The result of a sweep is only logged.
\<close>

definition sleep_for :: "('s, 'n, 'd, 'r) app \<Rightarrow> duration \<Rightarrow> ('s, 'n, 'd, 'e, unit) act" where
  "sleep_for app d w = (Inr (), w\<lparr>wd_net := ap_sleep app d (wd_net w)\<rparr>)"

definition tick :: "('s, 'n, 'd, 'r) app \<Rightarrow> instant \<Rightarrow> nat \<Rightarrow> ('s, 'n, 'd, 'e, unit) act" where
  "tick app start k w = sleep_for app (max 0 (start + int k * SWEEP_INTERVAL - ap_mono app (wd_net w))) w"

primrec sweeps :: "('s, 'n, 'd, 'r) app \<Rightarrow> 32 word \<Rightarrow> instant \<Rightarrow> nat \<Rightarrow> nat \<Rightarrow> ('s, 'n, 'd, unit, unit) act" where
  "sweeps app retention_days start k 0 = succeed ()"
| "sweeps app retention_days start k (Suc n) =
     attempt (tick app start k) (\<lambda>_.
     handle (sweep app retention_days)
       (\<lambda>_. sweeps app retention_days start (k + 1) n) (\<lambda>_. sweeps app retention_days start (k + 1) n))"

definition retention_spawn :: "('s, 'n, 'd, 'r) app \<Rightarrow> 32 word \<Rightarrow> nat \<Rightarrow> ('s, 'n, 'd, unit, unit) act" where
  "retention_spawn app retention_days ticks =
     (if retention_days = 0 then succeed ()
      else attempt (sleep_for app FIRST_SWEEP_DELAY) (\<lambda>_ w.
        sweeps app retention_days (ap_mono app (wd_net w)) 0 ticks w))"

section \<open>What a sweep does\<close>

lemma keeps_delete_files [keeps_intros]:
  "(\<And>path. keeps I (delete_file app path)) \<Longrightarrow> keeps I (delete_files app paths deleted failed)"
  by (induction paths arbitrary: deleted failed) (auto intro!: keeps_intros)

lemma keeps_sweep [keeps_intros]:
  assumes "others_ok app"
  shows "keeps (from_db app db) (sweep app retention_days)"
  unfolding sweep_def delete_file_def [abs_def]
  by (intro keeps_intros statements assms, unfold delete_file_def, intro keeps_intros)

lemma keeps_sweeps: "others_ok app \<Longrightarrow> keeps (from_db app db) (sweeps app retention_days start k n)"
proof (induction n arbitrary: k)
  case (Suc n)
  have "keeps (from_db app db) (tick app start k)" by (simp add: keeps_def tick_def sleep_for_def from_db_def)
  then show ?case by (simp, intro keeps_intros Suc)
qed (auto intro: keeps_intros)

lemma retention_stays_in_program:
  assumes "others_ok app"
  shows "keeps (from_db app db) (retention_spawn app retention_days ticks)"
  unfolding retention_spawn_def keeps_def
  using keepsD [OF keeps_sweeps [OF assms]]
  by (auto simp: succeed_def attempt_def sleep_for_def from_db_def)

text \<open>
  A run of the loop over the paths. \<open>gone\<close> is any account of which files no longer exist: true of a
  file once a delete of it has succeeded, and not made false by deletes.
\<close>

definition container_view :: "('s, 'n, 'd, 'r) app \<Rightarrow> (string \<Rightarrow> 'n \<Rightarrow> bool) \<Rightarrow> bool" where
  "container_view app gone \<longleftrightarrow>
     (\<forall>path n n'. blob_delete (ap_store app) (ap_blob_token app) (ap_blob_send app) path n = (Inr (), n') \<longrightarrow> gone path n') \<and>
     (\<forall>path path' n. gone path n \<longrightarrow> gone path (snd (blob_delete (ap_store app) (ap_blob_token app) (ap_blob_send app) path' n))) \<and>
     (\<forall>path n. gone path n \<longrightarrow> gone path (snd (ap_pool app n)) \<and> gone path (snd (ap_fresh app n)))"

lemma delete_filesD:
  assumes "delete_files app paths deleted failed w = (r, w')" and "container_view app gone"
  shows "\<exists>d f. r = Inr (deleted + d, failed + f) \<and> d + f = length paths \<and> wd_db w' = wd_db w \<and> aside w' = aside w \<and>
    (\<forall>p. gone p (wd_net w) \<longrightarrow> gone p (wd_net w')) \<and> (f = 0 \<longrightarrow> (\<forall>p \<in> set paths. gone p (wd_net w')))"
  using assms(1)
proof (induction paths arbitrary: deleted failed w)
  case (Cons p ps)
  obtain q n where del: "blob_delete (ap_store app) (ap_blob_token app) (ap_blob_send app) p (wd_net w) = (q, n)" by fastforce
  have stays: "gone p' (wd_net w) \<Longrightarrow> gone p' n" for p'
    using assms(2) del unfolding container_view_def by (metis snd_conv)
  show ?case
  proof (cases q)
    case (Inl e)
    then have rest: "delete_files app ps deleted (failed + 1) (w\<lparr>wd_net := n\<rparr>) = (r, w')"
      using Cons.prems del by (simp add: handle_def delete_file_def world_defs)
    from Cons.IH [OF rest] obtain d f where "r = Inr (deleted + d, failed + 1 + f)" "d + f = length ps"
      "wd_db w' = wd_db w" "aside w' = aside w" "\<forall>p. gone p n \<longrightarrow> gone p (wd_net w')" by (auto simp: aside_def)
    then show ?thesis using stays by (intro exI [of _ d] exI [of _ "Suc f"]) auto
  next
    case (Inr x)
    then have rest: "delete_files app ps (deleted + 1) failed (w\<lparr>wd_net := n\<rparr>) = (r, w')"
      using Cons.prems del by (simp add: handle_def delete_file_def world_defs)
    have "gone p n" using assms(2) del Inr unfolding container_view_def by (metis old.unit.exhaust)
    moreover from Cons.IH [OF rest] obtain d f where "r = Inr (deleted + 1 + d, failed + f)" "d + f = length ps"
      "wd_db w' = wd_db w" "aside w' = aside w" "\<forall>p. gone p n \<longrightarrow> gone p (wd_net w')"
      "f = 0 \<longrightarrow> (\<forall>p \<in> set ps. gone p (wd_net w'))" by (auto simp: aside_def)
    ultimately show ?thesis using stays by (intro exI [of _ "Suc d"] exI [of _ f]) auto
  qed
qed (auto simp: succeed_def)


text \<open>Where a quiet statement leaves the environment; the statement's clock is read there.\<close>

definition after_statement :: "('s, 'n, 'd, 'r) app \<Rightarrow> 'n \<Rightarrow> 'n" where
  "after_statement app n = snd (ap_fresh app (snd (ap_pool app n)))"

lemma quiet_statement:
  assumes "quiet app"
  shows "on_pool app (\<lambda>now _. stmt now) w = (
    let n = after_statement app (wd_net w); (r, db) = stmt (ap_clock app n) (wd_db w)
    in (r, w\<lparr>wd_net := n, wd_db := db\<rparr>))"
proof -
  obtain n1 where 1: "ap_pool app (wd_net w) = (NoFault, n1)"
    using assms by (cases "ap_pool app (wd_net w)") (auto simp: quiet_def dest: spec [of _ "wd_net w"])
  show ?thesis
    using assms by (simp add: on_pool_def after_statement_def 1 quiet_def Let_def split: prod.split)
qed

text \<open>The job of an asset was created before \<open>limit\<close>.\<close>

definition expired :: "database \<Rightarrow> instant \<Rightarrow> asset_row \<Rightarrow> bool" where
  "expired db limit a \<longleftrightarrow> (\<exists>j \<in> set (jobs db). j_id j = a_job_id a \<and> j_created_at j < limit)"

text \<open>The assets that go with the jobs are those whose job has expired.\<close>

lemma assets_of_kept_jobs:
  assumes ok: "db_ok db"
  shows "filter (\<lambda>a. a_job_id a \<in> j_id ` set (filter (\<lambda>j. \<not> j_created_at j < limit) (jobs db))) (assets db) =
    filter (\<lambda>a. \<not> expired db limit a) (assets db)"
proof (rule filter_cong [OF refl])
  fix a assume "a \<in> set (assets db)"
  then obtain j where j: "j \<in> set (jobs db)" "j_id j = a_job_id a" using db_okD(7) [OF ok] by fastforce
  have "j' = j" if "j' \<in> set (jobs db)" "j_id j' = a_job_id a" for j'
    using inj_on_mapD [OF db_okD(3) [OF ok] that(1) j(1)] that j by simp
  then have only: "j' \<in> set (jobs db) \<and> j_id j' = a_job_id a \<longleftrightarrow> j' = j" for j' using j by blast
  have "expired db limit a \<longleftrightarrow> j_created_at j < limit" unfolding expired_def Bex_def conj_assoc [symmetric] only by simp
  moreover have "a_job_id a \<in> j_id ` set (filter (\<lambda>j. \<not> j_created_at j < limit) (jobs db)) \<longleftrightarrow>
      (\<exists>j'. (j' \<in> set (jobs db) \<and> j_id j' = a_job_id a) \<and> \<not> j_created_at j' < limit)" by (auto simp: image_iff)
  ultimately show "a_job_id a \<in> j_id ` set (filter (\<lambda>j. \<not> j_created_at j < limit) (jobs db)) \<longleftrightarrow> \<not> expired db limit a"
    unfolding only by simp
qed



text \<open>
  Three jobs, two of them with an asset: at the first statement one asset has expired, at the second
  both have. The record of the second goes, its file stays.
\<close>

lemma sample_sweep:
  "fst (sweep sample_app 0 ((sample_world sample_db Map.empty)\<lparr>wd_net := 6\<rparr>)) =
     Inr \<lparr>sr_jobs_deleted = 3, sr_blobs_deleted = 1, sr_blobs_failed = 0\<rparr>"
  by code_simp

lemma sweep_can_orphan_a_file:
  "length (assets sample_db) = 2 \<and>
   assets (wd_db (snd (sweep sample_app 0 ((sample_world sample_db Map.empty)\<lparr>wd_net := 6\<rparr>)))) = []"
  by code_simp

lemma sample_container: "container_view sample_app (\<lambda>_ n. 0 < n)"
proof -
  have "snd (blob_delete sample_store (\<lambda>n. (Inr ''token'', n)) (ap_blob_send sample_app) path n) = n + 1" for path n
    by (simp add: blob_delete_def blob_token_def action_defs sample_app_def is_success_def)
  then show ?thesis
    unfolding container_view_def by (auto simp: sample_app_def) (metis snd_conv zero_less_Suc)+
qed


end
