(* ===== verification/Elapsed.thy ===== *)
theory Elapsed
  imports I18n
begin

text \<open>
  The time spent on a job as the card shows it (\<open>format_elapsed\<close> in \<open>routes/api.rs\<close>). The code goes
  through a 64-bit float, so the float is modelled: a non-negative one is a dyadic fraction
  \<open>m / 2 ^ k\<close>, and every operation gives the nearest float, ties to even. Subnormal numbers and
  infinities are out of reach: a duration has nanosecond steps and fits in 64 bits of seconds.
\<close>

definition div_round_even :: "int \<Rightarrow> int \<Rightarrow> int" where
  "div_round_even a b = (let q = a div b; r = a mod b in
     if 2 * r < b then q else if b < 2 * r then q + 1 else if even q then q else q + 1)"

type_synonym f64 = "int \<times> nat"

text \<open>The scale at which \<open>a / b\<close> has 53 significant bits.\<close>

function scale_up :: "int \<Rightarrow> int \<Rightarrow> nat \<Rightarrow> nat" where
  "scale_up a b k = (if 2 ^ 52 * b \<le> a * 2 ^ k \<or> 1074 \<le> k then k else scale_up a b (k + 1))"
  by pat_completeness auto
termination by (relation "measure (\<lambda>(a, b, k). 1074 - k)") auto

function scale_down :: "int \<Rightarrow> int \<Rightarrow> nat \<Rightarrow> nat" where
  "scale_down a b j = (if a < 2 ^ 53 * b * 2 ^ j \<or> 970 \<le> j then j else scale_down a b (j + 1))"
  by pat_completeness auto
termination by (relation "measure (\<lambda>(a, b, j). 970 - j)") auto

declare scale_up.simps [simp del] scale_down.simps [simp del]

definition f64_of :: "int \<Rightarrow> int \<Rightarrow> f64" where
  "f64_of a b = (if a = 0 then (0, 0)
     else if 2 ^ 53 * b \<le> a then (let j = scale_down a b 0 in (div_round_even a (b * 2 ^ j) * 2 ^ j, 0))
     else (let k = scale_up a b 0 in (div_round_even (a * 2 ^ k) b, k)))"

definition f64_add :: "f64 \<Rightarrow> f64 \<Rightarrow> f64" where
  "f64_add = (\<lambda>(m, k) (n, l). let e = max k l in f64_of (m * 2 ^ (e - k) + n * 2 ^ (e - l)) (2 ^ e))"

text \<open>\<open>Duration::as_seconds_f64().max(0.0)\<close>: whole seconds plus the fraction.\<close>

definition as_seconds_f64 :: "duration \<Rightarrow> f64" where
  "as_seconds_f64 d = (let n = max d 0 in
     f64_add (f64_of (n div nanos_per_second) 1) (f64_of (n mod nanos_per_second) nanos_per_second))"

text \<open>\<open>format!("{:.1}")\<close> rounds the exact value, ties to even.\<close>

definition f64_tenths :: "f64 \<Rightarrow> int" where
  "f64_tenths = (\<lambda>(m, k). div_round_even (10 * m) (2 ^ k))"

definition format_elapsed :: "duration \<Rightarrow> string" where
  "format_elapsed d = (let t = f64_tenths (as_seconds_f64 d) in
     dec_int (t div 10) @ '','' @ dec_int (t mod 10) @ '' '' @ SECONDS_SUFFIX)"

text \<open>The cases of the unit tests.\<close>

lemma format_elapsed_examples:
  "format_elapsed (millis 1200) = ''1,2 s'' \<and> format_elapsed (millis 450) = ''0,5 s'' \<and>
   format_elapsed (seconds 12) = ''12,0 s'' \<and> format_elapsed (millis (- 10)) = ''0,0 s'' \<and>
   format_elapsed (millis 250) = ''0,2 s'' \<and> format_elapsed (millis 350) = ''0,3 s''"
  by code_simp

end
