(* ===== verification/Api.thy ===== *)
theory Api
  imports Retention Elapsed
begin

text \<open>
  The endpoints behind the guards (\<open>routes/api.rs\<close>): asking for a generation, following a job,
  fetching its media, hiding and deleting it. Rendered pages come from \<open>render.rs\<close>.
\<close>

section \<open>Rendered pages\<close>

text \<open>\<open>Page(template)\<close> as a response; the template engine either renders or fails.\<close>

definition page_response :: "('t \<Rightarrow> string + 'p) \<Rightarrow> 't \<Rightarrow> 'p outgoing" where
  "page_response render template = (case render template of
     Inr html \<Rightarrow> response_with 200 [(''content-type'', ''text/html; charset=utf-8'')] (PageContent html)
   | Inl e \<Rightarrow> into_response (AppInternal (CauseTemplate e)))"

text \<open>A handler's \<open>Result\<close> as a response.\<close>

definition respond :: "('s, 'n, 'd, app_error, 'a) act \<Rightarrow> ('a \<Rightarrow> 'p outgoing) \<Rightarrow> ('s, 'n, 'd) world \<Rightarrow> 'p outgoing \<times> ('s, 'n, 'd) world" where
  "respond handler show_it w = (case handler w of
     (Inl e, w') \<Rightarrow> (into_response e, w') | (Inr x, w') \<Rightarrow> (show_it x, w'))"

text \<open>The Unicode tables and the calendar of the standard and the \<open>time\<close> library.\<close>

record text_lib =
  tl_alphabetic :: "string \<Rightarrow> bool"
  tl_upper :: "string \<Rightarrow> string"
  tl_lower :: "string \<Rightarrow> string"
  tl_civil :: "instant \<Rightarrow> civil"

definition json_of_option :: "string option \<Rightarrow> json" where
  "json_of_option s = (case s of None \<Rightarrow> JNull | Some v \<Rightarrow> JStr v)"

section \<open>The signed-in user\<close>

definition me_body :: "text_lib \<Rightarrow> session_user \<Rightarrow> json" where
  "me_body uni u = JObj [(''oid'', JStr (su_oid u)), (''display_name'', JStr (su_display_name u)),
     (''initials'', JStr (initials (tl_alphabetic uni) (tl_upper uni) u)),
     (''email'', json_of_option (su_email u)), (''roles'', JArr (map JStr (su_roles u)))]"

definition me :: "text_lib \<Rightarrow> session_user \<Rightarrow> 'p outgoing" where
  "me uni u = json_response 200 (me_body uni u)"

section \<open>The form of a generation\<close>

definition MAX_REFERENCE_BYTES :: nat where "MAX_REFERENCE_BYTES = 10 * 1024 * 1024"

definition REFERENCE_TYPES :: "string list" where
  "REFERENCE_TYPES = [''image/png'', ''image/jpeg'', ''image/webp'']"

text \<open>
  The parts of the form as the multipart library delivers them, in order. Reading the next one, its
  bytes or its text can fail, with the text to show.
\<close>

record multipart_field =
  mf_name :: "string option"
  mf_content_type :: "string option"
  mf_file_name :: "string option"
  mf_bytes :: "string + string"
  mf_text :: "string + string"

type_synonym multipart = "(string + multipart_field) list"

record generate_fields =
  gf_prompt :: string
  gf_media_type :: "media_type option"
  gf_image_size :: "string option"
  gf_image_quality :: "string option"
  gf_audio_voice :: "string option"
  gf_video_seconds :: "nat option"
  gf_video_size :: "string option"
  gf_reference :: "(string \<times> string) option"

definition default_fields :: generate_fields where
  "default_fields = \<lparr>gf_prompt = [], gf_media_type = None, gf_image_size = None, gf_image_quality = None,
     gf_audio_voice = None, gf_video_seconds = None, gf_video_size = None, gf_reference = None\<rparr>"

definition generate_parameters :: "generate_fields \<Rightarrow> media_type \<Rightarrow> string option \<Rightarrow> json" where
  "generate_parameters f m path = (case m of
     Image \<Rightarrow> JObj [(''size'', json_of_option (gf_image_size f)), (''quality'', json_of_option (gf_image_quality f)),
       (''reference_path'', json_of_option path)]
   | Audio \<Rightarrow> JObj [(''voice'', json_of_option (gf_audio_voice f))]
   | Video \<Rightarrow> JObj [(''reference_path'', json_of_option path),
       (''n_seconds'', case gf_video_seconds f of None \<Rightarrow> JNull | Some n \<Rightarrow> JNum (int n)),
       (''size'', json_of_option (gf_video_size f))])"

definition read_reference :: "multipart_field \<Rightarrow> generate_fields \<Rightarrow> app_error + generate_fields" where
  "read_reference part f = (case mf_bytes part of
     Inl e \<Rightarrow> Inl (AppValidation e)
   | Inr bytes \<Rightarrow>
       if bytes = [] then Inr f
       else if length bytes > MAX_REFERENCE_BYTES then Inl (AppValidation ERR_REFERENCE_TOO_LARGE)
       else if option_or (mf_content_type part) [] \<notin> set REFERENCE_TYPES then Inl (AppValidation ERR_REFERENCE_TYPE)
       else Inr (f\<lparr>gf_reference := Some (option_or (mf_file_name part) ''referanse'', bytes)\<rparr>))"

definition read_text :: "string \<Rightarrow> multipart_field \<Rightarrow> generate_fields \<Rightarrow> app_error + generate_fields" where
  "read_text name part f = (case mf_text part of
     Inl e \<Rightarrow> Inl (AppValidation e)
   | Inr v \<Rightarrow> Inr (
       if name = ''prompt'' then f\<lparr>gf_prompt := v\<rparr>
       else if name = ''media_type'' then f\<lparr>gf_media_type := ok (media_from_str v)\<rparr>
       else if name = ''image_size'' then f\<lparr>gf_image_size := Some v\<rparr>
       else if name = ''image_quality'' then f\<lparr>gf_image_quality := Some v\<rparr>
       else if name = ''audio_voice'' then f\<lparr>gf_audio_voice := Some v\<rparr>
       else if name = ''video_seconds'' then f\<lparr>gf_video_seconds := parse_unsigned u32_max v\<rparr>
       else if name = ''video_size'' then f\<lparr>gf_video_size := Some v\<rparr>
       else f))"

fun read_parts :: "multipart \<Rightarrow> generate_fields \<Rightarrow> app_error + generate_fields" where
  "read_parts [] f = Inr f"
| "read_parts (Inl e # _) f = Inl (AppValidation e)"
| "read_parts (Inr part # parts) f = (
     let name = option_or (mf_name part) [] in
     and_then (if name = ''reference'' \<or> name = ''reference_video'' then read_reference part f else read_text name part f)
       (read_parts parts))"

definition read_fields :: "multipart \<Rightarrow> app_error + generate_fields" where
  "read_fields parts = read_parts parts default_fields"

definition reference_extension :: "(string \<Rightarrow> string) \<Rightarrow> string \<Rightarrow> string" where
  "reference_extension lower file_name = (
     let candidate = to_lowercase lower (after_last CHR ''.'' file_name)
     in if candidate = [] \<or> length candidate > 5 \<or> \<not> list_all ascii_alphanumeric candidate then ''png'' else candidate)"


section \<open>Asking for a generation\<close>

definition app_storage_error :: "storage_error \<Rightarrow> app_error" where
  "app_storage_error e = (case e of StorageNotFound \<Rightarrow> AppNotFound | _ \<Rightarrow> AppInternal (CauseStorage e))"

record job_card =
  jc_id :: string
  jc_prompt :: string
  jc_media_type :: string
  jc_media_label :: string
  jc_status :: string
  jc_pending :: bool
  jc_failed :: bool
  jc_error_message :: string
  jc_elapsed :: string
  jc_asset_url :: string

definition is_failed :: "job_status \<Rightarrow> bool" where
  "is_failed s = (case s of Failed _ _ \<Rightarrow> True | _ \<Rightarrow> False)"

definition asset_url_of :: "uuid option \<Rightarrow> string" where
  "asset_url_of i = (case i of None \<Rightarrow> [] | Some u \<Rightarrow> ''/api/assets/'' @ uuid_string u)"

definition card_from_job :: "job \<Rightarrow> uuid option \<Rightarrow> job_card" where
  "card_from_job j aid = \<lparr>jc_id = uuid_string (job_id j), jc_prompt = job_prompt j,
     jc_media_type = media_as_str (job_media_type j), jc_media_label = media_label (job_media_type j),
     jc_status = status_as_str (job_status j), jc_pending = (\<not> is_terminal (job_status j)),
     jc_failed = is_failed (job_status j),
     jc_error_message = option_or (status_error_message (job_status j)) ERR_INTERNAL,
     jc_elapsed = (case job_duration j of None \<Rightarrow> [] | Some d \<Rightarrow> format_elapsed d),
     jc_asset_url = asset_url_of aid\<rparr>"

definition job_audit :: "audit_action \<Rightarrow> string \<Rightarrow> uuid \<Rightarrow> uuid \<Rightarrow> client_info \<Rightarrow> audit_entry" where
  "job_audit action entity uid i client = \<lparr>entry_user_id = Some uid, entry_action = action, entry_entity = entity,
     entry_entity_id = Some (uuid_string i), entry_ip = ci_ip client, entry_user_agent = ci_user_agent client\<rparr>"

text \<open>The reference image of an image or a video, stored before the job is; audio takes none.\<close>

definition store_reference ::
  "('s, 'n, 'd, 'r) app \<Rightarrow> (string \<Rightarrow> string) \<Rightarrow> media_type \<Rightarrow> (string \<times> string) option \<Rightarrow> ('s, 'n, 'd, app_error, string option) act" where
  "store_reference app lower m reference = (case (m, reference) of
     (Audio, _) \<Rightarrow> succeed None
   | (_, None) \<Rightarrow> succeed None
   | (_, Some (file_name, bytes)) \<Rightarrow>
       attempt (new_v4 app) (\<lambda>u.
         let path = ''referanser/'' @ uuid_string u @ ''.'' @ reference_extension lower file_name in
         attempt (map_err (\<lambda>e. AppInternal (CauseStorage e))
           (in_the_net (blob_upload (ap_store app) (ap_blob_token app) (ap_blob_send app) path ''application/octet-stream'' bytes)))
           (\<lambda>_. succeed (Some path))))"

text \<open>The job has been written: it is queued, or, when the queue is full, failed at once.\<close>

definition queue_or_fail :: "('s, 'n, 'd, 'r) app \<Rightarrow> job \<Rightarrow> ('s, 'n, 'd, app_error, job_card) act" where
  "queue_or_fail app j =
     handle (enqueue (job_id j))
       (\<lambda>_. attempt (map_err app_storage_error (on_pool app (\<lambda>now _. jobs_finish now (job_id j) (Failed RateLimited ERR_QUEUE_FULL))))
              (\<lambda>failed. succeed (card_from_job failed None)))
       (\<lambda>_. succeed (card_from_job j None))"

definition generate ::
  "('s, 'n, 'd, 'r) app \<Rightarrow> (string \<Rightarrow> string) \<Rightarrow> client_info \<Rightarrow> session_user \<Rightarrow> multipart \<Rightarrow> ('s, 'n, 'd, app_error, job_card) act" where
  "generate app lower client u parts =
     attempt (of_result (read_fields parts)) (\<lambda>f.
     attempt (of_result (case gf_media_type f of None \<Rightarrow> Inl (AppValidation ERR_UNKNOWN_MEDIA_TYPE) | Some m \<Rightarrow> Inr m)) (\<lambda>m.
     attempt (of_result (map_sum of_domain_error id (validate_prompt (gf_prompt f) (cf_max_prompt_chars (ap_config app))))) (\<lambda>prompt.
     attempt (local_user_id app u) (\<lambda>uid.
     attempt (ratelimit_check app uid (cf_rate_limit_per_hour (ap_config app))) (\<lambda>_.
     attempt (store_reference app lower m (gf_reference f)) (\<lambda>path.
     attempt (map_err app_storage_error (on_pool app (\<lambda>now fresh. jobs_create now fresh
         \<lparr>new_user_id = uid, new_media_type = m, new_prompt = prompt, new_parameters = generate_parameters f m path\<rparr>))) (\<lambda>j.
     attempt (try_audit app (job_audit GenerationRequested ''job'' uid (job_id j) client)) (\<lambda>_.
       queue_or_fail app j))))))))"

section \<open>Following a job\<close>

record job_body =
  jb_id :: uuid
  jb_status :: string
  jb_media_type :: string
  jb_error_code :: "string option"
  jb_error_message :: "string option"
  jb_duration_ms :: "int option"

text \<open>\<open>whole_milliseconds() as i64\<close> keeps the low 64 bits.\<close>

definition as_i64 :: "int \<Rightarrow> int" where
  "as_i64 i = sint (of_int i :: 64 word)"

definition body_from_job :: "job \<Rightarrow> job_body" where
  "body_from_job j = \<lparr>jb_id = job_id j, jb_status = status_as_str (job_status j),
     jb_media_type = media_as_str (job_media_type j),
     jb_error_code = map_option error_code_as_str (status_error_code (job_status j)),
     jb_error_message = status_error_message (job_status j),
     jb_duration_ms = map_option (\<lambda>d. as_i64 (whole_milliseconds d)) (job_duration j)\<rparr>"

definition job_body_json :: "job_body \<Rightarrow> json" where
  "job_body_json b = JObj [(''id'', JStr (uuid_string (jb_id b))), (''status'', JStr (jb_status b)),
     (''media_type'', JStr (jb_media_type b)), (''error_code'', json_of_option (jb_error_code b)),
     (''error_message'', json_of_option (jb_error_message b)),
     (''duration_ms'', case jb_duration_ms b of None \<Rightarrow> JNull | Some ms \<Rightarrow> JNum ms)]"

definition load_own_job ::
  "('s, 'n, 'd, 'r) app \<Rightarrow> session_user \<Rightarrow> uuid \<Rightarrow> ('s, 'n, 'd, app_error, job) act" where
  "load_own_job app u i =
     attempt (local_user_id app u) (\<lambda>uid.
       map_err app_storage_error (on_pool app (\<lambda>_ _. jobs_by_id_for_user i uid)))"

definition job_status_handler ::
  "('s, 'n, 'd, 'r) app \<Rightarrow> session_user \<Rightarrow> uuid \<Rightarrow> ('s, 'n, 'd, app_error, job_body) act" where
  "job_status_handler app u i = attempt (load_own_job app u i) (\<lambda>j. succeed (body_from_job j))"

definition card_for :: "('s, 'n, 'd, 'r) app \<Rightarrow> job \<Rightarrow> ('s, 'n, 'd, 'e, job_card) act" where
  "card_for app j =
     handle (on_pool app (\<lambda>_ _. assets_for_job (job_id j)))
       (\<lambda>_. succeed (card_from_job j None)) (\<lambda>a. succeed (card_from_job j (map_option asset_id a)))"

definition job_card_handler ::
  "('s, 'n, 'd, 'r) app \<Rightarrow> session_user \<Rightarrow> uuid \<Rightarrow> ('s, 'n, 'd, app_error, job_card) act" where
  "job_card_handler app u i = attempt (load_own_job app u i) (card_for app)"


section \<open>The event stream\<close>

text \<open>What a subscription delivers: an event, or notice that some were dropped.\<close>

datatype received = Event uuid job_status | Lagged nat

definition status_update :: "uuid \<Rightarrow> media_type \<Rightarrow> job_status \<Rightarrow> job_body" where
  "status_update i m s = \<lparr>jb_id = i, jb_status = status_as_str s, jb_media_type = media_as_str m,
     jb_error_code = map_option error_code_as_str (status_error_code s),
     jb_error_message = status_error_message s, jb_duration_ms = None\<rparr>"

fun updates_for :: "uuid \<Rightarrow> media_type \<Rightarrow> received list \<Rightarrow> job_body list" where
  "updates_for i m [] = []"
| "updates_for i m (Event j s # rest) = (if j = i then status_update i m s # updates_for i m rest else updates_for i m rest)"
| "updates_for i m (Lagged _ # rest) = updates_for i m rest"

definition is_terminal_str :: "string \<Rightarrow> bool" where
  "is_terminal_str s \<longleftrightarrow> s \<in> {''succeeded'', ''failed'', ''cancelled''}"

text \<open>
  \<open>take_while\<close> with its flag: the bodies passed on and whether the stream has ended. An item is
  let through when no terminal one came before it; the stream ends with the first that is not.
\<close>

fun take_until_terminal :: "bool \<Rightarrow> job_body list \<Rightarrow> job_body list \<times> bool" where
  "take_until_terminal seen [] = ([], False)"
| "take_until_terminal seen (b # bs) =
     (if seen then ([], True)
      else let (out, ended) = take_until_terminal (seen \<or> is_terminal_str (jb_status b)) bs in (b # out, ended))"

record sse_event =
  ev_name :: string
  ev_data :: json

definition to_event :: "job_body \<Rightarrow> sse_event" where
  "to_event b = \<lparr>ev_name = ''status'', ev_data = job_body_json b\<rparr>"

definition event_bodies :: "job \<Rightarrow> received list \<Rightarrow> job_body list \<times> bool" where
  "event_bodies j received = take_until_terminal False (body_from_job j # updates_for (job_id j) (job_media_type j) received)"

text \<open>The response is a stream: what it has sent depends on what has been received since.\<close>

definition job_events ::
  "('s, 'n, 'd, 'r) app \<Rightarrow> session_user \<Rightarrow> uuid \<Rightarrow> ('s, 'n, 'd, app_error, received list \<Rightarrow> sse_event list \<times> bool) act" where
  "job_events app u i =
     attempt (load_own_job app u i) (\<lambda>j.
       succeed (\<lambda>received. let (bodies, ended) = event_bodies j received in (map to_event bodies, ended)))"

section \<open>Media\<close>

definition extension_of :: "string \<Rightarrow> string" where
  "extension_of path = (let ext = after_last CHR ''.'' path in
     if ext = [] \<or> length ext > 5 then ''bin'' else ext)"

text \<open>\<open>Redirect::temporary\<close>\<close>

definition redirect_temporary :: "string \<Rightarrow> 'p outgoing" where
  "redirect_temporary dest = response_with 307 [(''location'', dest)] EmptyContent"

definition the_read_url ::
  "('s, 'n, 'd, 'r) app \<Rightarrow> string \<Rightarrow> string option \<Rightarrow> ('s, 'n, 'd, storage_error, string) act" where
  "the_read_url app path download_as =
     with_key (read_url (ap_blob_libs app) (ap_clock app) (ap_store app) (ap_blob_token app) (ap_blob_send app)
       path (sas_ttl (ap_config app)) download_as)"

definition download_name :: "asset \<Rightarrow> string" where
  "download_name a = ''mediagenerator-'' @ take 8 (uuid_string (asset_id a)) @ ''.'' @ extension_of (asset_blob_path a)"

definition asset_link ::
  "('s, 'n, 'd, 'r) app \<Rightarrow> client_info \<Rightarrow> session_user \<Rightarrow> uuid \<Rightarrow> string option \<Rightarrow> ('s, 'n, 'd, app_error, string) act" where
  "asset_link app client u i nedlasting =
     attempt (local_user_id app u) (\<lambda>uid.
     attempt (map_err app_storage_error (on_pool app (\<lambda>_ _. assets_by_id_for_user i uid))) (\<lambda>a.
     attempt (map_err (\<lambda>e. AppInternal (CauseStorage e))
         (the_read_url app (asset_blob_path a) (map_option (\<lambda>_. download_name a) nedlasting))) (\<lambda>url.
     attempt (try_audit app (job_audit AssetAccessed ''asset'' uid (asset_id a) client)) (\<lambda>_. succeed url))))"

section \<open>Hiding and deleting\<close>

definition set_visibility ::
  "('s, 'n, 'd, 'r) app \<Rightarrow> session_user \<Rightarrow> uuid \<Rightarrow> bool \<Rightarrow> ('s, 'n, 'd, app_error, unit) act" where
  "set_visibility app u i hidden =
     attempt (local_user_id app u) (\<lambda>uid.
       map_err app_storage_error (on_pool app (\<lambda>_ _. jobs_set_hidden i uid hidden)))"

text \<open>\<open>jobs::delete_for_user\<close> on the pool: two statements, between which others may run.\<close>

definition pool_delete_for_user :: "('s, 'n, 'd, 'r) app \<Rightarrow> uuid \<Rightarrow> uuid \<Rightarrow> ('s, 'n, 'd, storage_error, string list) act" where
  "pool_delete_for_user app i uid =
     attempt (on_pool app (\<lambda>_ _. jobs_asset_paths i uid)) (\<lambda>paths.
     attempt (on_pool app (\<lambda>_ _. jobs_delete_own i uid)) (\<lambda>rows_affected.
       if rows_affected = 0 then fail StorageNotFound else succeed paths))"

primrec discard_files :: "('s, 'n, 'd, 'r) app \<Rightarrow> string list \<Rightarrow> ('s, 'n, 'd, 'e, unit) act" where
  "discard_files app [] = succeed ()"
| "discard_files app (path # paths) = handle (delete_file app path) (\<lambda>_. discard_files app paths) (\<lambda>_. discard_files app paths)"

definition delete_job ::
  "('s, 'n, 'd, 'r) app \<Rightarrow> client_info \<Rightarrow> session_user \<Rightarrow> uuid \<Rightarrow> ('s, 'n, 'd, app_error, unit) act" where
  "delete_job app client u i =
     attempt (local_user_id app u) (\<lambda>uid.
     attempt (map_err app_storage_error (pool_delete_for_user app i uid)) (\<lambda>paths.
     attempt (discard_files app paths) (\<lambda>_.
       try_audit app (job_audit GenerationDeleted ''job'' uid i client))))"

definition no_content :: "'p outgoing" where
  "no_content = response_with 204 [] EmptyContent"

section \<open>Every endpoint stays in the program\<close>

lemmas api_defs [handler_defs] = load_own_job_def job_status_handler_def card_for_def job_card_handler_def job_events_def
  asset_link_def the_read_url_def set_visibility_def pool_delete_for_user_def delete_job_def queue_or_fail_def generate_def
  store_reference_def delete_file_def

lemma keeps_discard_files [keeps_intros]: "keeps (from_db app db) (discard_files app paths)"
  by (induction paths) (auto simp: delete_file_def intro!: keeps_intros)

lemma keeps_case_media [keeps_intros]:
  "(m = Image \<Longrightarrow> keeps I a) \<Longrightarrow> (m = Audio \<Longrightarrow> keeps I b) \<Longrightarrow> (m = Video \<Longrightarrow> keeps I c) \<Longrightarrow>
   keeps I (case m of Image \<Rightarrow> a | Audio \<Rightarrow> b | Video \<Rightarrow> c)"
  by (cases m) simp_all

lemma keeps_enqueue [keeps_intros]: "keeps (from_db app db) (enqueue i)"
  by (simp add: keeps_def enqueue_def from_db_def)

lemma api_stays_in_program:
  assumes "others_ok app"
  shows "keeps (from_db app db) (load_own_job app u i)" "keeps (from_db app db) (job_status_handler app u i)"
    "keeps (from_db app db) (card_for app j)" "keeps (from_db app db) (job_card_handler app u i)"
    "keeps (from_db app db) (job_events app u i)" "keeps (from_db app db) (asset_link app client u i n)"
    "keeps (from_db app db) (set_visibility app u i hidden)" "keeps (from_db app db) (delete_job app client u i)"
    "keeps (from_db app db) (store_reference app lower m reference)"
    "keeps (from_db app db) (queue_or_fail app j)" "keeps (from_db app db) (generate app lower client u parts)"
  unfolding api_defs Let_def by (intro keeps_intros statements assms; simp)+

end
