(* ===== verification/Archive.thy ===== *)
theory Archive
  imports Api
begin

text \<open>
  The pages: history and shared archive (\<open>routes/archive.rs\<close>), the front page (\<open>routes/pages.rs\<close>)
  and the probes (\<open>routes/health.rs\<close>), up to the templates, whose fields they fill.
\<close>

section \<open>The query of the archive\<close>

definition PAGE_SIZE :: "64 word" where "PAGE_SIZE = 24"

record archive_query =
  aq_eier :: "string option"
  aq_type :: "string option"
  aq_sortering :: "string option"
  aq_side :: "(64 word) option"

definition own_only :: "archive_query \<Rightarrow> bool" where
  "own_only q \<longleftrightarrow> aq_eier q \<noteq> Some ''alle''"

definition query_media_type :: "archive_query \<Rightarrow> media_type option" where
  "query_media_type q = (case aq_type q of
     None \<Rightarrow> None
   | Some t \<Rightarrow> if t = ''bilde'' then Some Image else if t = ''lyd'' then Some Audio
       else if t = ''video'' then Some Video else None)"

definition query_newest_first :: "archive_query \<Rightarrow> bool" where
  "query_newest_first q \<longleftrightarrow> aq_sortering q \<noteq> Some ''eldst''"

text \<open>\<open>i64\<close> arithmetic, wrapping as the release build does.\<close>

definition query_page :: "archive_query \<Rightarrow> 64 word" where
  "query_page q = (let side = option_or (aq_side q) 1 in (if sint side < 1 then 1 else side) - 1)"

definition archive_encode :: "string \<Rightarrow> string" where
  "archive_encode s = concat (map (\<lambda>b.
     if (65 \<le> byte b \<and> byte b \<le> 90) \<or> (97 \<le> byte b \<and> byte b \<le> 122) \<or> (48 \<le> byte b \<and> byte b \<le> 57) \<or>
        b \<in> {CHR 0x2D, CHR 0x5F, CHR 0x2E, CHR 0x7E}
     then [b] else percent_byte b) s)"

definition query_parts :: "archive_query \<Rightarrow> string \<Rightarrow> string \<Rightarrow> (string \<times> string) list" where
  "query_parts q key v = (
     let eier = (if key = ''eier'' then v else if own_only q then ''egne'' else ''alle'');
         kind = (if key = ''type'' then v else option_or (aq_type q) ''alle'');
         sortering = (if key = ''sortering'' then v else if query_newest_first q then ''nyest'' else ''eldst'')
     in [(''eier'', eier)] @ (if kind \<noteq> ''alle'' then [(''type'', kind)] else []) @
        [(''sortering'', sortering)] @ (if key = ''side'' then [(''side'', v)] else []))"

definition query_with :: "archive_query \<Rightarrow> string \<Rightarrow> string \<Rightarrow> string" where
  "query_with q key v = ''?'' @ join ''&'' (map (\<lambda>(name, v). name @ ''='' @ archive_encode v) (query_parts q key v))"

section \<open>The grid\<close>

record grid_entry =
  ge_id :: string
  ge_media_type :: string
  ge_media_label :: string
  ge_prompt :: string
  ge_created :: string
  ge_owner_name :: string
  ge_own :: bool
  ge_asset_url :: string
  ge_hidden :: bool
  ge_failed :: bool
  ge_error_message :: string

definition entry_from_item :: "text_lib \<Rightarrow> job_list_item \<Rightarrow> grid_entry" where
  "entry_from_item uni item = (let d = tl_civil uni (item_created_at item) in
     \<lparr>ge_id = uuid_string (item_id item), ge_media_type = media_as_str (item_media_type item),
      ge_media_label = media_label (item_media_type item), ge_prompt = item_prompt item,
      ge_created = pad 2 (c_day d) @ ''.'' @ pad 2 (c_month d) @ ''.'' @ dec_int (c_year d),
      ge_owner_name = item_owner_name item, ge_own = item_owned_by_viewer item,
      ge_asset_url = asset_url_of (item_asset_id item), ge_hidden = item_hidden item,
      ge_failed = is_failed (item_status item),
      ge_error_message = option_or (status_error_message (item_status item)) ERR_INTERNAL\<rparr>)"

record archive_template =
  at_csrf_token :: string
  at_initials :: string
  at_display_name :: string
  at_title :: string
  at_lead :: string
  at_show_scope :: bool
  at_entries :: "grid_entry list"
  at_own_only :: bool
  at_active_type :: string
  at_newest_first :: bool
  at_page :: "64 word"
  at_pages :: int
  at_previous_url :: string
  at_next_url :: string
  at_url_own :: string
  at_url_all :: string
  at_url_type_all :: string
  at_url_type_image :: string
  at_url_type_audio :: string
  at_url_type_video :: string
  at_url_newest :: string
  at_url_oldest :: string

text \<open>The token of the session, drawn from the environment when there is none yet.\<close>

definition page_csrf_token :: "('s, 'n, 'd, 'r) app \<Rightarrow> ('s, 'n, 'd, app_error, string) act" where
  "page_csrf_token app = map_err (\<lambda>e. AppInternal (CauseSession e))
     (focus (\<lambda>w. (wd_session w, wd_net w)) (\<lambda>(s, n) w. w\<lparr>wd_session := s, wd_net := n\<rparr>)
        (csrf_token (ap_sessions app) (ap_fresh app)))"

definition archive_filter :: "uuid \<Rightarrow> archive_query \<Rightarrow> bool \<Rightarrow> bool \<Rightarrow> list_filter" where
  "archive_filter viewer q own succeeded = \<lparr>filter_user_id = (if own then Some viewer else None),
     filter_media_type = query_media_type q, exclude_hidden = (\<not> own), only_succeeded = succeeded,
     newest_first = query_newest_first q, page_limit = sint PAGE_SIZE, page_offset = sint (query_page q * PAGE_SIZE)\<rparr>"

definition pages_of :: "int \<Rightarrow> int" where
  "pages_of row_count = max 1 (row_count div sint PAGE_SIZE + (if row_count mod sint PAGE_SIZE > 0 then 1 else 0))"

definition archive_page ::
  "text_lib \<Rightarrow> archive_query \<Rightarrow> session_user \<Rightarrow> string \<Rightarrow> string \<Rightarrow> bool \<Rightarrow> bool \<Rightarrow> int \<Rightarrow> job_list_item list \<Rightarrow> string \<Rightarrow> archive_template" where
  "archive_page uni q u title lead show_scope own row_count items token = (
     let pages = pages_of row_count; page = query_page q + 1 in
     \<lparr>at_csrf_token = token, at_initials = initials (tl_alphabetic uni) (tl_upper uni) u,
      at_display_name = su_display_name u, at_title = title, at_lead = lead, at_show_scope = show_scope,
      at_entries = map (entry_from_item uni) items, at_own_only = own,
      at_active_type = option_or (aq_type q) ''alle'', at_newest_first = query_newest_first q,
      at_page = page, at_pages = pages,
      at_previous_url = (if 1 < sint page then query_with q ''side'' (dec_int (sint (page - 1))) else []),
      at_next_url = (if sint page < pages then query_with q ''side'' (dec_int (sint (page + 1))) else []),
      at_url_own = query_with q ''eier'' ''egne'', at_url_all = query_with q ''eier'' ''alle'',
      at_url_type_all = query_with q ''type'' ''alle'', at_url_type_image = query_with q ''type'' ''bilde'',
      at_url_type_audio = query_with q ''type'' ''lyd'', at_url_type_video = query_with q ''type'' ''video'',
      at_url_newest = query_with q ''sortering'' ''nyest'', at_url_oldest = query_with q ''sortering'' ''eldst''\<rparr>)"

definition render_archive ::
  "('s, 'n, 'd, 'r) app \<Rightarrow> text_lib \<Rightarrow> session_user \<Rightarrow> archive_query \<Rightarrow> string \<Rightarrow> string \<Rightarrow> bool \<Rightarrow> bool \<Rightarrow> bool \<Rightarrow>
   ('s, 'n, 'd, app_error, archive_template) act" where
  "render_archive app uni u q title lead show_scope own succeeded =
     attempt (local_user_id app u) (\<lambda>viewer.
     let filt = archive_filter viewer q own succeeded in
     attempt (map_err (\<lambda>e. AppInternal (CauseStorage e)) (on_pool app (\<lambda>_ _. jobs_count filt))) (\<lambda>row_count.
     attempt (map_err (\<lambda>e. AppInternal (CauseStorage e)) (on_pool app (\<lambda>_ _. jobs_list filt viewer))) (\<lambda>items.
     attempt (page_csrf_token app) (\<lambda>token.
       succeed (archive_page uni q u title lead show_scope own row_count items token)))))"

definition history ::
  "('s, 'n, 'd, 'r) app \<Rightarrow> text_lib \<Rightarrow> session_user \<Rightarrow> archive_query \<Rightarrow> ('s, 'n, 'd, app_error, archive_template) act" where
  "history app uni u q = render_archive app uni u q PAGE_HISTORY_TITLE PAGE_HISTORY_LEAD False True False"

definition archive ::
  "('s, 'n, 'd, 'r) app \<Rightarrow> text_lib \<Rightarrow> session_user \<Rightarrow> archive_query \<Rightarrow> ('s, 'n, 'd, app_error, archive_template) act" where
  "archive app uni u q = render_archive app uni u q PAGE_ARCHIVE_TITLE PAGE_ARCHIVE_LEAD True (own_only q) True"

section \<open>The front page\<close>

definition HINT_THRESHOLD :: "32 word" where "HINT_THRESHOLD = 5"
definition RECENT_COUNT :: int where "RECENT_COUNT = 3"

record recent =
  re_media_type :: string
  re_label :: string
  re_prompt :: string
  re_asset_url :: string

record index_template =
  ix_csrf_token :: string
  ix_initials :: string
  ix_display_name :: string
  ix_max_prompt_chars :: nat
  ix_active_job :: "string option"
  ix_rate_limit_hint :: string
  ix_recent :: "recent list"

definition rate_limit_hint :: "('s, 'n, 'd, 'r) app \<Rightarrow> session_user \<Rightarrow> ('s, 'n, 'd, 'e, string) act" where
  "rate_limit_hint app u =
     handle (local_user_id app u) (\<lambda>_. succeed []) (\<lambda>uid.
     handle (ratelimit_remaining app uid (cf_rate_limit_per_hour (ap_config app))) (\<lambda>_. succeed []) (\<lambda>left.
       case left of
         Some n \<Rightarrow> succeed (if n \<le> HINT_THRESHOLD then generations_remaining (unat n) else [])
       | None \<Rightarrow> succeed []))"

fun recent_of :: "job_list_item \<Rightarrow> recent option" where
  "recent_of item = (case item_asset_id item of None \<Rightarrow> None
   | Some i \<Rightarrow> Some \<lparr>re_media_type = media_as_str (item_media_type item), re_label = media_label (item_media_type item),
       re_prompt = item_prompt item, re_asset_url = asset_url_of (Some i)\<rparr>)"

definition recent_filter :: "uuid \<Rightarrow> list_filter" where
  "recent_filter uid = \<lparr>filter_user_id = Some uid, filter_media_type = None, exclude_hidden = False,
     only_succeeded = True, newest_first = True, page_limit = RECENT_COUNT, page_offset = 0\<rparr>"

definition recent_generations :: "('s, 'n, 'd, 'r) app \<Rightarrow> session_user \<Rightarrow> ('s, 'n, 'd, 'e, recent list) act" where
  "recent_generations app u =
     handle (local_user_id app u) (\<lambda>_. succeed []) (\<lambda>uid.
     handle (on_pool app (\<lambda>_ _. jobs_list (recent_filter uid) uid)) (\<lambda>_. succeed [])
       (\<lambda>items. succeed (List.map_filter recent_of items)))"

text \<open>\<open>render_card\<close> is the template engine on the card of a job.\<close>

definition active_job_card ::
  "('s, 'n, 'd, 'r) app \<Rightarrow> (job_card \<Rightarrow> string + string) \<Rightarrow> session_user \<Rightarrow> ('s, 'n, 'd, 'e, string option) act" where
  "active_job_card app render_card u =
     handle (local_user_id app u) (\<lambda>_. succeed None) (\<lambda>uid.
     handle (on_pool app (\<lambda>_ _. jobs_active_for_user uid)) (\<lambda>_. succeed None) (\<lambda>active.
       case active of
         [] \<Rightarrow> succeed None
       | newest # _ \<Rightarrow> attempt (card_for app newest) (\<lambda>c. succeed (ok (render_card c)))))"

definition index ::
  "('s, 'n, 'd, 'r) app \<Rightarrow> text_lib \<Rightarrow> (job_card \<Rightarrow> string + string) \<Rightarrow> session_user \<Rightarrow> ('s, 'n, 'd, app_error, index_template) act" where
  "index app uni render_card u =
     attempt (page_csrf_token app) (\<lambda>token.
     attempt (active_job_card app render_card u) (\<lambda>active.
     attempt (rate_limit_hint app u) (\<lambda>hint.
     attempt (recent_generations app u) (\<lambda>recent.
       succeed \<lparr>ix_csrf_token = token, ix_initials = initials (tl_alphabetic uni) (tl_upper uni) u,
         ix_display_name = su_display_name u, ix_max_prompt_chars = cf_max_prompt_chars (ap_config app),
         ix_active_job = active, ix_rate_limit_hint = hint, ix_recent = recent\<rparr>))))"

section \<open>Probes\<close>

text \<open>\<open>VERSION\<close> is set by the build.\<close>

definition health_body :: "string \<Rightarrow> json" where
  "health_body VERSION = JObj [(''status'', JStr ''ok''), (''version'', JStr VERSION)]"

definition health :: "string \<Rightarrow> 'p outgoing" where
  "health VERSION = json_response 200 (health_body VERSION)"

definition ready :: "string \<Rightarrow> 'p outgoing" where
  "ready VERSION = json_response 200 (health_body VERSION)"

section \<open>Every page stays in the program\<close>

lemma keeps_page_csrf_token [keeps_intros]: "keeps (from_db app db) (page_csrf_token app)"
  unfolding page_csrf_token_def by (intro keeps_intros keeps_focus) auto

lemma keeps_case_list [keeps_intros]:
  "(xs = [] \<Longrightarrow> keeps I a) \<Longrightarrow> (\<And>y ys. xs = y # ys \<Longrightarrow> keeps I (b y ys)) \<Longrightarrow> keeps I (case xs of [] \<Rightarrow> a | y # ys \<Rightarrow> b y ys)"
  by (cases xs) simp_all

lemma pages_stay_in_program:
  assumes "others_ok app"
  shows "keeps (from_db app db) (render_archive app uni u q title lead scope own succeeded)"
    "keeps (from_db app db) (history app uni u q)" "keeps (from_db app db) (archive app uni u q)"
    "keeps (from_db app db) (rate_limit_hint app u)" "keeps (from_db app db) (recent_generations app u)"
    "keeps (from_db app db) (active_job_card app render_card u)" "keeps (from_db app db) (index app uni render_card u)"
  unfolding history_def archive_def render_archive_def rate_limit_hint_def recent_generations_def active_job_card_def
    index_def Let_def
  by (intro keeps_intros statements api_stays_in_program assms; simp)+

end
