(* ===== verification/SignIn.thy ===== *)
theory SignIn
  imports World
begin

text \<open>
  The sign-in and sign-out endpoints (\<open>routes/auth.rs\<close>): the start of a sign-in, the callback of the
  identity provider, the end of a session, and the paths a sign-in may return to.
\<close>

section \<open>Helpers\<close>

definition DEFAULT_RETURN_TO :: string where "DEFAULT_RETURN_TO = ''/''"

definition sanitise_return_to :: "string option \<Rightarrow> string" where
  "sanitise_return_to candidate = (case candidate of
     None \<Rightarrow> DEFAULT_RETURN_TO
   | Some value \<Rightarrow>
       if starts_with ''/'' value \<and> \<not> starts_with ''//'' value \<and> \<not> starts_with [CHR ''/'', CHR 0x5C] value \<and>
          set value \<inter> {CR, LF} = {} \<and> \<not> list_ex is_control (chars value)
       then value else DEFAULT_RETURN_TO)"

definition auth_failed :: "auth_error \<Rightarrow> app_error" where
  "auth_failed e = (case auth_error_code e of
     Forbidden \<Rightarrow> AppForbidden | Internal \<Rightarrow> AppInternal (CauseAuth e) | _ \<Rightarrow> AppValidation ERR_LOGIN_FAILED)"

definition upstream :: "auth_error \<Rightarrow> app_error" where
  "upstream e = AppValidation ERR_UPSTREAM"

definition internal :: "auth_error \<Rightarrow> app_error" where
  "internal e = AppInternal (CauseAuth e)"

definition record_audit ::
  "('s, 'n, 'd, 'r) app \<Rightarrow> uuid option \<Rightarrow> audit_action \<Rightarrow> client_info \<Rightarrow> ('s, 'n, 'd, 'e, unit) act" where
  "record_audit app uid action client = try_audit app \<lparr>entry_user_id = uid, entry_action = action,
     entry_entity = ''user'', entry_entity_id = map_option uuid_string uid,
     entry_ip = ci_ip client, entry_user_agent = ci_user_agent client\<rparr>"

section \<open>The handlers\<close>

definition login :: "('s, 'n, 'd, 'r) app \<Rightarrow> string option \<Rightarrow> ('s, 'n, 'd, app_error, 'p outgoing) act" where
  "login app query_return_to = (
     let return_to = sanitise_return_to query_return_to in
     attempt (map_err internal (the_current_user app)) (\<lambda>signed_in.
       if signed_in \<noteq> None then succeed (redirect_to return_to)
       else
         attempt (map_err upstream (with_metadata (begin_login (ap_oidc app) (config_oidc (ap_config app)) return_to))) (\<lambda>(url, flow).
         attempt (now_utc app) (\<lambda>now.
         attempt (map_err internal (in_the_session (put_login_flow (ap_sessions app) now flow))) (\<lambda>_.
           succeed (redirect_to url))))))"

record callback_query =
  cq_code :: "string option"
  cq_state :: "string option"
  cq_error :: "string option"
  cq_error_description :: "string option"

text \<open>The users row and the audit line of a sign-in: only a session that cannot be written fails it.\<close>

definition record_sign_in ::
  "('s, 'n, 'd, 'r) app \<Rightarrow> client_info \<Rightarrow> session_user \<Rightarrow> ('s, 'n, 'd, app_error, unit) act" where
  "record_sign_in app client u =
     handle (upsert_user app u) (\<lambda>_. succeed ()) (\<lambda>row.
       attempt (remember app (user_id row)) (\<lambda>_. record_audit app (Some (user_id row)) SignIn client))"

text \<open>What follows once the identity is known: the role first, the session after it.\<close>

definition establish ::
  "('s, 'n, 'd, 'r) app \<Rightarrow> client_info \<Rightarrow> login_flow \<Rightarrow> session_user \<Rightarrow> string \<Rightarrow> ('s, 'n, 'd, app_error, 'p outgoing) act" where
  "establish app client flow u raw_id_token =
     (if \<not> permits (ap_role_policy app) u then fail AppForbidden
      else
        attempt (map_err (\<lambda>e. internal (AuthSession e)) (in_the_session (sl_cycle_id (ap_sessions app)))) (\<lambda>_.
        attempt (map_err internal (in_the_session (put_user (ap_sessions app) u raw_id_token))) (\<lambda>_.
        attempt (record_sign_in app client u) (\<lambda>_.
          succeed (redirect_to (sanitise_return_to (Some (lf_return_to flow))))))))"

definition callback ::
  "('s, 'n, 'd, 'r) app \<Rightarrow> client_info \<Rightarrow> callback_query \<Rightarrow> ('s, 'n, 'd, app_error, 'p outgoing) act" where
  "callback app client query =
     attempt (now_utc app) (\<lambda>now.
     attempt (map_err auth_failed (in_the_session (take_login_flow (ap_sessions app) now))) (\<lambda>flow.
       case cq_error query of
         Some provider_error \<Rightarrow> fail (auth_failed (AuthProvider provider_error))
       | None \<Rightarrow> (case (cq_code query, cq_state query) of
           (Some code, Some returned_state) \<Rightarrow>
             attempt (map_err auth_failed (with_metadata
                 (complete_login (ap_oidc app) (config_oidc (ap_config app)) flow code returned_state))) (\<lambda>(c, raw_id_token).
             attempt (now_utc app) (\<lambda>authenticated_at.
             attempt (of_result (map_sum auth_failed id (from_claims authenticated_at c))) (\<lambda>u.
               establish app client flow u raw_id_token)))
         | _ \<Rightarrow> fail (auth_failed AuthStateMismatch))))"

text \<open>The audit line of a sign-out; a local id that cannot be read is left out of it.\<close>

definition record_sign_out :: "('s, 'n, 'd, 'r) app \<Rightarrow> client_info \<Rightarrow> ('s, 'n, 'd, app_error, unit) act" where
  "record_sign_out app client =
     handle (in_the_session (session_get (ap_sessions app) ''app.user_id'' as_uuid))
       (\<lambda>_. record_audit app None SignOut client) (\<lambda>uid. record_audit app uid SignOut client)"

definition logout ::
  "('s, 'n, 'd, 'r) app \<Rightarrow> client_info \<Rightarrow> ('s, 'n, 'd, app_error, 'p outgoing) act" where
  "logout app client =
     attempt (map_err internal (in_the_session (session_id_token (ap_sessions app)))) (\<lambda>hint.
     attempt (map_err internal (the_current_user app)) (\<lambda>signed_in.
     attempt (if signed_in \<noteq> None then record_sign_out app client else succeed ()) (\<lambda>_.
     attempt (map_err (\<lambda>e. internal (AuthSession e)) (in_the_session (sl_flush (ap_sessions app)))) (\<lambda>_.
     attempt (map_err upstream (with_metadata (logout_url (ap_oidc app) (config_oidc (ap_config app)) hint))) (\<lambda>url.
       succeed (redirect_to url))))))"

lemmas sign_in_defs [handler_defs] = record_audit_def login_def record_sign_in_def establish_def callback_def
  record_sign_out_def logout_def the_current_user_def

lemma sign_in_stays_in_program:
  assumes "others_ok app"
  shows "keeps (from_db app db) (record_audit app uid action client)" "keeps (from_db app db) (login app rt)"
    "keeps (from_db app db) (record_sign_in app client u)" "keeps (from_db app db) (callback app client query)"
    "keeps (from_db app db) (record_sign_out app client)" "keeps (from_db app db) (logout app client)"
  unfolding sign_in_defs Let_def by (intro keeps_intros statements assms)+


section \<open>Where a sign-in returns to\<close>

text \<open>A path on this host: one slash, no backslash after it, and no control character.\<close>

definition local_path :: "string \<Rightarrow> bool" where
  "local_path p \<longleftrightarrow> (\<exists>t. p = CHR ''/'' # t \<and> (t = [] \<or> hd t \<notin> {CHR ''/'', CHR 0x5C})) \<and> \<not> list_ex is_control (chars p)"

lemma no_control_bytes:
  assumes "utf8_valid p" and "\<not> list_ex is_control (chars p)" and "b \<in> set p"
  shows "32 \<le> byte b \<and> byte b \<noteq> 127"
proof (rule ccontr)
  assume "\<not> ?thesis"
  then have small: "byte b < 128" "is_control [b]" by (auto simp: is_control_def)
  then have "[b] \<in> set (chars p)" using ascii_byte_is_char [OF assms(1) small(1)] assms(3) by blast
  with assms(2) small(2) show False by (auto simp: list_ex_iff)
qed

lemma sanitise_return_to_keeps:
  "utf8_valid p \<Longrightarrow> sanitise_return_to (Some p) = (if local_path p then p else ''/'')"
proof -
  assume valid: "utf8_valid p"
  have ctrl: "\<not> list_ex is_control (chars p) \<Longrightarrow> set p \<inter> {CR, LF} = {}"
    using no_control_bytes [OF valid] by fastforce
  have shape: "(starts_with ''/'' p \<and> \<not> starts_with ''//'' p \<and> \<not> starts_with [CHR ''/'', CHR 0x5C] p) =
      (\<exists>t. p = CHR ''/'' # t \<and> (t = [] \<or> hd t \<notin> {CHR ''/'', CHR 0x5C}))"
    by (cases p; cases "tl p") (auto simp: starts_with_def)
  show ?thesis
    using ctrl shape by (auto simp: sanitise_return_to_def local_path_def DEFAULT_RETURN_TO_def)
qed

lemma local_path_root [simp]: "local_path ''/''"
proof -
  have "\<not> list_ex is_control (chars ''/'')" by code_simp
  then show ?thesis by (simp add: local_path_def)
qed

lemma sanitised_local: "pred_option utf8_valid candidate \<Longrightarrow> local_path (sanitise_return_to candidate)"
  using sanitise_return_to_keeps by (cases candidate) (auto simp: sanitise_return_to_def DEFAULT_RETURN_TO_def)

lemma local_path_header: "utf8_valid p \<Longrightarrow> local_path p \<Longrightarrow> header_value_ok p"
  using no_control_bytes by (auto simp: local_path_def header_value_ok_def list_all_iff)




section \<open>The session across a sign-in\<close>

lemma in_the_sessionD:
  "in_the_session m w = (r, w') \<Longrightarrow> m (wd_session w) = (r, wd_session w') \<and> w' = w\<lparr>wd_session := wd_session w'\<rparr>"
  by (auto simp: in_the_session_def focus_def split: prod.splits)

text \<open>What the value of \<open>f\<close> on the session is, as a property of the world.\<close>

definition session_is :: "('s \<Rightarrow> 'b) \<Rightarrow> 'b \<Rightarrow> ('s, 'n, 'd) world \<Rightarrow> bool" where
  "session_is f x w \<longleftrightarrow> f (wd_session w) = x"

named_theorems session_intros \<open>actions that leave a part of the session alone\<close>

lemma session_is_others [session_intros]:
  "keeps (session_is f x) (on_pool app stmt)" "keeps (session_is f x) (with_metadata m)"
  "keeps (session_is f x) (now_utc app)"
  by (auto simp: keeps_def session_is_def on_pool_def with_metadata_def focus_def now_utc_def Let_def
      split: prod.splits db_fault.splits)

lemma session_is_insert [session_intros]:
  assumes "session_laws sl view sid" and "k \<noteq> k'"
  shows "keeps (session_is (\<lambda>s. (view s k, sid s)) x) (in_the_session (sl_insert sl k' v))"
proof (rule keepsI)
  fix w :: "('a, 'n, 'd) world" assume w: "session_is (\<lambda>s. (view s k, sid s)) x w"
  obtain r w' where run: "in_the_session (sl_insert sl k' v) w = (r, w')" by fastforce
  from session_insertD [OF assms(1)] in_the_sessionD [OF run] assms(2) w
  show "session_is (\<lambda>s. (view s k, sid s)) x (snd (in_the_session (sl_insert sl k' v) w))"
    unfolding run session_is_def by (cases r) fastforce+
qed

lemma record_sign_in_session:
  assumes "session_laws (ap_sessions app) view sid" and "k \<noteq> USER_ID_KEY"
  shows "keeps (session_is (\<lambda>s. (view s k, sid s)) x) (record_sign_in app client u)"
  unfolding record_sign_in_def upsert_user_def remember_def record_audit_def try_audit_def
  by (intro keeps_intros session_intros assms)

lemma establish_session:
  assumes laws: "session_laws (ap_sessions app) view sid" and run: "establish app client flow u tok w = (r, w')"
  shows "view (wd_session w') USER_KEY = view (wd_session w) USER_KEY \<or>
      permits (ap_role_policy app) u \<and> sid (wd_session w') \<noteq> sid (wd_session w) \<and> view (wd_session w') USER_KEY = Some (UserEntry u)"
    and "view (wd_session w') LOGIN_FLOW_KEY = view (wd_session w) LOGIN_FLOW_KEY"
    and "r = Inr resp \<Longrightarrow> permits (ap_role_policy app) u \<and> sid (wd_session w') \<noteq> sid (wd_session w) \<and>
      view (wd_session w') USER_KEY = Some (UserEntry u) \<and> view (wd_session w') ID_TOKEN_KEY = Some (TextEntry tok) \<and>
      resp = redirect_to (sanitise_return_to (Some (lf_return_to flow)))"
proof -
  let ?v = "\<lambda>w. view (wd_session w)" and ?i = "\<lambda>w. sid (wd_session w)"
  obtain rc w1 where c: "in_the_session (sl_cycle_id (ap_sessions app)) w = (rc, w1)" by fastforce
  have c1: "?v w1 = ?v w" "rc = Inr () \<Longrightarrow> ?i w1 \<noteq> ?i w"
    using session_cycleD [OF laws conjunct1 [OF in_the_sessionD [OF c]]] by blast+
  obtain rp w2 where p: "in_the_session (put_user (ap_sessions app) u tok) w1 = (rp, w2)" by fastforce
  note p1 = put_user_effect [OF laws conjunct1 [OF in_the_sessionD [OF p]]]
  obtain rs w3 where s: "record_sign_in app client u w2 = (rs, w3)" by fastforce
  have s1: "?v w3 k = ?v w2 k \<and> ?i w3 = ?i w2" if "k \<noteq> USER_ID_KEY" for k
    using keepsD' [OF record_sign_in_session [OF laws that] s, of "(?v w2 k, ?i w2)"] by (simp add: session_is_def)
  have keys: "USER_KEY \<noteq> USER_ID_KEY" "LOGIN_FLOW_KEY \<noteq> USER_ID_KEY" "ID_TOKEN_KEY \<noteq> USER_ID_KEY"
    "LOGIN_FLOW_KEY \<notin> {USER_KEY, ID_TOKEN_KEY}" "USER_KEY \<noteq> ID_TOKEN_KEY"
    by (simp_all add: session_keys USER_ID_KEY_def)
  note frame = s1 [OF keys(1)] s1 [OF keys(2)] s1 [OF keys(3)]
  have run': "(r, w') = (if \<not> permits (ap_role_policy app) u then (Inl AppForbidden, w)
      else case rc of Inl e \<Rightarrow> (Inl (internal (AuthSession e)), w1)
      | Inr _ \<Rightarrow> (case rp of Inl e \<Rightarrow> (Inl (internal e), w2)
      | Inr _ \<Rightarrow> (case rs of Inl e \<Rightarrow> (Inl e, w3)
      | Inr _ \<Rightarrow> (Inr (redirect_to (sanitise_return_to (Some (lf_return_to flow)))), w3))))"
    using run by (auto simp: establish_def attempt_def map_err_def c p s fail_def succeed_def split: sum.splits)
  show "?v w' USER_KEY = ?v w USER_KEY \<or>
      permits (ap_role_policy app) u \<and> ?i w' \<noteq> ?i w \<and> ?v w' USER_KEY = Some (UserEntry u)"
    using run' c1 p1(1,2) frame by (auto split: if_splits sum.splits)
  show "?v w' LOGIN_FLOW_KEY = ?v w LOGIN_FLOW_KEY"
    using run' c1 p1(3) [OF keys(4)] frame by (auto split: if_splits sum.splits)
  show "permits (ap_role_policy app) u \<and> ?i w' \<noteq> ?i w \<and> ?v w' USER_KEY = Some (UserEntry u) \<and>
      ?v w' ID_TOKEN_KEY = Some (TextEntry tok) \<and> resp = redirect_to (sanitise_return_to (Some (lf_return_to flow)))"
    if "r = Inr resp"
  proof -
    have ok: "permits (ap_role_policy app) u" "rc = Inr ()" "rp = Inr ()" "w' = w3"
      "resp = redirect_to (sanitise_return_to (Some (lf_return_to flow)))"
      using run' that by (auto split: if_splits sum.splits)
    have "?v w2 = (?v w1)(USER_KEY \<mapsto> UserEntry u, ID_TOKEN_KEY \<mapsto> TextEntry tok)"
      by (rule put_userD(1) [OF laws conjunct1 [OF in_the_sessionD [OF p [unfolded ok(3)]]]])
    then show ?thesis using ok c1(2) [OF ok(2)] p1(1) frame keys(5) by simp
  qed
qed


text \<open>
  What makes a callback genuine: the session holds a flow of at most fifteen minutes, the provider
  reported no error, the state is that of the flow, and one verified exchange of the code gave the
  claims the user is made of.
\<close>

definition genuine_callback ::
  "('s, 'n, 'd, 'r) app \<Rightarrow> ('s \<Rightarrow> string \<Rightarrow> session_value option) \<Rightarrow> ('s, 'n, 'd) world \<Rightarrow> callback_query \<Rightarrow> session_user \<Rightarrow> string \<Rightarrow> bool" where
  "genuine_callback app view w query u tok \<longleftrightarrow> (\<exists>flow t0 code c client n1 n2 now.
     view (wd_session w) LOGIN_FLOW_KEY = Some (FlowEntry flow t0) \<and> ap_clock app (wd_net w) - t0 < seconds 901 \<and>
     cq_error query = None \<and> cq_code query = Some code \<and> cq_state query = Some (lf_state flow) \<and>
     verified_exchange (ap_oidc app) client flow code n1 c tok n2 \<and> from_claims now c = Inr u)"

lemma map_sum_Inr_iff: "map_sum f id s = Inr x \<longleftrightarrow> s = Inr x"
  by (cases s) auto

text \<open>What comes before the exchange: the pending flow is taken, and the query has a code and a state.\<close>

lemma callback_starts:
  assumes laws: "session_laws (ap_sessions app) view sid" and run: "callback app client query w = (r, w')"
  obtains (refused) "\<exists>e. r = Inl e" and "view (wd_session w') USER_KEY = view (wd_session w) USER_KEY"
  | (started) flow t0 code st w1 where "cq_error query = None" and "cq_code query = Some code" and "cq_state query = Some st"
      and "view (wd_session w) LOGIN_FLOW_KEY = Some (FlowEntry flow t0)" and "ap_clock app (wd_net w) - t0 < seconds 901"
      and "in_the_session (take_login_flow (ap_sessions app) (ap_clock app (wd_net w))) w = (Inr flow, w1)"
      and "view (wd_session w1) USER_KEY = view (wd_session w) USER_KEY" and "sid (wd_session w1) = sid (wd_session w)"
      and "view (wd_session w1) LOGIN_FLOW_KEY = None"
proof -
  let ?now = "ap_clock app (wd_net w)"
  obtain rf w1 where take: "in_the_session (take_login_flow (ap_sessions app) ?now) w = (rf, w1)" by fastforce
  note f = take_login_flowD [OF laws conjunct1 [OF in_the_sessionD [OF take]]]
  have "LOGIN_FLOW_KEY \<noteq> USER_KEY" by (simp add: session_keys)
  then have f1: "view (wd_session w1) USER_KEY = view (wd_session w) USER_KEY" "sid (wd_session w1) = sid (wd_session w)"
    using f(1,2) by auto
  show ?thesis
  proof (cases "\<exists>flow code st. rf = Inr flow \<and> cq_error query = None \<and> cq_code query = Some code \<and> cq_state query = Some st")
    case False
    then have "(\<exists>e. r = Inl e) \<and> w' = w1"
      using run by (auto simp: callback_def now_utc_def attempt_def map_err_def take fail_def split: sum.splits option.splits)
    with f1 show ?thesis using refused by auto
  next
    case True
    then obtain flow code st where q: "rf = Inr flow" "cq_error query = None" "cq_code query = Some code" "cq_state query = Some st"
      by blast
    obtain t0 where "view (wd_session w) LOGIN_FLOW_KEY = Some (FlowEntry flow t0)" "?now - t0 < seconds 901"
      and "view (wd_session w1) LOGIN_FLOW_KEY = None"
      using f(3,4) q(1) by (auto simp: LOGIN_FLOW_TTL_SECONDS_def split: option.splits session_value.splits if_splits)
    then show ?thesis using started [OF q(2-4)] take f1 q(1) by simp
  qed
qed

text \<open>The exchange: it fails, or it is genuine and a session is established.\<close>

lemma callback_exchanges:
  assumes laws: "session_laws (ap_sessions app) view sid" and run: "callback app client query w = (r, w')"
  obtains (refused) "\<exists>e. r = Inl e" and "view (wd_session w') USER_KEY = view (wd_session w) USER_KEY"
  | (genuine) flow u tok w2 where "establish app client flow u tok w2 = (r, w')" and "genuine_callback app view w query u tok"
      and "view (wd_session w2) USER_KEY = view (wd_session w) USER_KEY" and "sid (wd_session w2) = sid (wd_session w)"
      and "view (wd_session w2) LOGIN_FLOW_KEY = None"
proof (cases rule: callback_starts [OF laws run])
  case 1
  then show ?thesis by (rule refused)
next
  case (2 flow t0 code st w1)
  let ?complete = "complete_login (ap_oidc app) (config_oidc (ap_config app)) flow code st"
  obtain rc kept n2 where complete: "?complete (wd_metadata w1, wd_net w1) = (rc, (kept, n2))" by (metis prod.exhaust)
  define w2 where "w2 = w1\<lparr>wd_metadata := kept, wd_net := n2\<rparr>"
  have meta: "with_metadata ?complete w1 = (rc, w2)"
    by (simp add: with_metadata_def focus_def complete w2_def)
  have same: "wd_session w2 = wd_session w1" by (simp add: w2_def)
  note start = run [unfolded callback_def now_utc_def, unfolded attempt_def [of "\<lambda>w. (Inr (ap_clock app (wd_net w)), w)"], simplified]
  note step = attempt_def map_err_def 2(1-3,6) meta of_result_def
  show ?thesis
  proof (cases "\<exists>c tok u. rc = Inr (c, tok) \<and> from_claims (ap_clock app (wd_net w2)) c = Inr u")
    case False
    then have "(\<exists>e. r = Inl e) \<and> w' = w2"
      using start by (cases rc) (auto simp: step map_sum_Inr_iff split: sum.splits)
    with 2 same show ?thesis using refused by auto
  next
    case True
    then obtain c tok u where rc: "rc = Inr (c, tok)" and u: "from_claims (ap_clock app (wd_net w2)) c = Inr u" by blast
    obtain oc n1 where st: "st = lf_state flow" and exchange: "verified_exchange (ap_oidc app) oc flow code n1 c tok n2"
      by (rule complete_login_success [OF complete [unfolded rc]])
    have "genuine_callback app view w query u tok"
      unfolding genuine_callback_def
      by (intro exI [of _ flow] exI [of _ t0] exI [of _ code] exI [of _ c] exI [of _ oc] exI [of _ n1]
          exI [of _ n2] exI [of _ "ap_clock app (wd_net w2)"] conjI) (simp_all add: 2 exchange u st)
    moreover have "establish app client flow u tok w2 = (r, w')"
      using start rc u by (simp add: step)
    ultimately show ?thesis using genuine 2 same by auto
  qed
qed



definition sample_user_in_session :: session_user where
  "sample_user_in_session = \<lparr>su_oid = ''oid'', su_email = Some ''hk@example.no'', su_upn = None,
     su_display_name = ''Hans Kristiansen'', su_roles = [''User''], su_groups = [], su_authenticated_at = 2\<rparr>"

lemma sample_callback:
  "\<exists>resp w'. callback sample_app sample_client \<lparr>cq_code = Some ''code'', cq_state = Some ''state'', cq_error = None,
       cq_error_description = None\<rparr> (sample_world empty_database [LOGIN_FLOW_KEY \<mapsto> FlowEntry sample_flow 0]) =
     (Inr (resp :: unit outgoing), w') \<and> snd (wd_session w') USER_KEY = Some (UserEntry sample_user_in_session)"
proof -
  have claims: "from_claims 2 sample_claims = Inr sample_user_in_session"
    by (simp add: from_claims_def sample_claims_def sample_user_in_session_def option_or_def or_else_def)
  have role: "permits \<lparr>rp_required = Some ''User''\<rparr> sample_user_in_session"
    by (simp add: permits_def has_role_def sample_user_in_session_def)
  have keys: "USER_KEY \<noteq> USER_ID_KEY" "USER_KEY \<noteq> ID_TOKEN_KEY" by (simp_all add: session_keys USER_ID_KEY_def)
  show ?thesis
    by (simp add: callback_def establish_def record_sign_in_def upsert_user_def remember_def record_audit_def try_audit_def
        users_upsert_on_login_def audit_record_def empty_database_def on_pool_def world_defs action_defs sample_world_def
        session_defs memory_sessions_def LOGIN_FLOW_TTL_SECONDS_def duration_defs sample_login(2) claims role keys to_user_def
        Let_def sample_client_def)
qed

text \<open>
  When the row of the user cannot be written, the local id of whoever used the session before stays in
  it, and the requests of the new user run under that id.
\<close>

lemma callback_can_keep_a_foreign_id:
  "let w = snd (callback (sample_app\<lparr>ap_pool := (\<lambda>n. (LostRequest ''down'', n))\<rparr>) sample_client
       \<lparr>cq_code = Some ''code'', cq_state = Some ''state'', cq_error = None, cq_error_description = None\<rparr>
       (sample_world empty_database [LOGIN_FLOW_KEY \<mapsto> FlowEntry sample_flow 0, USER_ID_KEY \<mapsto> UuidEntry 7]))
   in snd (wd_session w) USER_KEY = Some (UserEntry sample_user_in_session) \<and> fst (local_user_id sample_app sample_user_in_session w) = Inr 7"
proof -
  have claims: "from_claims 2 sample_claims = Inr sample_user_in_session"
    by (simp add: from_claims_def sample_claims_def sample_user_in_session_def option_or_def or_else_def)
  have role: "permits \<lparr>rp_required = Some ''User''\<rparr> sample_user_in_session"
    by (simp add: permits_def has_role_def sample_user_in_session_def)
  have keys: "USER_KEY \<noteq> USER_ID_KEY" "USER_KEY \<noteq> ID_TOKEN_KEY" "USER_ID_KEY \<noteq> USER_KEY" "USER_ID_KEY \<noteq> ID_TOKEN_KEY"
    "LOGIN_FLOW_KEY \<noteq> USER_ID_KEY" by (simp_all add: session_keys USER_ID_KEY_def)
  show ?thesis
    by (simp add: callback_def establish_def record_sign_in_def upsert_user_def on_pool_def world_defs action_defs sample_world_def
        session_defs memory_sessions_def LOGIN_FLOW_TTL_SECONDS_def duration_defs sample_login(2) claims role keys
        Let_def local_user_id_def)
qed


text \<open>
  C35: whoever signs out is signed out here, whatever happens elsewhere. Unless the session store
  itself fails, the session is empty afterwards: also when the audit line cannot be written, and
  also when the identity provider cannot be reached, in which case the user is told so.
\<close>

theorem logout_clears_session:
  assumes laws: "session_laws (ap_sessions app) view sid" and run: "logout app client w = (r, w')"
    and store: "\<nexists>c. r = Inl (AppInternal c)"
  shows "view (wd_session w') = Map.empty \<and> ((\<exists>url. r = Inr (redirect_to url)) \<or> r = Inl (AppValidation ERR_UPSTREAM))"
proof -
  obtain rh w1 where h: "map_err internal (in_the_session (session_id_token (ap_sessions app))) w = (rh, w1)" by fastforce
  obtain ru w2 where u: "map_err internal (the_current_user app) w1 = (ru, w2)" by fastforce
  have ints: "rh = Inl e \<Longrightarrow> \<exists>c. e = AppInternal c" "ru = Inl e \<Longrightarrow> \<exists>c. e = AppInternal c" for e
    using h u by (auto simp: map_err_def internal_def split: prod.splits sum.splits)
  from run store ints obtain hint su where ok: "rh = Inr hint" "ru = Inr su"
    by (cases rh; cases ru) (auto simp: logout_def attempt_def h u)
  obtain ra w3 where a: "(if su \<noteq> None then record_sign_out app client else succeed ()) w2 = (ra, w3)" by fastforce
  then have ra: "ra = Inr ()"
    by (auto simp: record_sign_out_def record_audit_def try_audit_def handle_def succeed_def split: if_splits prod.splits sum.splits)
  obtain rf w4 where f: "in_the_session (sl_flush (ap_sessions app)) w3 = (rf, w4)" by fastforce
  have flushed: "rf = Inr () \<Longrightarrow> view (wd_session w4) = Map.empty"
    using session_flushD [OF laws conjunct1 [OF in_the_sessionD [OF f]]] by simp
  have rest: "(r, w') = attempt (map_err (\<lambda>e. internal (AuthSession e)) (in_the_session (sl_flush (ap_sessions app)))) (\<lambda>_.
      attempt (map_err upstream (with_metadata (logout_url (ap_oidc app) (config_oidc (ap_config app)) hint))) (\<lambda>url.
        succeed (redirect_to url))) w3"
    unfolding run [symmetric] logout_def
      attempt_ok [of "map_err internal (in_the_session (session_id_token (ap_sessions app)))", OF h [unfolded ok]]
      attempt_ok [of "map_err internal (the_current_user app)", OF u [unfolded ok]]
      attempt_ok [of "if su \<noteq> None then record_sign_out app client else succeed ()", OF a [unfolded ra]] ..
  obtain ro x where o: "logout_url (ap_oidc app) (config_oidc (ap_config app)) hint (wd_metadata w4, wd_net w4) = (ro, x)" by (meson surj_pair)
  have rf: "rf = Inr ()"
    using rest store by (cases rf) (auto simp: attempt_def map_err_def f internal_def)
  then have "w' = w4\<lparr>wd_metadata := fst x, wd_net := snd x\<rparr> \<and>
      r = (case ro of Inl e \<Rightarrow> Inl (upstream e) | Inr url \<Rightarrow> Inr (redirect_to url))"
    using rest by (cases ro) (auto simp: attempt_def map_err_def f with_metadata_def focus_def o succeed_def split: prod.splits)
  with flushed rf show ?thesis by (cases ro) (auto simp: upstream_def)
qed

theorem logout_clears_session_witness:
  "\<exists>w'. logout sample_app sample_client (sample_world empty_database [USER_KEY \<mapsto> UserEntry sample_user_in_session]) =
     (Inr (redirect_to ''https://login/logout'' :: unit outgoing), w') \<and> snd (wd_session w') = Map.empty"
proof -
  have keys: "ID_TOKEN_KEY \<noteq> USER_KEY" "''app.user_id'' \<noteq> USER_KEY" by (simp_all add: session_keys)
  have url: "logout_url sample_oidc sample_oidc_config None (None, n) =
      (Inr ''https://login/logout'', (Some (sample_metadata\<lparr>md_fetched_at := int n + 1\<rparr>), n + 1))" for n
  proof -
    have "cached_metadata sample_oidc sample_oidc_config (None, n) =
        (Inr (sample_metadata\<lparr>md_fetched_at := int n + 1\<rparr>), (Some (sample_metadata\<lparr>md_fetched_at := int n + 1\<rparr>), n + 1))"
      by (simp add: cached_metadata_def oidc_metadata_def refresh_metadata_def discover_def action_defs
          sample_oidc_def sample_oidc_config_def sample_metadata_def)
    then show ?thesis
      by (simp add: logout_url_def attempt_def sample_metadata_def)
         (simp add: sample_oidc_def of_result_def succeed_def)
  qed
  obtain w' where run: "logout sample_app sample_client (sample_world empty_database [USER_KEY \<mapsto> UserEntry sample_user_in_session]) =
      (Inr (redirect_to ''https://login/logout'' :: unit outgoing), w')"
    by (simp add: logout_def the_current_user_def record_sign_out_def record_audit_def try_audit_def audit_record_def
        on_pool_def world_defs action_defs sample_world_def session_defs memory_sessions_def keys sample_client_def
        empty_database_def Let_def url)
  have laws: "session_laws (ap_sessions sample_app) snd fst" using memory_sessions_laws by simp
  from logout_clears_session [OF laws run] run show ?thesis by simp
qed

end
