(* ===== verification/Api_Correct.thy ===== *)
theory Api_Correct
  imports Api
begin

text \<open>
  What the endpoints guarantee: a generation asked for is one job of the caller, queued or failed,
  within the limit; a browser that follows a job sees it to its end; what belongs to someone else
  does not exist.
\<close>

section \<open>Actions that leave the jobs alone\<close>

definition rest_kept ::
  "database \<Rightarrow> uuid list \<times> (uuid \<times> job_status) list \<Rightarrow> ('s, 'n, 'd) world \<Rightarrow> bool" where
  "rest_kept db x w \<longleftrightarrow> db_ok (wd_db w) \<and> jobs (wd_db w) = jobs db \<and> assets (wd_db w) = assets db \<and> aside w = x"

lemma keeps_rest_statement:
  fixes app :: "('s, 'n, 'd, 'r) app"
  assumes "quiet app" and "\<And>now u. keeps db_ok (stmt now u)"
    and "\<And>now u db. jobs (snd (stmt now u db)) = jobs db \<and> assets (snd (stmt now u db)) = assets db"
  shows "keeps (rest_kept db x) (on_pool app stmt)"
proof (rule keepsI)
  fix w :: "('s, 'n, 'd) world" assume w: "rest_kept db x w"
  obtain n now u where step: "on_pool app stmt w = (fst (stmt now u (wd_db w)), w\<lparr>wd_net := n, wd_db := snd (stmt now u (wd_db w))\<rparr>)"
    by (rule quiet_pool [OF assms(1)])
  show "rest_kept db x (snd (on_pool app stmt w))"
    using w assms(3) keepsD [OF assms(2)] by (simp add: step rest_kept_def aside_def)
qed

lemma keeps_rest_elsewhere [keeps_intros]:
  "keeps (rest_kept db x) (in_the_net m)" "keeps (rest_kept db x) (in_the_session m')"
  "keeps (rest_kept db x) (new_v4 app)" "keeps (rest_kept db x) (with_key m'')" "keeps (rest_kept db x) (now_utc app)"
  by (auto simp: keeps_def rest_kept_def aside_def world_defs split: prod.splits)

lemma keeps_rest_count: "quiet app \<Longrightarrow> keeps (rest_kept db x) (on_pool app (\<lambda>now u. jobs_count_last_hour now uid))"
  by (rule keeps_rest_statement) (auto simp: jobs_count_last_hour_def intro: keeps_intros)

lemma keeps_rest_upsert:
  "quiet app \<Longrightarrow> keeps (rest_kept db x) (on_pool app (\<lambda>now u. users_upsert_on_login now u oid email name))"
  by (rule keeps_rest_statement)
     (auto simp: users_upsert_on_login_def Let_def intro: keeps_users_upsert split: option.split)

lemma keeps_rest_audit:
  "quiet app \<Longrightarrow> keeps (rest_kept db x) (on_pool app (\<lambda>now u. audit_record (ap_inet_ok app) now entry))"
  by (rule keeps_rest_statement) (auto simp: audit_record_def Let_def intro: keeps_audit_record)

lemma keeps_rest_helpers [keeps_intros]:
  assumes "quiet app"
  shows "keeps (rest_kept db x) (local_user_id app u)" "keeps (rest_kept db x) (ratelimit_check app uid limit)"
    "keeps (rest_kept db x) (try_audit app entry)" "keeps (rest_kept db x) (store_reference app lower m reference)"
  unfolding handler_helper_defs store_reference_def Let_def
  by (intro keeps_intros keeps_rest_upsert keeps_rest_count keeps_rest_audit assms)+

lemma attempt_assoc: "attempt (attempt m k) h = attempt m (\<lambda>x. attempt (k x) h)"
  by (auto simp: attempt_def fun_eq_iff split: prod.splits sum.splits)


section \<open>A generation\<close>

text \<open>The handler in two parts: what comes before the job is written, and the rest.\<close>

definition admission ::
  "('s, 'n, 'd, 'r) app \<Rightarrow> (string \<Rightarrow> string) \<Rightarrow> session_user \<Rightarrow> multipart \<Rightarrow> ('s, 'n, 'd, app_error, uuid \<times> new_job) act" where
  "admission app lower u parts =
     attempt (of_result (read_fields parts)) (\<lambda>f.
     attempt (of_result (case gf_media_type f of None \<Rightarrow> Inl (AppValidation ERR_UNKNOWN_MEDIA_TYPE) | Some m \<Rightarrow> Inr m)) (\<lambda>m.
     attempt (of_result (map_sum of_domain_error id (validate_prompt (gf_prompt f) (cf_max_prompt_chars (ap_config app))))) (\<lambda>prompt.
     attempt (local_user_id app u) (\<lambda>uid.
     attempt (ratelimit_check app uid (cf_rate_limit_per_hour (ap_config app))) (\<lambda>_.
     attempt (store_reference app lower m (gf_reference f)) (\<lambda>path.
       succeed (uid, \<lparr>new_user_id = uid, new_media_type = m, new_prompt = prompt, new_parameters = generate_parameters f m path\<rparr>)))))))"

definition submission ::
  "('s, 'n, 'd, 'r) app \<Rightarrow> client_info \<Rightarrow> uuid \<times> new_job \<Rightarrow> ('s, 'n, 'd, app_error, job_card) act" where
  "submission app client = (\<lambda>(uid, new).
     attempt (map_err app_storage_error (on_pool app (\<lambda>now fresh. jobs_create now fresh new))) (\<lambda>j.
     attempt (try_audit app (job_audit GenerationRequested ''job'' uid (job_id j) client)) (\<lambda>_.
       queue_or_fail app j)))"

lemma generate_parts: "generate app lower client u parts = attempt (admission app lower u parts) (submission app client)"
  by (simp add: generate_def admission_def submission_def attempt_assoc)

lemma keeps_admission [keeps_intros]: "quiet app \<Longrightarrow> keeps (rest_kept db x) (admission app lower u parts)"
  unfolding admission_def by (intro keeps_intros)

text \<open>The limit was not reached at the moment of the check.\<close>

definition within_limit :: "32 word \<Rightarrow> uuid \<Rightarrow> job_row list \<Rightarrow> bool" where
  "within_limit limit uid rows \<longleftrightarrow> limit = 0 \<or>
     (\<exists>now. int (length (filter (\<lambda>r. j_user_id r = uid \<and> now - one_hour < j_created_at r) rows)) < uint limit)"

lemma ratelimit_checkD:
  assumes "quiet app" and "ratelimit_check app uid limit w = (Inr (), w')"
  shows "within_limit limit uid (jobs (wd_db w))"
proof (cases "limit = 0")
  case False
  let ?stmt = "\<lambda>now (_ :: uuid). jobs_count_last_hour now uid"
  obtain n now u where step: "on_pool app ?stmt w = (fst (?stmt now u (wd_db w)), w\<lparr>wd_net := n, wd_db := snd (?stmt now u (wd_db w))\<rparr>)"
    by (rule quiet_pool [OF assms(1), of ?stmt w])
  have "int (length (filter (\<lambda>r. j_user_id r = uid \<and> now - one_hour < j_created_at r) (jobs (wd_db w)))) < uint limit"
    using assms(2) False step
    by (auto simp: ratelimit_check_def jobs_count_last_hour_def select_op_def action_defs split: if_splits)
  then show ?thesis by (auto simp: within_limit_def)
qed (simp add: within_limit_def)

lemma admissionD:
  assumes "quiet app" and "admission app lower u parts w = (Inr (uid, new), w')" and "rest_kept db x w"
  obtains f where "read_fields parts = Inr f" and "gf_media_type f = Some (new_media_type new)"
    and "validate_prompt (gf_prompt f) (cf_max_prompt_chars (ap_config app)) = Inr (new_prompt new)"
    and "new_user_id new = uid" and "within_limit (cf_rate_limit_per_hour (ap_config app)) uid (jobs db)"
    and "\<exists>path. new_parameters new = generate_parameters f (new_media_type new) path"
proof -
  from assms(2) obtain f m prompt w1 w2 path where f: "read_fields parts = Inr f" and m: "gf_media_type f = Some m"
    and p: "validate_prompt (gf_prompt f) (cf_max_prompt_chars (ap_config app)) = Inr prompt"
    and id: "local_user_id app u w = (Inr uid, w1)"
    and check: "ratelimit_check app uid (cf_rate_limit_per_hour (ap_config app)) w1 = (Inr (), w2)"
    and new: "new = \<lparr>new_user_id = uid, new_media_type = m, new_prompt = prompt, new_parameters = generate_parameters f m path\<rparr>"
    unfolding admission_def
    by (auto elim!: attempt_okE simp: of_result_def succeed_def map_sum_def split: option.splits sum.splits)
  have "rest_kept db x w1" using keepsD' [OF keeps_rest_helpers(1) [OF assms(1)] id assms(3)] .
  then have "within_limit (cf_rate_limit_per_hour (ap_config app)) uid (jobs db)"
    using ratelimit_checkD [OF assms(1) check] by (simp add: rest_kept_def)
  then show ?thesis using f m p new by (intro that [of f]) auto
qed


definition queued_row :: "instant \<Rightarrow> uuid \<Rightarrow> new_job \<Rightarrow> job_row" where
  "queued_row now fresh new = \<lparr>j_id = fresh, j_user_id = new_user_id new, j_media_type = new_media_type new,
     j_prompt = new_prompt new, j_parameters = new_parameters new, j_status = ''queued'', j_provider_job_id = None,
     j_error_code = None, j_error_message = None, j_created_at = now, j_started_at = None, j_completed_at = None, j_hidden = False\<rparr>"

lemma queued_row_simps [simp]:
  "j_id (queued_row now fresh new) = fresh" "j_user_id (queued_row now fresh new) = new_user_id new"
  "j_media_type (queued_row now fresh new) = new_media_type new" "j_prompt (queued_row now fresh new) = new_prompt new"
  "j_parameters (queued_row now fresh new) = new_parameters new" "\<not> j_hidden (queued_row now fresh new)"
  "row_status (queued_row now fresh new) = Queued" "unfinished (queued_row now fresh new)"
  by (simp_all add: queued_row_def row_status_def from_columns_def unfinished_def)

lemma create_quiet:
  assumes "quiet app" and "rest_kept db x w" and "on_pool app (\<lambda>now fresh. jobs_create now fresh new) w = (r, w')"
  shows "case r of Inl _ \<Rightarrow> rest_kept db x w'
    | Inr j \<Rightarrow> \<exists>now fresh. j = to_job (queued_row now fresh new) \<and> fresh \<notin> j_id ` set (jobs db) \<and>
        rest_kept (db\<lparr>jobs := jobs db @ [queued_row now fresh new]\<rparr>) x w'"
proof -
  let ?stmt = "\<lambda>now fresh. jobs_create now fresh new"
  obtain n now u where step: "on_pool app ?stmt w = (fst (?stmt now u (wd_db w)), w\<lparr>wd_net := n, wd_db := snd (?stmt now u (wd_db w))\<rparr>)"
    by (rule quiet_pool [OF assms(1), of ?stmt w])
  have ok: "db_ok (snd (?stmt now u (wd_db w)))" using keepsD [OF keeps_jobs_create] assms(2) by (simp add: rest_kept_def)
  show ?thesis
    using assms(2,3) step ok by (auto simp: jobs_create_def Let_def rest_kept_def aside_def queued_row_def split: if_splits)
qed

lemma queue_or_fail_quiet:
  assumes quiet: "quiet app" and kept: "rest_kept (db\<lparr>jobs := old @ [row]\<rparr>) (q, ev) w"
    and new: "j_id row \<notin> j_id ` set old" "unfinished row" and j: "j = to_job row"
    and run: "queue_or_fail app j w = (r, w')"
  shows "\<exists>row'. r = Inr (card_from_job (to_job row') None) \<and>
    (if length q < QUEUE_CAPACITY then row' = row \<and> rest_kept (db\<lparr>jobs := old @ [row]\<rparr>) (q @ [j_id row], ev) w'
     else (\<exists>now. row' = finished_row now (Failed RateLimited ERR_QUEUE_FULL) row) \<and>
       rest_kept (db\<lparr>jobs := old @ [row']\<rparr>) (q, ev) w')"
proof (cases "length q < QUEUE_CAPACITY")
  case True
  then have "enqueue (j_id row) w = (Inr (), w\<lparr>wd_queue := q @ [j_id row]\<rparr>)"
    using kept by (simp add: enqueue_def rest_kept_def aside_def)
  then have "r = Inr (card_from_job (to_job row) None)" "w' = w\<lparr>wd_queue := q @ [j_id row]\<rparr>"
    using run j by (simp_all add: queue_or_fail_def handle_def succeed_def)
  then show ?thesis using True kept by (auto simp: rest_kept_def aside_def)
next
  case False
  let ?st = "Failed RateLimited ERR_QUEUE_FULL"
  have full: "enqueue (j_id row) w = (Inl (), w)" using False kept by (simp add: enqueue_def rest_kept_def aside_def)
  have ok: "db_ok (wd_db w)" and jobs: "jobs (wd_db w) = old @ [row]" using kept by (simp_all add: rest_kept_def)
  have here: "job_table (wd_db w) (j_id row) = Some row"
    using new(1) row_by_None [of j_id old "j_id row"] by (simp add: jobs row_by_append)
  obtain n now u where step: "on_pool app (\<lambda>now _. jobs_finish now (j_id row) ?st) w =
      (fst (jobs_finish now (j_id row) ?st (wd_db w)), w\<lparr>wd_net := n, wd_db := snd (jobs_finish now (j_id row) ?st (wd_db w))\<rparr>)"
    by (rule quiet_pool [OF quiet, of "\<lambda>now _. jobs_finish now (j_id row) ?st" w])
  have none: "j_id x \<noteq> j_id row" if "x \<in> set old" for x using new(1) that by (metis imageI)
  have upd: "update_where (\<lambda>r. j_id r = j_id row \<and> unfinished r) f (old @ [row]) = old @ [f row]" for f
    using new(2) none by (auto simp: update_where_def intro!: map_idI)
  have fin: "jobs_finish now (j_id row) ?st (wd_db w) = (Inr (to_job (finished_row now ?st row)),
      (wd_db w)\<lparr>jobs := old @ [finished_row now ?st row]\<rparr>)"
    using new(2) by (simp add: jobs_finish_eq [OF ok] here) (simp add: jobs upd)
  have "db_ok ((wd_db w)\<lparr>jobs := old @ [finished_row now ?st row]\<rparr>)"
    using keepsD [OF keeps_jobs_updates(2) ok, of now "j_id row" ?st] fin by simp
  then have "rest_kept (db\<lparr>jobs := old @ [finished_row now ?st row]\<rparr>) (q, ev) w' \<and>
      r = Inr (card_from_job (to_job (finished_row now ?st row)) None)"
    using run j full step fin kept
    by (auto simp: queue_or_fail_def handle_def attempt_def map_err_def succeed_def rest_kept_def aside_def)
  then show ?thesis using False by (intro exI [of _ "finished_row now ?st row"]) auto
qed


lemma submission_quiet:
  fixes app :: "('s, 'n, 'd, 'r) app"
  assumes quiet: "quiet app" and kept: "rest_kept db (q, ev) w" and run: "submission app client (uid, new) w = (r, w')"
  shows "case r of Inl _ \<Rightarrow> rest_kept db (q, ev) w'
    | Inr shown \<Rightarrow> \<exists>now fresh row. fresh \<notin> j_id ` set (jobs db) \<and> shown = card_from_job (to_job row) None \<and>
        (if length q < QUEUE_CAPACITY
         then row = queued_row now fresh new \<and> rest_kept (db\<lparr>jobs := jobs db @ [row]\<rparr>) (q @ [fresh], ev) w'
         else (\<exists>t. row = finished_row t (Failed RateLimited ERR_QUEUE_FULL) (queued_row now fresh new)) \<and>
           rest_kept (db\<lparr>jobs := jobs db @ [row]\<rparr>) (q, ev) w')"
proof -
  obtain rc w2 where c: "on_pool app (\<lambda>now fresh. jobs_create now fresh new) w = (rc, w2)" by fastforce
  note c1 = create_quiet [OF quiet kept c]
  show ?thesis
  proof (cases rc)
    case (Inl e)
    then have "r = Inl (app_storage_error e)" "w' = w2" using run c by (simp_all add: submission_def attempt_def map_err_def)
    then show ?thesis using c1 Inl by simp
  next
    case (Inr j)
    then obtain now fresh where j: "j = to_job (queued_row now fresh new)" "fresh \<notin> j_id ` set (jobs db)"
      and k2: "rest_kept (db\<lparr>jobs := jobs db @ [queued_row now fresh new]\<rparr>) (q, ev) w2" using c1 by auto
    let ?entry = "job_audit GenerationRequested ''job'' uid (job_id j) client"
    obtain ra :: "app_error + unit" and w3 where a: "try_audit app ?entry w2 = (ra, w3)" by fastforce
    have ra: "ra = Inr ()" using a by (auto simp: try_audit_def handle_def succeed_def split: prod.splits sum.splits)
    have k3: "rest_kept (db\<lparr>jobs := jobs db @ [queued_row now fresh new]\<rparr>) (q, ev) w3"
      using keepsD' [OF keeps_rest_helpers(3) [OF quiet] a k2] .
    have last: "queue_or_fail app j w3 = (r, w')" using run c Inr a ra by (simp add: submission_def attempt_def map_err_def)
    from queue_or_fail_quiet [OF quiet k3 _ queued_row_simps(8) j(1) last, unfolded queued_row_simps, OF j(2)]
    obtain row where row: "r = Inr (card_from_job (to_job row) None)"
      "if length q < QUEUE_CAPACITY
       then row = queued_row now fresh new \<and> rest_kept (db\<lparr>jobs := jobs db @ [queued_row now fresh new]\<rparr>) (q @ [fresh], ev) w'
       else (\<exists>t. row = finished_row t (Failed RateLimited ERR_QUEUE_FULL) (queued_row now fresh new)) \<and>
         rest_kept (db\<lparr>jobs := jobs db @ [row]\<rparr>) (q, ev) w'" by blast
    show ?thesis
      unfolding row(1) sum.case
      by (rule exI [of _ now], rule exI [of _ fresh], rule exI [of _ row]) (use j(2) row(2) in \<open>simp split: if_splits\<close>)
  qed
qed

lemma generate_quiet:
  fixes app :: "('s, 'n, 'd, 'r) app"
  assumes quiet: "quiet app" and ok: "db_ok (wd_db w)" and run: "generate app lower client u parts w = (r, w')"
  obtains (refused) e w1 where "admission app lower u parts w = (Inl e, w1)" and "r = Inl e" and "rest_kept (wd_db w) (aside w) w'"
  | (admitted) uid new w1 where "admission app lower u parts w = (Inr (uid, new), w1)" and "rest_kept (wd_db w) (aside w) w1"
      and "fst (local_user_id app u w) = Inr uid" and "new_user_id new = uid" and "submission app client (uid, new) w1 = (r, w')"
proof -
  have start: "rest_kept (wd_db w) (aside w) w" using ok by (simp add: rest_kept_def)
  obtain ra w1 where adm: "admission app lower u parts w = (ra, w1)" by fastforce
  have k1: "rest_kept (wd_db w) (aside w) w1" using keepsD' [OF keeps_admission [OF quiet] adm start] .
  show ?thesis
  proof (cases ra)
    case (Inl e)
    then show ?thesis using run adm k1 refused by (simp add: generate_parts attempt_def)
  next
    case (Inr ok)
    obtain uid new where un: "ok = (uid, new)" by (cases ok)
    have "fst (local_user_id app u w) = Inr uid" "new_user_id new = uid"
      using adm Inr un unfolding admission_def
      by (auto elim!: attempt_okE simp: of_result_def succeed_def split: option.splits sum.splits)
    then show ?thesis using run adm k1 Inr un admitted by (simp add: generate_parts attempt_def)
  qed
qed


text \<open>
  C2: asking for a generation creates one job of the caller or none. On an error nothing is created,
  whatever step failed. Otherwise exactly one row is added: it belongs to the local user of the
  session, carries the validated prompt, the medium asked for and only the parameters of that medium,
  and the hourly limit had not been reached; it is queued and its id waits for a worker, or, when the
  queue is full, it has failed with that reason and does not. The card shows that job and its status.
\<close>

theorem generate_creates_one_job:
  fixes app :: "('s, 'n, 'd, 'r) app"
  assumes quiet: "quiet app" and ok: "db_ok (wd_db w)" and run: "generate app lower client u parts w = (r, w')"
  shows "assets (wd_db w') = assets (wd_db w) \<and> wd_events w' = wd_events w \<and>
    (case r of
       Inl e \<Rightarrow> jobs (wd_db w') = jobs (wd_db w) \<and> wd_queue w' = wd_queue w
     | Inr shown \<Rightarrow> \<exists>row f path.
         jobs (wd_db w') = jobs (wd_db w) @ [row] \<and> j_id row \<notin> j_id ` set (jobs (wd_db w)) \<and>
         fst (local_user_id app u w) = Inr (j_user_id row) \<and> read_fields parts = Inr f \<and>
         gf_media_type f = Some (j_media_type row) \<and>
         validate_prompt (gf_prompt f) (cf_max_prompt_chars (ap_config app)) = Inr (j_prompt row) \<and>
         j_parameters row = generate_parameters f (j_media_type row) path \<and>
         within_limit (cf_rate_limit_per_hour (ap_config app)) (j_user_id row) (jobs (wd_db w)) \<and>
         shown = card_from_job (to_job row) None \<and>
         (if length (wd_queue w) < QUEUE_CAPACITY
          then row_status row = Queued \<and> wd_queue w' = wd_queue w @ [j_id row]
          else row_status row = Failed RateLimited ERR_QUEUE_FULL \<and> wd_queue w' = wd_queue w))"
proof (cases rule: generate_quiet [OF quiet ok run])
  case (1 e w1)
  then show ?thesis by (simp add: rest_kept_def aside_def)
next
  case (2 uid new w1)
  have start: "rest_kept (wd_db w) (aside w) w" using ok by (simp add: rest_kept_def)
  obtain f path where f: "read_fields parts = Inr f" "gf_media_type f = Some (new_media_type new)"
    "validate_prompt (gf_prompt f) (cf_max_prompt_chars (ap_config app)) = Inr (new_prompt new)"
    "within_limit (cf_rate_limit_per_hour (ap_config app)) uid (jobs (wd_db w))"
    "new_parameters new = generate_parameters f (new_media_type new) path"
    by (rule admissionD [OF quiet 2(1) start]) blast
  note sub = submission_quiet [OF quiet 2(2) [unfolded aside_def] 2(5)]
  show ?thesis
    using sub f 2(3,4)
    by (cases r; cases "length (wd_queue w) < QUEUE_CAPACITY") (auto simp: rest_kept_def aside_def intro!: exI [of _ path])
qed


definition sample_part :: "string \<Rightarrow> string \<Rightarrow> string + multipart_field" where
  "sample_part name v = Inr \<lparr>mf_name = Some name, mf_content_type = None, mf_file_name = None, mf_bytes = Inr v, mf_text = Inr v\<rparr>"

definition sample_form :: multipart where
  "sample_form = [sample_part ''prompt'' ''Hei'', sample_part ''media_type'' ''audio'', sample_part ''audio_voice'' ''alloy'']"

definition sample_session_user :: session_user where
  "sample_session_user = \<lparr>su_oid = ''a'', su_email = None, su_upn = None, su_display_name = ''Ola Nordmann'',
     su_roles = [''User''], su_groups = [], su_authenticated_at = 0\<rparr>"

lemma sample_fields:
  "read_fields sample_form = Inr (default_fields\<lparr>gf_prompt := ''Hei'', gf_media_type := Some Audio, gf_audio_voice := Some ''alloy''\<rparr>)"
  by (simp add: read_fields_def sample_form_def sample_part_def option_or_def read_text_def media_from_str_def ok_def)

lemma sample_limits:
  "cf_max_prompt_chars (ap_config sample_app) = 4000" "cf_rate_limit_per_hour (ap_config sample_app) = 20"
  "validate_prompt ''Hei'' 4000 = Inr ''Hei''"
proof -
  show "validate_prompt ''Hei'' 4000 = Inr ''Hei''" by code_simp
qed (simp_all add: sample_app_def sample_config_def)

lemma sample_local_user:
  "local_user_id sample_app sample_session_user (sample_world sample_db [USER_ID_KEY \<mapsto> UuidEntry 1]) =
     (Inr 1, sample_world sample_db [USER_ID_KEY \<mapsto> UuidEntry 1])"
  by (simp add: local_user_id_def action_defs world_defs sample_world_def session_defs memory_sessions_def)


lemma sample_admission:
  defines "w \<equiv> sample_world sample_db [USER_ID_KEY \<mapsto> UuidEntry 1]"
  shows "admission sample_app (\<lambda>s. s) sample_session_user sample_form w =
      (Inr (1, \<lparr>new_user_id = 1, new_media_type = Audio, new_prompt = ''Hei'', new_parameters = JObj [(''voice'', JStr ''alloy'')]\<rparr>),
       w\<lparr>wd_net := 1\<rparr>)"
proof -
  have check: "ratelimit_check sample_app 1 20 w = (Inr (), w\<lparr>wd_net := 1\<rparr>)"
    by (simp add: w_def ratelimit_check_def action_defs on_pool_def sample_world_def jobs_count_last_hour_def select_op_def)
      (simp add: sample_db_def sample_job_def)
  show ?thesis
    by (simp add: admission_def sample_fields sample_limits sample_local_user [folded w_def] check attempt_def of_result_def succeed_def
        store_reference_def default_fields_def generate_parameters_def json_of_option_def)
qed

lemma sample_generate:
  obtains shown w' where "generate sample_app (\<lambda>s. s) sample_client sample_session_user sample_form
       (sample_world sample_db [USER_ID_KEY \<mapsto> UuidEntry 1]) = (Inr shown, w')"
proof -
  let ?w1 = "(sample_world sample_db [USER_ID_KEY \<mapsto> UuidEntry 1])\<lparr>wd_net := 1\<rparr>"
  have made: "\<exists>shown w'. submission sample_app sample_client (1, \<lparr>new_user_id = 1, new_media_type = Audio, new_prompt = ''Hei'',
      new_parameters = JObj [(''voice'', JStr ''alloy'')]\<rparr>) ?w1 = (Inr shown, w')"
    by (simp add: submission_def action_defs on_pool_def sample_world_def jobs_create_def sample_db_def sample_job_def
        sample_user_def Let_def try_audit_def queue_or_fail_def enqueue_def QUEUE_CAPACITY_def split: prod.split sum.split)
  then show ?thesis using that sample_admission by (auto simp: generate_parts attempt_def)
qed

theorem generate_creates_one_job_witness:
  "let w' = snd (generate sample_app (\<lambda>s. s) sample_client sample_session_user sample_form
       (sample_world sample_db [USER_ID_KEY \<mapsto> UuidEntry 1]))
   in \<exists>row. jobs (wd_db w') = jobs sample_db @ [row] \<and> wd_queue w' = [j_id row] \<and> j_user_id row = 1 \<and>
        j_prompt row = ''Hei'' \<and> row_status row = Queued"
proof -
  let ?w = "sample_world sample_db [USER_ID_KEY \<mapsto> UuidEntry 1]"
  obtain shown w' where run: "generate sample_app (\<lambda>s. s) sample_client sample_session_user sample_form ?w = (Inr shown, w')"
    by (rule sample_generate)
  have w: "db_ok (wd_db ?w)" "wd_queue ?w = []" "wd_db ?w = sample_db" by (simp_all add: sample_world_def sample_db_ok)
  from generate_creates_one_job [OF sample_quiet w(1) run] show ?thesis
    by (auto simp: run w sample_fields sample_local_user sample_limits QUEUE_CAPACITY_def)
qed


section \<open>Following a job\<close>

lemma take_until_terminal_seen: "take_until_terminal True bs = ([], bs \<noteq> [])"
  by (cases bs) simp_all

lemma take_until_terminal_eq:
  "take_until_terminal False bs =
    (let running = takeWhile (\<lambda>b. \<not> is_terminal_str (jb_status b)) bs; rest = drop (length running) bs
     in (running @ take 1 rest, 1 < length rest))"
proof (induction bs)
  case (Cons b bs)
  then show ?case
    by (cases bs) (auto simp: take_until_terminal_seen Let_def split: prod.splits)
qed simp

lemma is_terminal_str_status [simp]: "is_terminal_str (status_as_str s) = is_terminal s"
  by (cases s) (simp_all add: is_terminal_str_def)

text \<open>The events of one job among everything a subscription delivers.\<close>

fun concerns :: "uuid \<Rightarrow> received \<Rightarrow> bool" where
  "concerns i (Event j s) = (j = i)"
| "concerns i (Lagged _) = False"

definition event_of :: "uuid \<times> job_status \<Rightarrow> received" where
  "event_of = (\<lambda>(i, s). Event i s)"

lemma updates_for_filter: "updates_for i m received = updates_for i m (filter (concerns i) received)"
  by (induction i m received rule: updates_for.induct) auto




text \<open>The stream of a job that has already ended stays open as well.\<close>

lemma ended_job_keeps_stream_open:
  "is_terminal (job_status j) \<Longrightarrow> filter (concerns (job_id j)) received = [] \<Longrightarrow>
   event_bodies j received = ([body_from_job j], False)"
  by (simp add: event_bodies_def take_until_terminal_eq body_from_job_def updates_for_filter [of _ _ received])


section \<open>What belongs to someone else\<close>

definition refused :: "('s, 'n, 'd, app_error, 'a) act \<Rightarrow> ('s, 'n, 'd) world \<Rightarrow> bool" where
  "refused m w \<longleftrightarrow> fst (m w) = Inl AppNotFound \<and> jobs (wd_db (snd (m w))) = jobs (wd_db w) \<and>
     assets (wd_db (snd (m w))) = assets (wd_db w) \<and> audit_log (wd_db (snd (m w))) = audit_log (wd_db w) \<and>
     aside (snd (m w)) = aside w"

lemma local_user_id_audit_log:
  "quiet app \<Longrightarrow> keeps (\<lambda>w. audit_log (wd_db w) = L) (local_user_id app u)"
  unfolding handler_helper_defs
  by (intro keeps_intros keeps_db_only [where P = "\<lambda>db. audit_log db = L"] keeps_quiet_pool [where P = "\<lambda>db. audit_log db = L"])
     (auto simp: keeps_def users_upsert_on_login_def Let_def split: option.split)

text \<open>An endpoint that first asks for the local user and then runs one statement that finds nothing.\<close>

lemma refused_after_user:
  fixes app :: "('s, 'n, 'd, 'r) app"
  assumes quiet: "quiet app" and ok: "db_ok (wd_db w)" and who: "local_user_id app u w = (Inr uid, w1)"
    and denied: "\<And>w2. db_ok (wd_db w2) \<Longrightarrow> jobs (wd_db w2) = jobs (wd_db w) \<Longrightarrow> assets (wd_db w2) = assets (wd_db w) \<Longrightarrow>
      fst (k uid w2) = Inl AppNotFound \<and> wd_db (snd (k uid w2)) = wd_db w2 \<and> aside (snd (k uid w2)) = aside w2"
  shows "refused (attempt (local_user_id app u) k) w"
proof -
  have "rest_kept (wd_db w) (aside w) w1"
    using keepsD' [OF keeps_rest_helpers(1) [OF quiet] who, of "wd_db w" "aside w"] ok by (simp add: rest_kept_def)
  moreover have "audit_log (wd_db w1) = audit_log (wd_db w)"
    using keepsD' [OF local_user_id_audit_log [OF quiet] who, of "audit_log (wd_db w)"] by simp
  ultimately show ?thesis
    using denied [of w1] who by (simp add: refused_def attempt_def rest_kept_def)
qed

lemma statement_denied:
  assumes "quiet app" and "\<And>now u. stmt now u (wd_db w) = (Inl StorageNotFound, wd_db w)"
  shows "\<exists>n. on_pool app stmt w = (Inl StorageNotFound, w\<lparr>wd_net := n\<rparr>)"
proof -
  obtain n now u where "on_pool app stmt w = (fst (stmt now u (wd_db w)), w\<lparr>wd_net := n, wd_db := snd (stmt now u (wd_db w))\<rparr>)"
    by (rule quiet_pool [OF assms(1)])
  with assms(2) show ?thesis by auto
qed


lemma refused_attempt: "refused m w \<Longrightarrow> refused (attempt m k) w"
  by (auto simp: refused_def attempt_def split: prod.split sum.split)

lemma job_owner_cong: "jobs db = jobs db' \<Longrightarrow> job_owner db i = job_owner db' i"
  by (simp add: job_owner_def)

lemma asset_owner_cong: "jobs db = jobs db' \<Longrightarrow> assets db = assets db' \<Longrightarrow> asset_owner db i = asset_owner db' i"
  by (auto simp: asset_owner_def job_owner_def split: option.split)

lemma attempt_succeed_right: "attempt m succeed = m"
  by (auto simp: attempt_def succeed_def fun_eq_iff split: prod.split sum.split)

lemma refused_statement:
  fixes app :: "('s, 'n, 'd, 'r) app"
  assumes quiet: "quiet app" and ok: "db_ok (wd_db w)" and who: "local_user_id app u w = (Inr uid, w1)"
    and denied: "\<And>db now fresh. db_ok db \<Longrightarrow> jobs db = jobs (wd_db w) \<Longrightarrow> assets db = assets (wd_db w) \<Longrightarrow>
      stmt now fresh db = (Inl StorageNotFound, db)"
    and h: "h uid = attempt (map_err app_storage_error (on_pool app stmt)) k"
  shows "refused (attempt (local_user_id app u) h) w"
proof (rule refused_after_user [OF quiet ok who])
  fix w2 :: "('s, 'n, 'd) world"
  assume w2: "db_ok (wd_db w2)" "jobs (wd_db w2) = jobs (wd_db w)" "assets (wd_db w2) = assets (wd_db w)"
  from statement_denied [OF quiet, of stmt w2] denied [OF w2]
  show "fst (h uid w2) = Inl AppNotFound \<and> wd_db (snd (h uid w2)) = wd_db w2 \<and> aside (snd (h uid w2)) = aside w2"
    by (auto simp: h attempt_def map_err_def app_storage_error_def aside_def)
qed

lemma load_own_job_refused:
  assumes "quiet app" and "db_ok (wd_db w)" and "local_user_id app u w = (Inr uid, w1)"
    and "job_owner (wd_db w) i \<noteq> Some uid"
  shows "refused (load_own_job app u i) w"
  unfolding load_own_job_def
  by (rule refused_statement [OF assms(1-3), where k = succeed and stmt = "\<lambda>_ _. jobs_by_id_for_user i uid"])
     (use assms(4) in \<open>simp_all add: attempt_succeed_right job_reads.denied job_owner_def\<close>)

lemma pool_delete_denied:
  assumes quiet: "quiet app" and ok: "db_ok (wd_db w)" and foreign: "job_owner (wd_db w) i \<noteq> Some uid"
  shows "\<exists>n. pool_delete_for_user app i uid w = (Inl StorageNotFound, w\<lparr>wd_net := n\<rparr>)"
proof -
  let ?mine = "\<lambda>r. j_id r = i \<and> j_user_id r = uid"
  have none: "filter ?mine (jobs (wd_db w)) = []" using foreign own_job_filter [OF ok] by simp
  obtain n1 paths where 1: "on_pool app (\<lambda>_ _. jobs_asset_paths i uid) w = (Inr paths, w\<lparr>wd_net := n1\<rparr>)"
    by (rule quiet_pool [OF quiet, of "\<lambda>_ _. jobs_asset_paths i uid" w]) (auto simp: jobs_asset_paths_def select_op_def)
  obtain n2 where 2: "on_pool app (\<lambda>_ _. jobs_delete_own i uid) (w\<lparr>wd_net := n1\<rparr>) = (Inr 0, w\<lparr>wd_net := n2\<rparr>)"
    by (rule quiet_pool [OF quiet, of "\<lambda>_ _. jobs_delete_own i uid" "w\<lparr>wd_net := n1\<rparr>"])
       (auto simp: jobs_delete_own_def Let_def none delete_jobs_none [OF ok none])
  from 1 2 show ?thesis by (auto simp: pool_delete_for_user_def attempt_def fail_def)
qed

lemma asset_link_refused:
  fixes app :: "('s, 'n, 'd, 'r) app"
  assumes quiet: "quiet app" and ok: "db_ok (wd_db w)" and who: "local_user_id app u w = (Inr uid, w1)"
    and foreign: "asset_owner (wd_db w) a \<noteq> Some uid"
  shows "refused (asset_link app client u a n) w"
  unfolding asset_link_def
proof (rule refused_statement [OF quiet ok who, where stmt = "\<lambda>_ _. assets_by_id_for_user a uid"])
  fix db assume db: "db_ok db" "jobs db = jobs (wd_db w)" "assets db = assets (wd_db w)"
  from foreign asset_owner_cong [OF db(2,3)] have "asset_owner db a \<noteq> Some uid" by simp
  then show "assets_by_id_for_user a uid db = (Inl StorageNotFound, db)" by (rule asset_reads.denied [OF db(1)])
qed (rule refl)

text \<open>
  C10: to a signed-in user what belongs to someone else does not exist. Every endpoint that names a
  job or an asset answers 404 for one that the user does not own, just as for one that is not there:
  the status, the card and the event stream of the job, its visibility, its deletion, and the link to
  the media. Jobs, assets, audit trail, queue and events stay as they were.
\<close>

theorem endpoints_hide_foreign_rows:
  fixes app :: "('s, 'n, 'd, 'r) app"
  assumes quiet: "quiet app" and ok: "db_ok (wd_db w)" and who: "local_user_id app u w = (Inr uid, w1)"
  shows "(job_owner (wd_db w) i \<noteq> Some uid \<longrightarrow>
      refused (job_status_handler app u i) w \<and> refused (job_card_handler app u i) w \<and> refused (job_events app u i) w \<and>
      refused (set_visibility app u i hidden) w \<and> refused (delete_job app client u i) w) \<and>
    (asset_owner (wd_db w) a \<noteq> Some uid \<longrightarrow> refused (asset_link app client u a n) w)"
proof (intro conjI impI)
  assume foreign: "job_owner (wd_db w) i \<noteq> Some uid"
  note load = load_own_job_refused [OF quiet ok who foreign]
  show "refused (job_status_handler app u i) w" "refused (job_card_handler app u i) w" "refused (job_events app u i) w"
    unfolding job_status_handler_def job_card_handler_def job_events_def by (rule refused_attempt [OF load])+
  show "refused (set_visibility app u i hidden) w"
    unfolding set_visibility_def
    by (rule refused_statement [OF quiet ok who, where k = succeed and stmt = "\<lambda>_ _. jobs_set_hidden i uid hidden"])
       (use foreign in \<open>simp_all add: attempt_succeed_right job_hides.denied job_owner_def\<close>)
  show "refused (delete_job app client u i) w"
    unfolding delete_job_def
  proof (rule refused_after_user [OF quiet ok who])
    fix w2 :: "('s, 'n, 'd) world"
    assume w2: "db_ok (wd_db w2)" "jobs (wd_db w2) = jobs (wd_db w)" "assets (wd_db w2) = assets (wd_db w)"
    from foreign job_owner_cong [OF w2(2)] have "job_owner (wd_db w2) i \<noteq> Some uid" by simp
    from pool_delete_denied [OF quiet w2(1) this]
    show "fst (attempt (map_err app_storage_error (pool_delete_for_user app i uid)) (\<lambda>paths. attempt (discard_files app paths) (\<lambda>_.
          try_audit app (job_audit GenerationDeleted ''job'' uid i client))) w2) = Inl AppNotFound \<and>
        wd_db (snd (attempt (map_err app_storage_error (pool_delete_for_user app i uid)) (\<lambda>paths. attempt (discard_files app paths) (\<lambda>_.
          try_audit app (job_audit GenerationDeleted ''job'' uid i client))) w2)) = wd_db w2 \<and>
        aside (snd (attempt (map_err app_storage_error (pool_delete_for_user app i uid)) (\<lambda>paths. attempt (discard_files app paths) (\<lambda>_.
          try_audit app (job_audit GenerationDeleted ''job'' uid i client))) w2)) = aside w2"
      by (auto simp: attempt_def map_err_def app_storage_error_def aside_def)
  qed
qed (rule asset_link_refused [OF quiet ok who])


theorem endpoints_hide_foreign_rows_witness:
  "let w = sample_world sample_db [USER_ID_KEY \<mapsto> UuidEntry 1]
   in fst (delete_job sample_app sample_client sample_session_user 12 w) = Inl AppNotFound \<and>
      fst (job_card_handler sample_app sample_session_user 99 w) = Inl AppNotFound \<and>
      fst (asset_link sample_app sample_client sample_session_user 22 None w) = Inl AppNotFound"
proof -
  let ?w = "sample_world sample_db [USER_ID_KEY \<mapsto> UuidEntry 1]"
  have ok: "db_ok (wd_db ?w)" by (simp add: sample_world_def sample_db_ok)
  have owners: "job_owner (wd_db ?w) 12 \<noteq> Some 1" "job_owner (wd_db ?w) 99 \<noteq> Some 1" "asset_owner (wd_db ?w) 22 \<noteq> Some 1"
    by (simp_all add: sample_world_def job_owner_def asset_owner_def sample_tables) (simp_all add: sample_defs row_by_def)
  note hidden = endpoints_hide_foreign_rows [OF sample_quiet ok sample_local_user]
  have "refused (delete_job sample_app sample_client sample_session_user 12) ?w"
    "refused (job_card_handler sample_app sample_session_user 99) ?w"
    "refused (asset_link sample_app sample_client sample_session_user 22 None) ?w"
    using hidden [where i = 12] hidden [where i = 99] hidden [where a = 22] owners by blast+
  then show ?thesis by (simp add: refused_def)
qed

end
