(* ===== verification/Router.thy ===== *)
theory Router
  imports Archive SignIn Api_Correct
begin

text \<open>
  The assembled application (\<open>lib.rs\<close>): the route tables of all modules, what each route runs, and
  the layers around them in their order.
\<close>

definition MAX_BODY_BYTES :: nat where "MAX_BODY_BYTES = 256 * 1024"
definition MAX_UPLOAD_BYTES :: nat where "MAX_UPLOAD_BYTES = 12 * 1024 * 1024"
definition REQUEST_TIMEOUT :: duration where "REQUEST_TIMEOUT = seconds 30"
definition ASSET_CACHE_CONTROL :: string where "ASSET_CACHE_CONTROL = ''public, max-age=3600''"

section \<open>Routes\<close>

text \<open>The endpoints, with the id segment of their path as it stands in the request.\<close>

datatype endpoint =
    Health | Ready | Login | Callback | Logout | Index | History | ArchivePage | Me | Generate
  | JobStatusOf string | JobCardOf string | JobEventsOf string | AssetOf string | VisibilityOf string | DeleteOf string

definition segments :: "string \<Rightarrow> string list" where
  "segments path = split_char CHR ''/'' path"

text \<open>The tables of the modules: for a path, the one method it takes and its endpoint.\<close>

definition health_routes :: "string list \<Rightarrow> (http_method \<times> endpoint) option" where
  "health_routes p = (if p = [[], ''health''] then Some (GET, Health) else if p = [[], ''ready''] then Some (GET, Ready) else None)"

definition auth_routes :: "string list \<Rightarrow> (http_method \<times> endpoint) option" where
  "auth_routes p = (if p = [[], ''auth'', ''login''] then Some (GET, Login)
     else if p = [[], ''auth'', ''callback''] then Some (GET, Callback)
     else if p = [[], ''auth'', ''logout''] then Some (POST, Logout) else None)"

definition page_routes :: "string list \<Rightarrow> (http_method \<times> endpoint) option" where
  "page_routes p = (if p = [[], []] then Some (GET, Index) else None)"

definition archive_routes :: "string list \<Rightarrow> (http_method \<times> endpoint) option" where
  "archive_routes p = (if p = [[], ''historikk''] then Some (GET, History)
     else if p = [[], ''eksempler''] then Some (GET, ArchivePage) else None)"

definition api_routes :: "string list \<Rightarrow> (http_method \<times> endpoint) option" where
  "api_routes p = (case p of
     [[], api, r] \<Rightarrow> if api \<noteq> ''api'' then None
       else if r = ''me'' then Some (GET, Me) else if r = ''generate'' then Some (POST, Generate) else None
   | [[], api, kind, i] \<Rightarrow> if api \<noteq> ''api'' \<or> i = [] then None
       else if kind = ''jobs'' then Some (GET, JobStatusOf i) else if kind = ''assets'' then Some (GET, AssetOf i) else None
   | [[], api, kind, i, action] \<Rightarrow> if api \<noteq> ''api'' \<or> i = [] \<or> kind \<noteq> ''jobs'' then None
       else if action = ''card'' then Some (GET, JobCardOf i) else if action = ''synlighet'' then Some (POST, VisibilityOf i)
       else if action = ''slett'' then Some (POST, DeleteOf i) else None
   | _ \<Rightarrow> None)"

definition stream_routes :: "string list \<Rightarrow> (http_method \<times> endpoint) option" where
  "stream_routes p = (case p of
     [[], api, kind, i, action] \<Rightarrow> if api = ''api'' \<and> kind = ''jobs'' \<and> i \<noteq> [] \<and> action = ''events''
       then Some (GET, JobEventsOf i) else None
   | _ \<Rightarrow> None)"

section \<open>What the framework does\<close>

text \<open>
  Arguments of the model: the extractors of the web framework, each of which reads its part of the
  request or refuses it with a response of its own; its answers to a wrong method, a missing
  extension and an event stream; the layers of the HTTP libraries; the template engine.
\<close>

record ('w, 'p) framework =
  fw_uuid :: "string \<Rightarrow> 'p outgoing + uuid"
  fw_login_query :: "incoming \<Rightarrow> 'p outgoing + string option"
  fw_callback_query :: "incoming \<Rightarrow> 'p outgoing + callback_query"
  fw_archive_query :: "incoming \<Rightarrow> 'p outgoing + archive_query"
  fw_asset_query :: "incoming \<Rightarrow> 'p outgoing + string option"
  fw_visibility_form :: "incoming \<Rightarrow> 'p outgoing + bool"
  fw_multipart :: "incoming \<Rightarrow> 'p outgoing + multipart"
  fw_method_not_allowed :: "'p outgoing"
  fw_missing_extension :: "'p outgoing"
  fw_sse :: "(received list \<Rightarrow> sse_event list \<times> bool) \<Rightarrow> 'p outgoing"
  fw_body_limit :: "nat \<Rightarrow> ('w, 'p) service \<Rightarrow> ('w, 'p) service"
  fw_timeout :: "duration \<Rightarrow> ('w, 'p) service \<Rightarrow> ('w, 'p) service"
  fw_session_layer :: "('w, 'p) service \<Rightarrow> ('w, 'p) service"
  fw_compression :: "('w, 'p) service \<Rightarrow> ('w, 'p) service"
  fw_cors :: "('w, 'p) service \<Rightarrow> ('w, 'p) service"
  fw_trace :: "('w, 'p) service \<Rightarrow> ('w, 'p) service"
  fw_static_files :: "string \<Rightarrow> ('w, 'p) service"
  fw_pages :: "'p page_lib"
  fw_render_archive :: "archive_template \<Rightarrow> string + 'p"
  fw_render_index :: "index_template \<Rightarrow> string + 'p"
  fw_render_card :: "job_card \<Rightarrow> string + 'p"
  fw_card_text :: "job_card \<Rightarrow> string + string"
  fw_text :: text_lib
  fw_version :: string

section \<open>What each route runs\<close>

definition extract_then :: "'p outgoing + 'a \<Rightarrow> ('a \<Rightarrow> 'w \<Rightarrow> 'p outgoing \<times> 'w) \<Rightarrow> 'w \<Rightarrow> 'p outgoing \<times> 'w" where
  "extract_then r k w = (case r of Inl refusal \<Rightarrow> (refusal, w) | Inr x \<Rightarrow> k x w)"

text \<open>The \<open>Session\<close> and \<open>Extension(user)\<close> arguments of a handler.\<close>

definition with_session :: "('w, 'p) framework \<Rightarrow> incoming \<Rightarrow> ('w \<Rightarrow> 'p outgoing \<times> 'w) \<Rightarrow> 'w \<Rightarrow> 'p outgoing \<times> 'w" where
  "with_session fw req k w = (if in_session req then k w else (fw_missing_extension fw, w))"

definition with_user :: "('w, 'p) framework \<Rightarrow> incoming \<Rightarrow> (session_user \<Rightarrow> 'w \<Rightarrow> 'p outgoing \<times> 'w) \<Rightarrow> 'w \<Rightarrow> 'p outgoing \<times> 'w" where
  "with_user fw req k w = (case in_user req of None \<Rightarrow> (fw_missing_extension fw, w) | Some u \<Rightarrow> k u w)"

definition with_both :: "('w, 'p) framework \<Rightarrow> incoming \<Rightarrow> (session_user \<Rightarrow> 'w \<Rightarrow> 'p outgoing \<times> 'w) \<Rightarrow> 'w \<Rightarrow> 'p outgoing \<times> 'w" where
  "with_both fw req k = with_session fw req (with_user fw req k)"

fun run_endpoint ::
  "('s, 'n, 'd, 'r) app \<Rightarrow> (('s, 'n, 'd) world, 'p) framework \<Rightarrow> endpoint \<Rightarrow> (('s, 'n, 'd) world, 'p) service" where
  "run_endpoint app fw Health req = (\<lambda>w. (health (fw_version fw), w))"
| "run_endpoint app fw Ready req = (\<lambda>w. (ready (fw_version fw), w))"
| "run_endpoint app fw Login req = with_session fw req (extract_then (fw_login_query fw req) (\<lambda>rt.
     respond (login app rt) (\<lambda>r. r)))"
| "run_endpoint app fw Callback req = with_session fw req (extract_then (fw_callback_query fw req) (\<lambda>q.
     respond (callback app (client_info_of (ap_ip_ok app) req) q) (\<lambda>r. r)))"
| "run_endpoint app fw Logout req = with_session fw req (respond (logout app (client_info_of (ap_ip_ok app) req)) (\<lambda>r. r))"
| "run_endpoint app fw Index req = with_both fw req (\<lambda>u.
     respond (index app (fw_text fw) (fw_card_text fw) u) (page_response (fw_render_index fw)))"
| "run_endpoint app fw History req = with_both fw req (\<lambda>u. extract_then (fw_archive_query fw req) (\<lambda>q.
     respond (history app (fw_text fw) u q) (page_response (fw_render_archive fw))))"
| "run_endpoint app fw ArchivePage req = with_both fw req (\<lambda>u. extract_then (fw_archive_query fw req) (\<lambda>q.
     respond (archive app (fw_text fw) u q) (page_response (fw_render_archive fw))))"
| "run_endpoint app fw Me req = with_user fw req (\<lambda>u w. (me (fw_text fw) u, w))"
| "run_endpoint app fw Generate req = with_both fw req (\<lambda>u. extract_then (fw_multipart fw req) (\<lambda>parts.
     respond (generate app (tl_lower (fw_text fw)) (client_info_of (ap_ip_ok app) req) u parts) (page_response (fw_render_card fw))))"
| "run_endpoint app fw (JobStatusOf s) req = with_both fw req (\<lambda>u. extract_then (fw_uuid fw s) (\<lambda>i.
     respond (job_status_handler app u i) (\<lambda>b. json_response 200 (job_body_json b))))"
| "run_endpoint app fw (JobCardOf s) req = with_both fw req (\<lambda>u. extract_then (fw_uuid fw s) (\<lambda>i.
     respond (job_card_handler app u i) (page_response (fw_render_card fw))))"
| "run_endpoint app fw (JobEventsOf s) req = with_both fw req (\<lambda>u. extract_then (fw_uuid fw s) (\<lambda>i.
     respond (job_events app u i) (fw_sse fw)))"
| "run_endpoint app fw (AssetOf s) req = with_both fw req (\<lambda>u. extract_then (fw_uuid fw s) (\<lambda>i.
     extract_then (fw_asset_query fw req) (\<lambda>nedlasting.
     respond (asset_link app (client_info_of (ap_ip_ok app) req) u i nedlasting) redirect_temporary)))"
| "run_endpoint app fw (VisibilityOf s) req = with_both fw req (\<lambda>u. extract_then (fw_uuid fw s) (\<lambda>i.
     extract_then (fw_visibility_form fw req) (\<lambda>hidden.
     respond (set_visibility app u i hidden) (\<lambda>_. no_content))))"
| "run_endpoint app fw (DeleteOf s) req = with_both fw req (\<lambda>u. extract_then (fw_uuid fw s) (\<lambda>i.
     respond (delete_job app (client_info_of (ap_ip_ok app) req) u i) (\<lambda>_. no_content)))"

text \<open>\<open>get(h)\<close> also answers \<open>HEAD\<close>; any other method of a known path is refused.\<close>

definition method_matches :: "http_method \<Rightarrow> http_method \<Rightarrow> bool" where
  "method_matches m asked \<longleftrightarrow> asked = m \<or> (m = GET \<and> asked = HEAD)"

definition serve ::
  "('s, 'n, 'd, 'r) app \<Rightarrow> (('s, 'n, 'd) world, 'p) framework \<Rightarrow> http_method \<times> endpoint \<Rightarrow> (('s, 'n, 'd) world, 'p) service" where
  "serve app fw = (\<lambda>(m, e) req. if method_matches m (in_method req) then run_endpoint app fw e req
     else (\<lambda>w. (fw_method_not_allowed fw, w)))"

section \<open>The stack\<close>

definition read_csrf :: "('s, 'n, 'd, 'r) app \<Rightarrow> ('s, 'n, 'd, session_failure, string option) act" where
  "read_csrf app = in_the_session (session_get (ap_sessions app) TOKEN_KEY as_text)"

definition open_route :: "(('s, 'n, 'd) world, 'p) framework \<Rightarrow> (('s, 'n, 'd) world, 'p) service \<Rightarrow> (('s, 'n, 'd) world, 'p) service" where
  "open_route fw s = fw_timeout fw REQUEST_TIMEOUT (fw_body_limit fw MAX_BODY_BYTES s)"

definition api_route ::
  "('s, 'n, 'd, 'r) app \<Rightarrow> (('s, 'n, 'd) world, 'p) framework \<Rightarrow> (('s, 'n, 'd) world, 'p) service \<Rightarrow> (('s, 'n, 'd) world, 'p) service" where
  "api_route app fw s = fw_timeout fw REQUEST_TIMEOUT (verify_token (read_csrf app) (fw_body_limit fw MAX_UPLOAD_BYTES s))"

definition protected ::
  "('s, 'n, 'd, 'r) app \<Rightarrow> (('s, 'n, 'd) world, 'p) service \<Rightarrow> (('s, 'n, 'd) world, 'p) service" where
  "protected app s = require_auth (the_current_user app) (require_role (ap_role_policy app) s)"

definition not_found :: "('w, 'p) service" where
  "not_found req w = (into_response AppNotFound, w)"

definition static_files :: "('s, 'n, 'd, 'r) app \<Rightarrow> (('s, 'n, 'd) world, 'p) framework \<Rightarrow> (('s, 'n, 'd) world, 'p) service" where
  "static_files app fw req w = (let (response, w') = fw_static_files fw (cf_assets_dir (ap_config app)) req w in
     (if header_get ''cache-control'' (out_headers response) = None
      then response\<lparr>out_headers := header_insert ''cache-control'' ASSET_CACHE_CONTROL (out_headers response)\<rparr>
      else response, w'))"

definition routes ::
  "('s, 'n, 'd, 'r) app \<Rightarrow> (('s, 'n, 'd) world, 'p) framework \<Rightarrow> (('s, 'n, 'd) world, 'p) service" where
  "routes app fw req = (let p = segments (uri_path (in_uri req)) in
     case health_routes p of Some r \<Rightarrow> open_route fw (serve app fw r) req | None \<Rightarrow>
     case auth_routes p of Some r \<Rightarrow> open_route fw (serve app fw r) req | None \<Rightarrow>
     case page_routes p of Some r \<Rightarrow> protected app (open_route fw (serve app fw r)) req | None \<Rightarrow>
     case archive_routes p of Some r \<Rightarrow> protected app (open_route fw (serve app fw r)) req | None \<Rightarrow>
     case api_routes p of Some r \<Rightarrow> protected app (api_route app fw (serve app fw r)) req | None \<Rightarrow>
     case stream_routes p of Some r \<Rightarrow> protected app (serve app fw r) req | None \<Rightarrow>
     if take 2 p = [[], ''assets''] then static_files app fw req else not_found req)"

definition optional_layer :: "(('w, 'p) service \<Rightarrow> ('w, 'p) service) option \<Rightarrow> ('w, 'p) service \<Rightarrow> ('w, 'p) service" where
  "optional_layer l s = (case l of None \<Rightarrow> s | Some f \<Rightarrow> f s)"

definition fresh_id :: "('s, 'n, 'd, 'r) app \<Rightarrow> ('s, 'n, 'd) world \<Rightarrow> uuid \<times> ('s, 'n, 'd) world" where
  "fresh_id app w = (let (u, n) = ap_fresh app (wd_net w) in (u, w\<lparr>wd_net := n\<rparr>))"

text \<open>
  Layers are added innermost first, so the last one of the source is the outermost here. The layer that
  marks headers as sensitive changes nothing but their debug output and is left out.
\<close>

definition build_router ::
  "('s, 'n, 'd, 'r) app \<Rightarrow> (('s, 'n, 'd) world, 'p) framework \<Rightarrow> (('s, 'n, 'd) world, 'p) service" where
  "build_router app fw =
     propagate (fresh_id app) (fw_trace fw
       (optional_layer (strict_transport_security (cf_app_env (ap_config app)))
         (frame_options (referrer_policy (no_sniff (content_security_policy
           (fw_cors fw (fw_compression fw (render_html_errors (fw_pages fw)
             (verify_origin (origin_from_base_url (cf_app_base_url (ap_config app)))
               (fw_session_layer fw (routes app fw))))))))))))"


section \<open>What services leave behind\<close>

text \<open>As \<open>keeps\<close> for actions: whatever the request and the answer, the state stays in \<open>I\<close>.\<close>

definition service_keeps :: "('w \<Rightarrow> bool) \<Rightarrow> ('w, 'p) service \<Rightarrow> bool" where
  "service_keeps I s \<longleftrightarrow> (\<forall>req w. I w \<longrightarrow> I (snd (s req w)))"

named_theorems service_intros \<open>rules for services that preserve an invariant\<close>

lemma service_keepsI: "(\<And>req w. I w \<Longrightarrow> I (snd (s req w))) \<Longrightarrow> service_keeps I s"
  by (simp add: service_keeps_def)

lemma service_keepsD: "service_keeps I s \<Longrightarrow> I w \<Longrightarrow> I (snd (s req w))"
  by (simp add: service_keeps_def)

lemma service_keeps_overriding [service_intros]: "service_keeps I s \<Longrightarrow> service_keeps I (overriding name v s)"
  by (simp add: service_keeps_def overriding_def split_def Let_def)

lemma service_keeps_headers [service_intros]:
  assumes "service_keeps I s"
  shows "service_keeps I (content_security_policy s)" "service_keeps I (no_sniff s)"
    "service_keeps I (referrer_policy s)" "service_keeps I (frame_options s)"
    "service_keeps I (optional_layer (strict_transport_security e) s)"
  using assms
  by (auto simp: content_security_policy_def no_sniff_def referrer_policy_def frame_options_def
      optional_layer_def strict_transport_security_def intro: service_intros)

lemma service_keeps_error_pages [service_intros]: "service_keeps I s \<Longrightarrow> service_keeps I (render_html_errors lib s)"
  by (simp add: service_keeps_def render_html_errors_def split_def Let_def)

lemma service_keeps_origin [service_intros]: "service_keeps I s \<Longrightarrow> service_keeps I (verify_origin expected s)"
  by (auto simp: service_keeps_def verify_origin_def split: option.split)

lemma service_keeps_token [service_intros]:
  assumes "keeps I read_token" and "service_keeps I s"
  shows "service_keeps I (verify_token read_token s)"
proof (rule service_keepsI)
  fix req w assume w: "I w"
  obtain r w' where read: "read_token w = (r, w')" by fastforce
  have w': "I w'" using keepsD' [OF assms(1) read w] .
  show "I (snd (verify_token read_token s req w))"
    using w w' service_keepsD [OF assms(2)] by (auto simp: verify_token_def read Let_def split: sum.split option.split)
qed

lemma service_keeps_auth [service_intros]:
  assumes "keeps I read_user" and "service_keeps I s"
  shows "service_keeps I (require_auth read_user s)"
proof (rule service_keepsI)
  fix req w assume w: "I w"
  obtain r w' where read: "read_user w = (r, w')" by fastforce
  have w': "I w'" using keepsD' [OF assms(1) read w] .
  show "I (snd (require_auth read_user s req w))"
    using w w' service_keepsD [OF assms(2)] by (auto simp: require_auth_def read split: sum.split option.split)
qed

lemma service_keeps_role [service_intros]: "service_keeps I s \<Longrightarrow> service_keeps I (require_role policy s)"
  by (auto simp: service_keeps_def require_role_def split: option.split)

lemma service_keeps_propagate [service_intros]:
  assumes "\<And>w. I w \<Longrightarrow> I (snd (fresh w))" and "service_keeps I s"
  shows "service_keeps I (propagate fresh s)"
proof (rule service_keepsI)
  fix req w assume w: "I w"
  have run: "I v \<Longrightarrow> I (snd (s r v))" for r v using assms(2) by (simp add: service_keeps_def)
  show "I (snd (propagate fresh s req w))"
    using w run assms(1) [OF w] by (simp add: propagate_def split_def Let_def split: option.split)
qed

lemma keeps_respond: "keeps I handler \<Longrightarrow> I w \<Longrightarrow> I (snd (respond handler show_it w))"
  unfolding keeps_def respond_def split_def by (simp split: sum.split)

text \<open>
  The framework touches the state only through what it wraps: the files it serves and the layers it
  provides preserve what their services preserve.
\<close>

definition framework_keeps :: "('w \<Rightarrow> bool) \<Rightarrow> ('w, 'p) framework \<Rightarrow> bool" where
  "framework_keeps I fw \<longleftrightarrow> (\<forall>dir. service_keeps I (fw_static_files fw dir)) \<and>
     (\<forall>s. service_keeps I s \<longrightarrow> (\<forall>n. service_keeps I (fw_body_limit fw n s)) \<and> (\<forall>d. service_keeps I (fw_timeout fw d s)) \<and>
        service_keeps I (fw_session_layer fw s) \<and> service_keeps I (fw_compression fw s) \<and>
        service_keeps I (fw_cors fw s) \<and> service_keeps I (fw_trace fw s))"

lemma framework_layers:
  assumes "framework_keeps I fw" and "service_keeps I s"
  shows "service_keeps I (fw_body_limit fw n s)" "service_keeps I (fw_timeout fw d s)"
    "service_keeps I (fw_session_layer fw s)" "service_keeps I (fw_compression fw s)"
    "service_keeps I (fw_cors fw s)" "service_keeps I (fw_trace fw s)"
  using assms by (simp_all add: framework_keeps_def)

lemma service_keeps_static: "framework_keeps I fw \<Longrightarrow> service_keeps I (static_files app fw)"
  by (simp add: framework_keeps_def service_keeps_def static_files_def split_def Let_def)

text \<open>An invariant of all handlers and of the two reads of the guards is one of the application.\<close>

lemma service_keeps_serve:
  fixes app :: "('s, 'n, 'd, 'r) app" and fw :: "(('s, 'n, 'd) world, 'p) framework"
  assumes "\<And>e. service_keeps I (run_endpoint app fw e)"
  shows "service_keeps I (serve app fw r)"
  using assms [of "snd r"] by (simp add: service_keeps_def serve_def split_def)

lemma service_keeps_routes:
  fixes app :: "('s, 'n, 'd, 'r) app" and fw :: "(('s, 'n, 'd) world, 'p) framework"
  assumes endpoints: "\<And>e. service_keeps I (run_endpoint app fw e)" and fw: "framework_keeps I fw"
    and reads: "keeps I (the_current_user app)" "keeps I (read_csrf app)"
  shows "service_keeps I (routes app fw)"
proof -
  note serve = service_keeps_serve [OF endpoints]
  have opened: "service_keeps I (open_route fw (serve app fw r))" for r
    unfolding open_route_def by (intro framework_layers [OF fw] serve)
  have guarded: "service_keeps I (protected app s)" if "service_keeps I s" for s :: "(('s, 'n, 'd) world, 'p) service"
    using that unfolding protected_def by (intro service_intros reads)
  have api: "service_keeps I (api_route app fw (serve app fw r))" for r
    unfolding api_route_def by (intro framework_layers [OF fw] service_keeps_token reads serve)
  show ?thesis
  proof (rule service_keepsI)
    fix req w assume w: "I w"
    show "I (snd (routes app fw req w))"
      unfolding routes_def Let_def
      using service_keepsD [OF opened w] service_keepsD [OF guarded [OF opened] w] service_keepsD [OF guarded [OF api] w]
        service_keepsD [OF guarded [OF serve] w] service_keepsD [OF service_keeps_static [OF fw, where app = app] w] w
      by (simp add: not_found_def split: option.split)
  qed
qed

lemma service_keeps_build_router:
  fixes app :: "('s, 'n, 'd, 'r) app" and fw :: "(('s, 'n, 'd) world, 'p) framework"
  assumes "\<And>e. service_keeps I (run_endpoint app fw e)" and fw: "framework_keeps I fw"
    and "keeps I (the_current_user app)" "keeps I (read_csrf app)" and "\<And>w. I w \<Longrightarrow> I (snd (fresh_id app w))"
  shows "service_keeps I (build_router app fw)"
  unfolding build_router_def using assms(5) by (intro service_intros framework_layers [OF fw] service_keeps_routes [OF assms(1-4)])

lemma keeps_reads [keeps_intros]:
  "keeps (from_db app db) (the_current_user app)" "keeps (from_db app db) (read_csrf app)"
  unfolding the_current_user_def read_csrf_def by (intro keeps_intros)+

lemma endpoint_stays_in_program:
  fixes app :: "('s, 'n, 'd, 'r) app"
  assumes "others_ok app"
  shows "service_keeps (from_db app db) (run_endpoint app fw e)"
proof (rule service_keepsI)
  fix req and w :: "('s, 'n, 'd) world" assume w: "from_db app db w"
  show "from_db app db (snd (run_endpoint app fw e req w))"
    using w
    by (cases e)
       (auto simp: with_both_def with_session_def with_user_def extract_then_def
         intro!: keeps_respond sign_in_stays_in_program pages_stay_in_program api_stays_in_program assms
         split: option.split sum.split)
qed

lemma application_stays_in_program:
  fixes app :: "('s, 'n, 'd, 'r) app"
  assumes "others_ok app" and fw: "framework_keeps (from_db app db) fw"
  shows "service_keeps (from_db app db) (build_router app fw)"
  by (rule service_keeps_build_router [OF endpoint_stays_in_program [OF assms(1)] fw keeps_reads])
     (simp add: fresh_id_def from_db_def split_def Let_def)

end
