(* ===== verification/Archive_Correct.thy ===== *)
theory Archive_Correct
  imports Archive Api_Correct
begin

text \<open>
  What the history and the archive may show, and what their links ask for.
\<close>

section \<open>The entries of a page\<close>

lemma map_err_okD: "map_err f m w = (Inr x, w') \<Longrightarrow> m w = (Inr x, w')"
  by (auto simp: map_err_def split: prod.splits sum.splits)

lemma quiet_read:
  assumes "quiet app" and "on_pool app stmt w = (r, w')" and "\<And>now u db. snd (stmt now u db) = db"
  obtains now u where "wd_db w' = wd_db w" and "r = fst (stmt now u (wd_db w))"
proof -
  obtain n now u where "on_pool app stmt w = (fst (stmt now u (wd_db w)), w\<lparr>wd_net := n, wd_db := snd (stmt now u (wd_db w))\<rparr>)"
    by (rule quiet_pool [OF assms(1)])
  with assms(2,3) that show ?thesis by auto
qed

lemma render_archiveE:
  fixes app :: "('s, 'n, 'd, 'r) app" and w w' :: "('s, 'n, 'd) world"
  assumes quiet: "quiet app" and run: "render_archive app uni u q title lead scope own succeeded w = (Inr page, w')"
  obtains uid w1 items where "local_user_id app u w = (Inr uid, w1)"
    and "jobs_list (archive_filter uid q own succeeded) uid (wd_db w1) = (Inr items, wd_db w1)"
    and "at_entries page = map (entry_from_item uni) items"
proof -
  from run obtain uid w1 n w2 items w3 where id: "local_user_id app u w = (Inr uid, w1)"
    and count: "on_pool app (\<lambda>_ _. jobs_count (archive_filter uid q own succeeded)) w1 = (Inr n, w2)"
    and list: "on_pool app (\<lambda>_ _. jobs_list (archive_filter uid q own succeeded) uid) w2 = (Inr items, w3)"
    and page: "at_entries page = map (entry_from_item uni) items"
    unfolding render_archive_def Let_def
    by (auto elim!: attempt_okE dest!: map_err_okD simp: succeed_def archive_page_def Let_def)
  have reads: "snd (jobs_count f db) = db" "snd (jobs_list f uid db) = db" for f db
    by (simp_all add: jobs_count_eq jobs_list_eq split: sum.split)
  obtain "wd_db w2 = wd_db w1" by (rule quiet_read [OF quiet count]) (simp_all add: reads)
  moreover obtain "wd_db w3 = wd_db w2" "Inr items = fst (jobs_list (archive_filter uid q own succeeded) uid (wd_db w2))"
    by (rule quiet_read [OF quiet list]) (simp_all add: reads)
  then have "jobs_list (archive_filter uid q own succeeded) uid (wd_db w2) = (Inr items, wd_db w2)"
    using reads(2) by (metis prod.collapse)
  ultimately show ?thesis using that id page by metis
qed

text \<open>A page of the listing, item by item.\<close>

lemma archive_item:
  assumes "jobs_list (archive_filter uid q own succeeded) uid db = (Inr items, db)" and "item \<in> set items"
  obtains j a where "j \<in> set (jobs db)" and "item_id item = j_id j" and "item_owned_by_viewer item = (j_user_id j = uid)"
    and "item_status item = row_status j" and "item_asset_id item = map_option a_id a"
    and "case a of None \<Rightarrow> True | Some a \<Rightarrow> a \<in> set (assets db) \<and> a_job_id a = j_id j"
    and "if own then j_user_id j = uid else \<not> j_hidden j" and "succeeded \<Longrightarrow> row_status j = Succeeded \<and> a \<noteq> None"
    and "query_media_type q \<in> {None, Some (j_media_type j)}" and "length items \<le> 24"
proof -
  let ?filt = "archive_filter uid q own succeeded"
  have pos: "0 \<le> page_limit ?filt" "0 \<le> page_offset ?filt"
    using assms(1) by (auto simp: jobs_list_eq limit_offset_def split: if_splits sum.splits)
  have items: "items = take (nat (page_limit ?filt)) (drop (nat (page_offset ?filt)) (listing ?filt uid db))"
    using assms(1) by (auto simp: jobs_list_page [OF pos])
  have "page_limit ?filt = 24" by (simp add: archive_filter_def PAGE_SIZE_def)
  with items have len: "length items \<le> 24" by simp
  from items assms(2) have "item \<in> set (listing ?filt uid db)" by (meson in_set_dropD in_set_takeD)
  then obtain j u a where r: "j \<in> set (jobs db)" "u \<in> set (users db)" "u_id u = j_user_id j"
    "case a of None \<Rightarrow> True | Some a \<Rightarrow> a \<in> set (assets db) \<and> a_job_id a = j_id j"
    "list_matches ?filt (j, a)" "item = to_list_item uid (j, u, a)" by (rule listing_item) blast
  have fields: "item_id item = j_id j" "item_owned_by_viewer item = (j_user_id j = uid)" "item_status item = row_status j"
    "item_asset_id item = map_option a_id a" by (simp_all add: r(6) to_list_item_def row_status_def)
  have "if own then j_user_id j = uid else \<not> j_hidden j" "succeeded \<Longrightarrow> row_status j = Succeeded \<and> a \<noteq> None"
    "query_media_type q \<in> {None, Some (j_media_type j)}"
    using r(5) by (auto simp: archive_filter_def list_matches_def row_status_def from_columns_def split: option.splits)
  with that r fields len show ?thesis by blast
qed



definition sample_text :: text_lib where
  "sample_text = \<lparr>tl_alphabetic = (\<lambda>_. True), tl_upper = (\<lambda>s. s), tl_lower = (\<lambda>s. s),
     tl_civil = (\<lambda>_. \<lparr>c_year = 2025, c_month = 1, c_day = 2, c_hour = 0, c_minute = 0, c_second = 0\<rparr>)\<rparr>"

definition sample_query :: archive_query where
  "sample_query = \<lparr>aq_eier = Some ''alle'', aq_type = None, aq_sortering = None, aq_side = None\<rparr>"

lemma sample_archive_filter:
  "archive_filter 1 sample_query False True = \<lparr>filter_user_id = None, filter_media_type = None, exclude_hidden = True,
     only_succeeded = True, newest_first = True, page_limit = 24, page_offset = 0\<rparr>"
  by (simp add: archive_filter_def sample_query_def query_media_type_def query_newest_first_def query_page_def option_or_def
      PAGE_SIZE_def)

lemma sample_archive_items: "map item_id (listing (archive_filter 1 sample_query False True) 1 sample_db) = [11]"
  unfolding sample_archive_filter by code_simp

lemma sample_archive:
  obtains page w' where "archive sample_app sample_text sample_session_user sample_query
      (sample_world sample_db [USER_ID_KEY \<mapsto> UuidEntry 1]) = (Inr page, w')" and "length (at_entries page) = 1"
proof -
  let ?w = "sample_world sample_db [USER_ID_KEY \<mapsto> UuidEntry 1]"
  let ?filt = "archive_filter 1 sample_query False True"
  obtain item where l: "listing ?filt 1 sample_db = [item]" using sample_archive_items by (auto simp: map_eq_Cons_conv)
  have count: "jobs_count ?filt sample_db = (Inr 1, sample_db)" using listing_length [OF sample_db_ok, of ?filt 1] l by simp
  have list: "jobs_list ?filt 1 sample_db = (Inr [item], sample_db)"
    by (subst jobs_list_page) (simp_all add: l, simp_all add: sample_archive_filter)
  have own: "own_only sample_query = False" by (simp add: own_only_def sample_query_def)
  have c: "on_pool sample_app (\<lambda>_ _. jobs_count ?filt) ?w = (Inr 1, ?w\<lparr>wd_net := Suc 0\<rparr>)"
    by (simp add: on_pool_def sample_world_def count)
  have i: "on_pool sample_app (\<lambda>_ _. jobs_list ?filt 1) (?w\<lparr>wd_net := Suc 0\<rparr>) = (Inr [item], ?w\<lparr>wd_net := 2\<rparr>)"
    by (simp add: on_pool_def sample_world_def list)
  obtain token w3 where k: "page_csrf_token sample_app (?w\<lparr>wd_net := 2\<rparr>) = (Inr token, w3)"
    by (simp add: page_csrf_token_def map_err_def focus_def csrf_token_def session_get_def memory_sessions_def sample_world_def
        TOKEN_KEY_def USER_ID_KEY_def attempt_def decode_entry_def succeed_def)
  have "\<exists>page w'. archive sample_app sample_text sample_session_user sample_query ?w = (Inr page, w') \<and> length (at_entries page) = 1"
    by (simp add: archive_def own render_archive_def sample_local_user attempt_def map_err_def c i k succeed_def Let_def)
       (simp add: archive_page_def Let_def)
  then show ?thesis using that by blast
qed


section \<open>What a card of someone else leads to\<close>

text \<open>
  The archive of everyone shows the media of others, but the link of such an entry is answered 404:
  only the owner of the job is given a read link.
\<close>

lemma shared_entry_opens_only_for_owner:
  fixes app :: "('s, 'n, 'd, 'r) app"
  assumes quiet: "quiet app" and ok: "db_ok (wd_db w)" and who: "local_user_id app u w = (Inr uid, w1)"
    and a: "a \<in> set (assets (wd_db w))" and j: "j \<in> set (jobs (wd_db w))" "a_job_id a = j_id j" "j_user_id j \<noteq> uid"
  shows "refused (asset_link app client u (a_id a) n) w"
proof (rule asset_link_refused [OF quiet ok who])
  show "asset_owner (wd_db w) (a_id a) \<noteq> Some uid"
    using row_by_key [OF db_okD(4) [OF ok] a] row_by_key [OF db_okD(3) [OF ok] j(1)] j(2,3)
    by (simp add: asset_owner_def job_owner_def)
qed

section \<open>The links of a page\<close>

text \<open>What the extractor reads from the pairs of a query.\<close>

definition read_pairs :: "(string \<times> string) list \<Rightarrow> (string \<Rightarrow> (64 word) option) \<Rightarrow> archive_query" where
  "read_pairs ps number = \<lparr>aq_eier = map_of ps ''eier'', aq_type = map_of ps ''type'',
     aq_sortering = map_of ps ''sortering'', aq_side = Option.bind (map_of ps ''side'') number\<rparr>"

lemma archive_encode_eq [simp]: "archive_encode s = percent_encoded s"
  by (auto simp: archive_encode_def percent_encoded_def unreserved_def ascii_alphanumeric_def ascii_digit_def ascii_alpha_def
      intro!: arg_cong [where f = concat] map_cong)

lemma query_with_reads_back: "parse_query (drop 1 (query_with q key v)) = map Some (query_parts q key v)"
proof -
  have "list_all (\<lambda>(k, v). CHR 0x3D \<notin> set k \<and> CHR 0x26 \<notin> set k) (query_parts q key v)"
    by (simp add: query_parts_def Let_def)
  then have "parse_query (join ''&'' (map (\<lambda>(name, value). name @ ''='' @ percent_encoded value) (query_parts q key v))) =
      map Some (query_parts q key v)"
    by (intro parse_encoded_query) (simp_all add: list_all_iff query_parts_def Let_def)
  then show ?thesis by (simp add: query_with_def)
qed

lemma links_keep_filters:
  assumes "key \<in> {''eier'', ''type'', ''sortering'', ''side''}" and q': "q' = read_pairs (query_parts q key v) number"
  shows "own_only q' = (if key = ''eier'' then v \<noteq> ''alle'' else own_only q)"
    and "key \<noteq> ''type'' \<Longrightarrow> query_media_type q' = query_media_type q"
    and "query_newest_first q' = (if key = ''sortering'' then v \<noteq> ''eldst'' else query_newest_first q)"
    and "aq_side q' = (if key = ''side'' then number v else None)"
  using assms(1)
  by (auto simp: q' read_pairs_def query_parts_def Let_def own_only_def query_media_type_def query_newest_first_def option_or_def
      split: option.split)

end
