(* ===== verification/Isolation.thy ===== *)
theory Isolation
  imports Router Archive_Correct
begin

text \<open>
  Which requests can change the jobs table at all, and whose rows they can change: the guards of the
  stack and the owner checks of the statements together.
\<close>

section \<open>Requests that leave the jobs as they are\<close>

definition jobs_kept :: "job_row list \<Rightarrow> ('s, 'n, 'd) world \<Rightarrow> bool" where
  "jobs_kept J w \<longleftrightarrow> jobs (wd_db w) = J"

named_theorems leaves_jobs \<open>statements that do not change the jobs table\<close>

lemma leaves_jobs_reads [leaves_jobs]:
  "jobs (snd (jobs_by_id_for_user i uid db)) = jobs db" "jobs (snd (jobs_active_for_user uid db)) = jobs db"
  "jobs (snd (jobs_count_last_hour now uid db)) = jobs db" "jobs (snd (jobs_list filt uid db)) = jobs db"
  "jobs (snd (jobs_count filt db)) = jobs db" "jobs (snd (jobs_asset_paths i uid db)) = jobs db"
  "jobs (snd (assets_for_job i db)) = jobs db" "jobs (snd (assets_by_id_for_user a uid db)) = jobs db"
  by (simp_all add: jobs_by_id_for_user_def jobs_active_for_user_def jobs_count_last_hour_def jobs_list_def jobs_count_def
      jobs_asset_paths_def assets_for_job_def assets_by_id_for_user_def split: prod.split)

lemma leaves_jobs_writes [leaves_jobs]:
  "jobs (snd (users_upsert_on_login now u oid email name db)) = jobs db"
  "jobs (snd (audit_record inet_ok now entry db)) = jobs db"
  by (auto simp: users_upsert_on_login_def audit_record_def Let_def split: option.split)

lemma keeps_jobs_pool:
  fixes app :: "('s, 'n, 'd, 'r) app"
  assumes "quiet app" and "\<And>now u db. jobs (snd (stmt now u db)) = jobs db"
  shows "keeps (jobs_kept J) (on_pool app stmt)"
proof (rule keepsI)
  fix w :: "('s, 'n, 'd) world" assume w: "jobs_kept J w"
  obtain n now u where "on_pool app stmt w = (fst (stmt now u (wd_db w)), w\<lparr>wd_net := n, wd_db := snd (stmt now u (wd_db w))\<rparr>)"
    by (rule quiet_pool [OF assms(1)])
  with w assms(2) show "jobs_kept J (snd (on_pool app stmt w))" by (simp add: jobs_kept_def)
qed

lemma keeps_jobs_elsewhere [keeps_intros]:
  "keeps (jobs_kept J) (in_the_net m)" "keeps (jobs_kept J) (in_the_session m')" "keeps (jobs_kept J) (new_v4 app)"
  "keeps (jobs_kept J) (with_key m'')" "keeps (jobs_kept J) (with_metadata m3)" "keeps (jobs_kept J) (now_utc app)"
  "keeps (jobs_kept J) (page_csrf_token app)" "keeps (jobs_kept J) (enqueue i)"
  by (auto simp: keeps_def jobs_kept_def world_defs page_csrf_token_def map_err_def enqueue_def split: prod.splits sum.splits)

lemma keeps_jobs_users [keeps_intros]:
  assumes "quiet app"
  shows "keeps (jobs_kept J) (local_user_id app u)" "keeps (jobs_kept J) (try_audit app entry)"
    "keeps (jobs_kept J) (upsert_user app u)" "keeps (jobs_kept J) (ratelimit_remaining app uid n)"
    "keeps (jobs_kept J) (the_current_user app)" "keeps (jobs_kept J) (read_csrf app)"
  unfolding handler_helper_defs the_current_user_def read_csrf_def Let_def
  by (intro keeps_intros keeps_jobs_pool assms leaves_jobs)+

lemma keeps_jobs_sign_in:
  assumes "quiet app"
  shows "keeps (jobs_kept J) (login app rt)" "keeps (jobs_kept J) (callback app client query)"
    "keeps (jobs_kept J) (logout app client)"
  unfolding login_def callback_def logout_def establish_def record_sign_in_def record_sign_out_def record_audit_def remember_def Let_def
  by (intro keeps_intros assms)+

lemma keeps_jobs_pages:
  assumes "quiet app"
  shows "keeps (jobs_kept J) (index app uni render_card u)" "keeps (jobs_kept J) (history app uni u q)"
    "keeps (jobs_kept J) (archive app uni u q)"
  unfolding index_def history_def archive_def render_archive_def active_job_card_def card_for_def rate_limit_hint_def
    recent_generations_def Let_def
  by (intro keeps_intros keeps_jobs_pool assms leaves_jobs)+

lemma keeps_jobs_reading:
  assumes "quiet app"
  shows "keeps (jobs_kept J) (job_status_handler app u i)" "keeps (jobs_kept J) (job_card_handler app u i)"
    "keeps (jobs_kept J) (job_events app u i)" "keeps (jobs_kept J) (asset_link app client u i n)"
  unfolding job_status_handler_def job_card_handler_def job_events_def asset_link_def load_own_job_def card_for_def the_read_url_def
  by (intro keeps_intros keeps_jobs_pool assms leaves_jobs)+


section \<open>Only three endpoints change jobs\<close>

definition changing :: "endpoint \<Rightarrow> bool" where
  "changing e = (case e of Generate \<Rightarrow> True | VisibilityOf _ \<Rightarrow> True | DeleteOf _ \<Rightarrow> True | _ \<Rightarrow> False)"

lemma endpoint_keeps_jobs:
  fixes app :: "('s, 'n, 'd, 'r) app"
  assumes "quiet app" and "\<not> changing e"
  shows "service_keeps (jobs_kept J) (run_endpoint app fw e)"
proof (rule service_keepsI)
  fix req and w :: "('s, 'n, 'd) world" assume w: "jobs_kept J w"
  show "jobs_kept J (snd (run_endpoint app fw e req w))"
    using w assms(2)
    by (cases e)
       (auto simp: changing_def with_both_def with_session_def with_user_def extract_then_def
         intro!: keeps_respond keeps_jobs_sign_in keeps_jobs_pages keeps_jobs_reading assms(1)
         split: option.split sum.split)
qed

lemma serve_keeps_jobs:
  fixes app :: "('s, 'n, 'd, 'r) app"
  assumes "quiet app" and "\<not> changing (snd r)"
  shows "service_keeps (jobs_kept J) (serve app fw r)"
proof (rule service_keepsI)
  fix req and w :: "('s, 'n, 'd) world" assume w: "jobs_kept J w"
  show "jobs_kept J (snd (serve app fw r req w))"
    using service_keepsD [OF endpoint_keeps_jobs [OF assms, of J fw] w, of req] w by (simp add: serve_def split_def)
qed

lemma changing_routes:
  "health_routes p = Some r \<Longrightarrow> \<not> changing (snd r)" "auth_routes p = Some r \<Longrightarrow> \<not> changing (snd r)"
  "page_routes p = Some r \<Longrightarrow> \<not> changing (snd r)" "archive_routes p = Some r \<Longrightarrow> \<not> changing (snd r)"
  "stream_routes p = Some r \<Longrightarrow> \<not> changing (snd r)" "api_routes p = Some r \<Longrightarrow> changing (snd r) \<Longrightarrow> fst r = POST"
  by (auto simp: health_routes_def auth_routes_def page_routes_def archive_routes_def stream_routes_def api_routes_def
      changing_def split: if_splits list.splits)

text \<open>A layer that either answers by itself or passes the request on as it is, once.\<close>

definition passes_on :: "(('w, 'p) service \<Rightarrow> ('w, 'p) service) \<Rightarrow> bool" where
  "passes_on T \<longleftrightarrow> (\<forall>s req w. snd (T s req w) = w \<or> snd (T s req w) = snd (s req w))"

lemma passes_on_keeps: "passes_on T \<Longrightarrow> service_keeps I s \<Longrightarrow> service_keeps I (T s)"
  unfolding passes_on_def service_keeps_def by metis

section \<open>What the three change\<close>

definition of_others :: "uuid \<Rightarrow> database \<Rightarrow> job_row list" where
  "of_others uid db = filter (\<lambda>r. j_user_id r \<noteq> uid) (jobs db)"

lemma of_others_set_hidden: "of_others uid (snd (jobs_set_hidden i uid hidden db)) = of_others uid db"
proof -
  have "filter (\<lambda>r. j_user_id r \<noteq> uid) (update_where (\<lambda>r. j_id r = i \<and> j_user_id r = uid) (\<lambda>r. r\<lparr>j_hidden := hidden\<rparr>) rows) =
      filter (\<lambda>r. j_user_id r \<noteq> uid) rows" for rows
    by (induction rows) (auto simp: update_where_def)
  then show ?thesis
    by (auto simp: jobs_set_hidden_def update_jobs_def Let_def of_others_def split: prod.splits sum.splits if_splits)
qed

lemma of_others_delete_own: "of_others uid (snd (jobs_delete_own i uid db)) = of_others uid db"
  by (auto simp: jobs_delete_own_def delete_jobs_def Let_def of_others_def intro: filter_cong)

lemma keeps_others_pool:
  fixes app :: "('s, 'n, 'd, 'r) app"
  assumes "quiet app" and "\<And>now u db. of_others uid (snd (stmt now u db)) = of_others uid db"
  shows "keeps (\<lambda>w. of_others uid (wd_db w) = J) (on_pool app stmt)"
  using keeps_quiet_pool [OF assms(1), where P = "\<lambda>db. of_others uid db = J" and stmt = stmt] assms(2)
  by (simp add: keeps_def)

lemma keeps_jobs_others: "keeps (jobs_kept J) m \<Longrightarrow> m w = (r, w') \<Longrightarrow> jobs (wd_db w) = J \<Longrightarrow> of_others uid (wd_db w') = of_others uid (wd_db w)"
  using keepsD' [of "jobs_kept J" m w r w'] by (simp add: jobs_kept_def of_others_def)

lemma keeps_others_tail:
  fixes app :: "('s, 'n, 'd, 'r) app"
  assumes "quiet app"
  shows "keeps (\<lambda>w. of_others uid (wd_db w) = J) (map_err app_storage_error (on_pool app (\<lambda>_ _. jobs_set_hidden i uid hidden)))"
    and "keeps (\<lambda>w. of_others uid (wd_db w) = J) (pool_delete_for_user app i uid)"
    and "keeps (\<lambda>w. of_others uid (wd_db w) = J) (discard_files app paths)"
    and "keeps (\<lambda>w. of_others uid (wd_db w) = J) (try_audit app entry)"
proof -
  let ?I = "\<lambda>w :: ('s, 'n, 'd) world. of_others uid (wd_db w) = J"
  show "keeps ?I (map_err app_storage_error (on_pool app (\<lambda>_ _. jobs_set_hidden i uid hidden)))"
    by (intro keeps_intros keeps_others_pool assms of_others_set_hidden)
  show "keeps ?I (pool_delete_for_user app i uid)"
    unfolding pool_delete_for_user_def
    by (intro keeps_intros keeps_others_pool assms of_others_delete_own) (simp add: of_others_def leaves_jobs)
  show "keeps ?I (discard_files app paths)"
    by (induction paths) (auto simp: delete_file_def intro!: keeps_intros keeps_db_only [where P = "\<lambda>db. of_others uid db = J"])
  show "keeps ?I (try_audit app entry)"
    unfolding try_audit_def by (intro keeps_intros keeps_others_pool assms) (simp add: of_others_def leaves_jobs)
qed


text \<open>After an action of user \<open>u\<close> the rows of everyone but its local user are what they were.\<close>

definition own_jobs_only ::
  "('s, 'n, 'd, 'r) app \<Rightarrow> session_user \<Rightarrow> ('s, 'n, 'd) world \<Rightarrow> ('s, 'n, 'd) world \<Rightarrow> bool" where
  "own_jobs_only app u w w' \<longleftrightarrow> jobs (wd_db w') = jobs (wd_db w) \<or>
     (\<exists>uid. fst (local_user_id app u w) = Inr uid \<and> of_others uid (wd_db w') = of_others uid (wd_db w))"

lemma identified_own_jobs_only:
  fixes app :: "('s, 'n, 'd, 'r) app" and w :: "('s, 'n, 'd) world"
  assumes quiet: "quiet app" and tail: "\<And>uid J. keeps (\<lambda>w. of_others uid (wd_db w) = J) (k uid)"
    and run: "attempt (local_user_id app u) k w = (r, w')"
  shows "own_jobs_only app u w w'"
proof -
  obtain ri w1 where id: "local_user_id app u w = (ri, w1)" by fastforce
  have J: "jobs (wd_db w1) = jobs (wd_db w)"
    using keepsD' [OF keeps_jobs_users(1) [OF quiet] id, of "jobs (wd_db w)"] by (simp add: jobs_kept_def)
  show ?thesis
  proof (cases ri)
    case (Inl e)
    then show ?thesis using run id J by (simp add: attempt_def own_jobs_only_def)
  next
    case (Inr uid)
    then have "k uid w1 = (r, w')" using run id by (simp add: attempt_def)
    then have "of_others uid (wd_db w') = of_others uid (wd_db w)"
      using keepsD' [OF tail, of uid w1 r w' "of_others uid (wd_db w1)"] J by (simp add: of_others_def)
    then show ?thesis using id Inr by (auto simp: own_jobs_only_def)
  qed
qed

lemma changing_handlers_own_jobs_only:
  fixes app :: "('s, 'n, 'd, 'r) app" and w :: "('s, 'n, 'd) world"
  assumes "quiet app"
  shows "set_visibility app u i hidden w = (rv, w') \<Longrightarrow> own_jobs_only app u w w'"
    and "delete_job app client u i w = (rd, w') \<Longrightarrow> own_jobs_only app u w w'"
  unfolding set_visibility_def delete_job_def
  by (erule identified_own_jobs_only [OF assms, rotated], intro keeps_intros keeps_others_tail assms)+

lemma generate_own_jobs_only:
  fixes app :: "('s, 'n, 'd, 'r) app" and w :: "('s, 'n, 'd) world"
  assumes quiet: "quiet app" and ok: "db_ok (wd_db w)" and run: "generate app lower client u parts w = (r, w')"
  shows "own_jobs_only app u w w'"
proof (cases rule: generate_quiet [OF quiet ok run])
  case (1 e w1)
  then show ?thesis by (simp add: rest_kept_def own_jobs_only_def)
next
  case (2 uid new w1)
  note sub = submission_quiet [OF quiet 2(2) [unfolded aside_def] 2(5)]
  have "of_others uid (wd_db w') = of_others uid (wd_db w)"
  proof (cases r)
    case (Inl e)
    then show ?thesis using sub by (simp add: rest_kept_def of_others_def)
  next
    case (Inr shown)
    have mine: "j_user_id (finished_row t st (queued_row now fresh new)) = uid" for t st now fresh
      using 2(4) by simp
    obtain row x where "j_user_id row = uid" "rest_kept ((wd_db w)\<lparr>jobs := jobs (wd_db w) @ [row]\<rparr>) x w'"
      using sub 2(4) mine unfolding Inr sum.case by (metis queued_row_simps(2))
    then show ?thesis by (simp add: rest_kept_def of_others_def)
  qed
  then show ?thesis using 2(3) by (auto simp: own_jobs_only_def)
qed

lemma own_jobs_only_refl [simp]: "own_jobs_only app u w w"
  by (simp add: own_jobs_only_def)

lemma respond_own_jobs_only:
  assumes "\<And>r w'. handler w = (r, w') \<Longrightarrow> own_jobs_only app u w w'"
  shows "own_jobs_only app u w (snd (respond handler show_it w))"
  using assms [of "fst (handler w)" "snd (handler w)"] by (simp add: respond_def split_def split: sum.split)

lemma endpoint_own_jobs_only:
  fixes app :: "('s, 'n, 'd, 'r) app" and w :: "('s, 'n, 'd) world"
  assumes "quiet app" and "db_ok (wd_db w)" and "changing e" and "in_user req = Some u"
  shows "own_jobs_only app u w (snd (run_endpoint app fw e req w))"
  using assms(3,4)
  by (cases e)
     (auto simp: changing_def with_both_def with_session_def with_user_def extract_then_def
       intro!: respond_own_jobs_only intro: generate_own_jobs_only [OF assms(1,2)] changing_handlers_own_jobs_only [OF assms(1)]
       split: sum.split)


section \<open>Who gets in\<close>

lemma protectedE:
  assumes "protected app s req w = (out, w')"
  obtains (denied) "out \<in> {unauthenticated (in_uri req) (in_headers req), forbidden (in_uri req) (in_headers req), internal_error}"
      and "w' = w \<or> w' = snd (the_current_user app w)" and "\<And>s'. protected app s' req w = (out, w')"
      and "\<not> (in_session req \<and> (\<exists>u w1. the_current_user app w = (Inr (Some u), w1) \<and> permits (ap_role_policy app) u))"
  | (passed) u w1 where "in_session req" and "the_current_user app w = (Inr (Some u), w1)"
      and "permits (ap_role_policy app) u" and "s (req\<lparr>in_user := Some u\<rparr>) w1 = (out, w')"
proof -
  have "(\<exists>u w1. in_session req \<and> the_current_user app w = (Inr (Some u), w1) \<and> permits (ap_role_policy app) u \<and>
        s (req\<lparr>in_user := Some u\<rparr>) w1 = (out, w')) \<or>
      (out \<in> {unauthenticated (in_uri req) (in_headers req), forbidden (in_uri req) (in_headers req), internal_error} \<and>
       (w' = w \<or> w' = snd (the_current_user app w)) \<and> (\<forall>s'. protected app s' req w = (out, w')) \<and>
       \<not> (in_session req \<and> (\<exists>u w1. the_current_user app w = (Inr (Some u), w1) \<and> permits (ap_role_policy app) u)))"
    using assms
    by (auto simp: protected_def require_auth_def require_role_def permits_def
        split: if_splits prod.splits sum.splits option.splits)
  then show ?thesis using denied passed by blast
qed

lemma the_current_user_only_session: "snd (the_current_user app w) = w\<lparr>wd_session := wd_session (snd (the_current_user app w))\<rparr>"
  by (simp add: the_current_user_def world_defs split: prod.split)

lemma the_current_user_db [simp]: "wd_db (snd (the_current_user app w)) = wd_db w"
  by (simp add: the_current_user_def world_defs split: prod.split)

definition needs_sign_in :: "string list \<Rightarrow> bool" where
  "needs_sign_in p \<longleftrightarrow> page_routes p \<noteq> None \<or> archive_routes p \<noteq> None \<or> api_routes p \<noteq> None \<or> stream_routes p \<noteq> None"

lemma public_routes:
  "health_routes p = Some r \<Longrightarrow> \<not> needs_sign_in p" "auth_routes p = Some r \<Longrightarrow> \<not> needs_sign_in p"
  by (auto simp: needs_sign_in_def health_routes_def auth_routes_def page_routes_def archive_routes_def api_routes_def
      stream_routes_def split: if_splits list.splits)

lemma routes_protected:
  fixes app :: "('s, 'n, 'd, 'r) app"
  assumes "needs_sign_in (segments (uri_path (in_uri req)))"
  obtains s :: "(('s, 'n, 'd) world, 'p) framework \<Rightarrow> (('s, 'n, 'd) world, 'p) service"
  where "\<And>fw w. routes app fw req w = protected app (s fw) req w"
proof -
  let ?p = "segments (uri_path (in_uri req))"
  have none: "health_routes ?p = None" "auth_routes ?p = None" using public_routes assms by (metis not_None_eq)+
  have "\<exists>s :: (('s, 'n, 'd) world, 'p) framework \<Rightarrow> (('s, 'n, 'd) world, 'p) service.
      \<forall>fw w. routes app fw req w = protected app (s fw) req w"
    using assms unfolding needs_sign_in_def routes_def Let_def none option.case
    by (cases "page_routes ?p"; cases "archive_routes ?p"; cases "api_routes ?p"; cases "stream_routes ?p") auto
  then show ?thesis using that by blast
qed

section \<open>Requests touch only the jobs of their user\<close>

text \<open>The layers of the HTTP libraries that sit on single routes: they answer, or pass the request on once.\<close>

definition plain_framework :: "(('s, 'n, 'd) world, 'p) framework \<Rightarrow> bool" where
  "plain_framework fw \<longleftrightarrow> (\<forall>n. passes_on (fw_body_limit fw n)) \<and> (\<forall>d. passes_on (fw_timeout fw d)) \<and>
     (\<forall>dir J. service_keeps (jobs_kept J) (fw_static_files fw dir))"

lemma plain_layers:
  assumes "plain_framework fw" and "service_keeps I s"
  shows "service_keeps I (fw_body_limit fw n s)" "service_keeps I (fw_timeout fw d s)"
  using assms passes_on_keeps [OF _ assms(2)] by (simp_all add: plain_framework_def)

lemma plain_layersD:
  assumes "plain_framework fw"
  shows "snd (fw_body_limit fw n s req w) = w \<or> snd (fw_body_limit fw n s req w) = snd (s req w)"
    and "snd (fw_timeout fw d s req w) = w \<or> snd (fw_timeout fw d s req w) = snd (s req w)"
  using assms unfolding plain_framework_def passes_on_def by blast+

lemma open_route_keeps_jobs:
  fixes app :: "('s, 'n, 'd, 'r) app"
  assumes "quiet app" and "plain_framework fw" and "\<not> changing (snd r)"
  shows "service_keeps (jobs_kept J) (open_route fw (serve app fw r))"
  unfolding open_route_def by (intro plain_layers serve_keeps_jobs assms)

lemma api_route_keeps_jobs:
  fixes app :: "('s, 'n, 'd, 'r) app"
  assumes "quiet app" and "plain_framework fw" and "\<not> changing (snd r)"
  shows "service_keeps (jobs_kept J) (api_route app fw (serve app fw r))"
  unfolding api_route_def by (intro plain_layers service_keeps_token keeps_jobs_users serve_keeps_jobs assms)

lemma protected_keeps_jobs:
  "quiet app \<Longrightarrow> service_keeps (jobs_kept J) s \<Longrightarrow> service_keeps (jobs_kept J) (protected app s)"
  unfolding protected_def by (intro service_intros keeps_jobs_users)

lemma quiet_routes_keep_jobs:
  fixes app :: "('s, 'n, 'd, 'r) app" and w :: "('s, 'n, 'd) world"
  assumes quiet: "quiet app" and fw: "plain_framework fw"
    and still: "\<And>r. api_routes (segments (uri_path (in_uri req))) = Some r \<Longrightarrow> \<not> changing (snd r)"
  shows "jobs (wd_db (snd (routes app fw req w))) = jobs (wd_db w)"
proof -
  let ?J = "jobs (wd_db w)" and ?p = "segments (uri_path (in_uri req))"
  note r = changing_routes [of ?p]
  have w: "jobs_kept ?J w" by (simp add: jobs_kept_def)
  have static: "service_keeps (jobs_kept ?J) (static_files app fw)"
    using fw by (simp add: plain_framework_def service_keeps_def static_files_def split_def Let_def)
  note opened = open_route_keeps_jobs [OF quiet fw] and api = api_route_keeps_jobs [OF quiet fw]
    and guarded = protected_keeps_jobs [OF quiet]
  have "jobs_kept ?J (snd (routes app fw req w))"
    unfolding routes_def Let_def
    using service_keepsD [OF opened w] service_keepsD [OF guarded [OF opened] w] service_keepsD [OF guarded [OF api] w]
      service_keepsD [OF guarded [OF serve_keeps_jobs [OF quiet, where fw = fw]] w] service_keepsD [OF static w] w
    by (auto simp: not_found_def split: option.split dest: r still)
  then show ?thesis by (simp add: jobs_kept_def)
qed

lemma changing_routeE:
  fixes app :: "('s, 'n, 'd, 'r) app" and fw :: "(('s, 'n, 'd) world, 'p) framework"
  assumes "api_routes (segments (uri_path (in_uri req))) = Some r" and "changing (snd r)"
  shows "fst r = POST" and "routes app fw req w = protected app (api_route app fw (serve app fw r)) req w"
proof -
  let ?p = "segments (uri_path (in_uri req))"
  show "fst r = POST" by (rule changing_routes(6) [OF assms])
  have "needs_sign_in ?p" using assms by (simp add: needs_sign_in_def)
  then have "health_routes ?p = None" "auth_routes ?p = None" using public_routes by (metis not_None_eq)+
  moreover have "page_routes ?p = None" "archive_routes ?p = None"
    using assms(1) by (auto simp: page_routes_def archive_routes_def api_routes_def split: if_splits list.splits)
  ultimately show "routes app fw req w = protected app (api_route app fw (serve app fw r)) req w"
    using assms(1) by (simp add: routes_def Let_def)
qed

lemma serve_changing:
  fixes app :: "('s, 'n, 'd, 'r) app" and w :: "('s, 'n, 'd) world"
  assumes "quiet app" and "db_ok (wd_db w)" and "changing (snd r)" and "in_user req = Some u" and "fst r = POST"
  shows "own_jobs_only app u w (snd (serve app fw r req w))"
    and "jobs (wd_db (snd (serve app fw r req w))) \<noteq> jobs (wd_db w) \<Longrightarrow> in_method req = POST"
  using endpoint_own_jobs_only [OF assms(1-4), of fw] assms(5)
  by (auto simp: serve_def split_def method_matches_def split: if_splits)


lemma api_route_own_jobs_only:
  fixes app :: "('s, 'n, 'd, 'r) app" and fw :: "(('s, 'n, 'd) world, 'p) framework" and w :: "('s, 'n, 'd) world"
  assumes quiet: "quiet app" and ok: "db_ok (wd_db w)" and fw: "plain_framework fw"
    and r: "changing (snd r)" "fst r = POST" and user: "in_user req = Some u"
    and changed: "jobs (wd_db (snd (api_route app fw (serve app fw r) req w))) \<noteq> jobs (wd_db w)"
  shows "in_method req = POST \<and> (\<exists>w2. read_csrf app w = (Inr (Some (presented_token (in_headers req))), w2) \<and> wd_db w2 = wd_db w \<and>
    own_jobs_only app u w2 (snd (api_route app fw (serve app fw r) req w)))"
proof -
  let ?inner = "fw_body_limit fw MAX_UPLOAD_BYTES (serve app fw r)" and ?w' = "snd (api_route app fw (serve app fw r) req w)"
  have through: "?w' = snd (verify_token (read_csrf app) ?inner req w)"
    using plain_layersD(2) [OF fw, of REQUEST_TIMEOUT "verify_token (read_csrf app) ?inner" req w] changed
    unfolding api_route_def by metis
  note inner = plain_layersD(1) [OF fw, of MAX_UPLOAD_BYTES "serve app fw r"]
  have csrf_db: "wd_db (snd (read_csrf app v)) = wd_db v" for v
    by (simp add: read_csrf_def world_defs split: prod.split)
  have refused: "wd_db (snd (token_deny (read_csrf app) req w :: 'p outgoing \<times> _)) = wd_db w"
    using csrf_db [of w] by (auto simp: token_deny_def)
  obtain req' w2 where pass: "token_pass (read_csrf app) req w = Some (req', w2)"
    using changed refused token_guard.stopped [of "read_csrf app" req w ?inner] through
    by (cases "token_pass (read_csrf app) req w") auto
  then have run: "?w' = snd (?inner req' w2)" using token_guard.runs through by metis
  have same: "wd_db w2 = wd_db w" "req' = req"
    using pass csrf_db [of w] by (auto simp: token_pass_def split: if_splits sum.splits option.splits prod.splits)
  with run changed inner have served: "?w' = snd (serve app fw r req w2)" by metis
  have ok2: "db_ok (wd_db w2)" using ok same by simp
  have asked: "in_method req = POST" "own_jobs_only app u w2 ?w'"
    using serve_changing [OF quiet ok2 r(1) user r(2), of fw] changed served same by simp_all
  then have "read_csrf app w = (Inr (Some (presented_token (in_headers req))), w2)"
    using pass by (auto simp: token_pass_def is_safe_def split: if_splits sum.splits option.splits prod.splits)
  with asked same show ?thesis by blast
qed

section \<open>Every answer of the application\<close>

definition hardening :: "environment \<Rightarrow> (string \<times> string) list" where
  "hardening e = [(''content-security-policy'', CONTENT_SECURITY_POLICY), (''x-content-type-options'', ''nosniff''),
     (''referrer-policy'', ''strict-origin-when-cross-origin''), (''x-frame-options'', ''DENY'')] @
     (if is_production e then [(''strict-transport-security'', HSTS)] else [])"

text \<open>What the layers of the headers do to an answer.\<close>

lemma header_layers:
  assumes "optional_layer (strict_transport_security e)
     (frame_options (referrer_policy (no_sniff (content_security_policy s)))) req w = (out, w')"
  shows "list_all (\<lambda>(name, v). header_get name (out_headers out) = Some v) (hardening e)"
  using assms
  by (auto simp: optional_layer_def strict_transport_security_def frame_options_def referrer_policy_def no_sniff_def
      content_security_policy_def overriding_def hardening_def Let_def split: prod.splits if_splits)

section \<open>A small framework\<close>

text \<open>For evaluation: extractors that read nothing but ids, libraries that pass everything on.\<close>

definition sample_framework :: "((nat \<times> (string \<Rightarrow> session_value option), nat, unit) world, unit) framework" where
  "sample_framework = (let refusal = response_with 400 [] EmptyContent in
     \<lparr>fw_uuid = (\<lambda>s. if s = ''11'' then Inr 11 else Inl refusal), fw_login_query = (\<lambda>_. Inr None),
      fw_callback_query = (\<lambda>_. Inl refusal), fw_archive_query = (\<lambda>_. Inl refusal), fw_asset_query = (\<lambda>_. Inr None),
      fw_visibility_form = (\<lambda>_. Inr True), fw_multipart = (\<lambda>_. Inr sample_form), fw_method_not_allowed = refusal,
      fw_missing_extension = refusal, fw_sse = (\<lambda>_. refusal), fw_body_limit = (\<lambda>_ s. s), fw_timeout = (\<lambda>_ s. s),
      fw_session_layer = (\<lambda>s. s), fw_compression = (\<lambda>s. s), fw_cors = (\<lambda>s. s), fw_trace = (\<lambda>s. s),
      fw_static_files = (\<lambda>_ _ w. (refusal, w)),
      fw_pages = \<lparr>pl_read = (\<lambda>_ _. None), pl_parse = (\<lambda>_. None), pl_render = (\<lambda>_. None)\<rparr>,
      fw_render_archive = (\<lambda>_. Inl []), fw_render_index = (\<lambda>_. Inl []), fw_render_card = (\<lambda>_. Inl []),
      fw_card_text = (\<lambda>_. Inl []),
      fw_text = sample_text,
      fw_version = ''0.1.0''\<rparr>)"


lemma sample_framework_layers [simp]:
  "fw_uuid sample_framework ''11'' = Inr 11" "fw_visibility_form sample_framework r = Inr True"
  "fw_body_limit sample_framework n s = s" "fw_timeout sample_framework d s = s" "fw_session_layer sample_framework s = s"
  "fw_compression sample_framework s = s" "fw_cors sample_framework s = s" "fw_trace sample_framework s = s"
  by (simp_all add: sample_framework_def Let_def)

lemma sample_framework_ok: "plain_framework sample_framework" "framework_keeps I sample_framework"
  by (simp_all add: plain_framework_def framework_keeps_def passes_on_def service_keeps_def sample_framework_def Let_def)

definition sample_hiding :: incoming where
  "sample_hiding = \<lparr>in_method = POST, in_uri = Some (''/api/jobs/11/synlighet'', None), in_headers = [(''x-csrf-token'', ''t'')],
     in_peer = None, in_session = True, in_user = None, in_correlation = None\<rparr>"

definition sample_entries :: "string \<Rightarrow> session_value option" where
  "sample_entries = [USER_KEY \<mapsto> UserEntry sample_session_user, TOKEN_KEY \<mapsto> TextEntry ''t'', USER_ID_KEY \<mapsto> UuidEntry 1]"

lemma sample_path: "segments (uri_path (in_uri sample_hiding)) = [[], ''api'', ''jobs'', ''11'', ''synlighet'']"
  by code_simp

lemma sample_session_reads:
  "the_current_user sample_app (sample_world sample_db sample_entries) =
      (Inr (Some sample_session_user), sample_world sample_db sample_entries)"
  "read_csrf sample_app (sample_world sample_db sample_entries) = (Inr (Some ''t''), sample_world sample_db sample_entries)"
  "local_user_id sample_app sample_session_user (sample_world sample_db sample_entries) =
      (Inr 1, sample_world sample_db sample_entries)"
  by (simp_all add: the_current_user_def read_csrf_def local_user_id_def action_defs world_defs sample_world_def session_defs
      memory_sessions_def sample_entries_def USER_KEY_def TOKEN_KEY_def USER_ID_KEY_def)

lemma sample_hiding_simps [simp]:
  "in_session sample_hiding" "in_method sample_hiding = POST" "has_role sample_session_user ''User''"
  "in_headers sample_hiding = [(''x-csrf-token'', ''t'')]" "presented_token [(''x-csrf-token'', ''t'')] = ''t''"
  by (simp_all add: sample_hiding_def sample_session_user_def has_role_def presented_token_def TOKEN_HEADER_def header_get_def
      header_to_str_def option_or_def)

lemma sample_hiding_run:
  "wd_db (snd (routes sample_app sample_framework sample_hiding (sample_world sample_db sample_entries))) =
     snd (jobs_set_hidden 11 1 True sample_db)"
  unfolding routes_def sample_path Let_def
  by (simp add: health_routes_def auth_routes_def page_routes_def archive_routes_def api_routes_def protected_def api_route_def
      require_auth_def require_role_def verify_token_def presented_token_def [symmetric] sample_session_reads method_matches_def
      serve_def is_safe_def with_both_def with_session_def with_user_def extract_then_def respond_def set_visibility_def
      attempt_def map_err_def on_pool_def split_def split: sum.split)
     (simp add: sample_world_def Let_def)

lemma sample_hides: "jobs (snd (jobs_set_hidden 11 1 True sample_db)) \<noteq> jobs sample_db"
  by code_simp

end
