(* ===== verification/Startup.thy ===== *)
theory Startup
  imports Isolation
begin

text \<open>
  The start of the process (\<open>main.rs\<close>) with what only it uses: logging (\<open>telemetry.rs\<close>) and the
  opening of the pool (\<open>db.rs\<close>). Every step may fail, with a context for the operator; only when all
  of them have succeeded is there an application to serve.
\<close>

section \<open>Logging\<close>

datatype telemetry_error = LogFilter string | AlreadyInitialised string

datatype log_format = FlatJson | Compact

definition telemetry_init ::
  "(string \<Rightarrow> string + 'f) \<Rightarrow> ('f \<Rightarrow> log_format \<Rightarrow> ('n, string, unit) action) \<Rightarrow> string \<Rightarrow> environment \<Rightarrow>
     ('n, telemetry_error, unit) action" where
  "telemetry_init parse try_init filter_text env =
     attempt (map_err LogFilter (of_result (parse filter_text))) (\<lambda>env_filter.
     attempt (map_err AlreadyInitialised (try_init env_filter (if is_production env then FlatJson else Compact))) (\<lambda>_.
       succeed ()))"

section \<open>What the process starts from\<close>

text \<open>
  The libraries and the surroundings of the process: the environment variables, the log subscriber,
  the database driver, whose migrations deliver the tables, the credential libraries, the HTTP
  clients, the listening socket, and the session and HTTP libraries, which are configured by the
  session layer. \<open>ho_runtime\<close> holds the clocks, the random ids and the connections; what start-up
  builds is filled in by \<open>app_of\<close>.
\<close>

record ('s, 'n, 'd, 'r, 'p, 'f, 'c, 'h, 'k) host =
  ho_figment :: "(string \<times> json) list \<Rightarrow> string + app_config"
  ho_log_filter :: "string \<Rightarrow> string + 'f"
  ho_try_init :: "'f \<Rightarrow> log_format \<Rightarrow> ('n, string, unit) action"
  ho_open_pool :: "nat \<Rightarrow> duration \<Rightarrow> string \<Rightarrow> ('n, sqlx_error, unit) action"
  ho_migrate :: "('n, string, database) action"
  ho_var_set :: "string \<Rightarrow> bool"
  ho_http :: "duration \<Rightarrow> string + 'h"
  ho_credentials :: "'c credential_libs"
  ho_blob_credential :: "credential_kind \<Rightarrow> string + 'c"
  ho_token :: "'c \<Rightarrow> ('n, string) net"
  ho_provider :: "'h \<Rightarrow> 'n provider"
  ho_oidc :: "'h \<Rightarrow> ('n, 'd, 'r) oidc_lib"
  ho_bind :: "16 word \<Rightarrow> ('n, string, unit) action"
  ho_session_table :: "('n, string, unit) action"
  ho_key :: "string \<Rightarrow> 'k option"
  ho_sessions :: "session_store \<Rightarrow> 'k session_layer \<Rightarrow> 's session_lib"
  ho_framework :: "session_store \<Rightarrow> 'k session_layer \<Rightarrow> (('s, 'n, 'd) world, 'p) framework"
  ho_runtime :: "('s, 'n, 'd, 'r) app"

datatype start_cause =
    StartConfig config_error
  | StartTelemetry telemetry_error
  | StartStorage storage_error
  | StartProviders provider_error
  | StartBind string
  | StartSessionTable string
  | StartSession session_error
  | StartAuth auth_error

text \<open>\<open>.context(...)\<close> of \<open>anyhow\<close>: the error with what failed.\<close>

definition with_context :: "string \<Rightarrow> ('e \<Rightarrow> start_cause) \<Rightarrow> ('w, 'e, 'a) action \<Rightarrow> ('w, string \<times> start_cause, 'a) action" where
  "with_context what cause = map_err (\<lambda>e. (what, cause e))"

section \<open>The database\<close>

definition POOL_SIZE :: nat where "POOL_SIZE = 10"
definition ACQUIRE_TIMEOUT :: duration where "ACQUIRE_TIMEOUT = seconds 10"

text \<open>Migrating is the one step that may replace the tables.\<close>

definition run_migrations :: "('n, string, database) action \<Rightarrow> ('s, 'n, 'd, string, unit) act" where
  "run_migrations migrate = attempt (in_the_net migrate) (\<lambda>db w. (Inr (), w\<lparr>wd_db := db\<rparr>))"

definition connect ::
  "(nat \<Rightarrow> duration \<Rightarrow> string \<Rightarrow> ('n, sqlx_error, unit) action) \<Rightarrow> ('n, string, database) action \<Rightarrow>
     string \<Rightarrow> nat \<Rightarrow> ('s, 'n, 'd, storage_error, unit) act" where
  "connect open_pool migrate url max_connections =
     attempt (map_err StorageDatabase (in_the_net (open_pool max_connections ACQUIRE_TIMEOUT url))) (\<lambda>_.
     attempt (map_err StorageMigration (run_migrations migrate)) (\<lambda>_. succeed ()))"

section \<open>Building the parts\<close>

definition PROVIDER_TIMEOUT :: duration where "PROVIDER_TIMEOUT = seconds 180"

definition OIDC_TIMEOUT :: duration where "OIDC_TIMEOUT = seconds 15"

definition build_http_client :: "(duration \<Rightarrow> string + 'h) \<Rightarrow> provider_error + 'h" where
  "build_http_client build = map_sum (\<lambda>e. ProviderInternal (''could not build an HTTP client: '' @ e)) id (build PROVIDER_TIMEOUT)"

text \<open>The three providers share the configuration, the client and the credentials.\<close>

definition providers_new ::
  "('s, 'n, 'd, 'r, 'p, 'f, 'c, 'h, 'k) host \<Rightarrow> provider_config \<Rightarrow> provider_error + 'n provider" where
  "providers_new host config =
     and_then (build_http_client (ho_http host)) (\<lambda>http.
     and_then (credentials_new (ho_credentials host) (ho_var_set host) config) (\<lambda>credentials.
       Inr ((ho_provider host http)\<lparr>pv_config := config, pv_headers := credentials_headers (ho_token host) credentials\<rparr>)))"

text \<open>\<open>Jobs::spawn\<close>: an empty queue and no events; the workers wait.\<close>

definition jobs_spawn :: "('s, 'n, 'd, 'e, unit) act" where
  "jobs_spawn w = (Inr (), w\<lparr>wd_queue := [], wd_events := []\<rparr>)"

definition app_of ::
  "('s, 'n, 'd, 'r, 'p, 'f, 'c, 'h, 'k) host \<Rightarrow> app_config \<Rightarrow> 'k session_layer \<Rightarrow> 'n provider \<Rightarrow> blob_store \<times> 'c \<Rightarrow>
     role_policy \<Rightarrow> oidc_config \<times> 'h \<Rightarrow> ('s, 'n, 'd, 'r) app" where
  "app_of host config layer providers blobs policy oidc = (ho_runtime host)
     \<lparr>ap_config := config, ap_role_policy := policy, ap_oidc := ho_oidc host (snd oidc),
      ap_sessions := ho_sessions host (cf_session_store config) layer, ap_store := fst blobs,
      ap_blob_token := ho_token host (snd blobs), ap_providers := providers\<rparr>"

record ('s, 'n, 'd, 'r, 'p, 'k) running =
  ru_app :: "('s, 'n, 'd, 'r) app"
  ru_framework :: "(('s, 'n, 'd) world, 'p) framework"
  ru_layer :: "'k session_layer"

text \<open>The two arms of the match on the session store, once the table of the first is in place.\<close>

definition build_application ::
  "('s, 'n, 'd, 'r, 'p, 'f, 'c, 'h, 'k) host \<Rightarrow> app_config \<Rightarrow> 'n provider \<Rightarrow> blob_store \<times> 'c \<Rightarrow>
     ('s, 'n, 'd, string \<times> start_cause, ('s, 'n, 'd, 'r, 'p, 'k) running) act" where
  "build_application host config providers blobs =
     attempt (case cf_session_store config of
         PostgresStore \<Rightarrow> with_context ''failed to migrate the session table'' StartSessionTable (in_the_net (ho_session_table host))
       | MemoryStore \<Rightarrow> succeed ()) (\<lambda>_.
     attempt (with_context ''failed to build session layer'' StartSession (of_result (session_layer_new (ho_key host) config))) (\<lambda>layer.
     attempt (with_context ''failed to build application state'' StartAuth
         (of_result (app_state_new (\<lambda>_. ho_http host OIDC_TIMEOUT) config (app_of host config layer providers blobs)))) (\<lambda>app w.
       (Inr \<lparr>ru_app = app, ru_framework = ho_framework host (cf_session_store config) layer, ru_layer = layer\<rparr>,
        w\<lparr>wd_key := None, wd_metadata := None\<rparr>))))"

section \<open>The start\<close>

text \<open>
  The delegation keys and the provider metadata are cached by objects created here, so both caches
  start empty. The retention task is only spawned: its first sweep is due after the start.
\<close>

definition main_start ::
  "('s, 'n, 'd, 'r, 'p, 'f, 'c, 'h, 'k) host \<Rightarrow>
     ('s, 'n, 'd, string \<times> start_cause, ('s, 'n, 'd, 'r, 'p, 'k) running) act" where
  "main_start host =
     attempt (with_context ''failed to load configuration'' StartConfig (of_result (from_env (ho_figment host)))) (\<lambda>config.
     attempt (with_context ''failed to install tracing'' StartTelemetry
         (in_the_net (telemetry_init (ho_log_filter host) (ho_try_init host) (cf_rust_log config) (cf_app_env config)))) (\<lambda>_.
     attempt (with_context ''failed to open the database'' StartStorage
         (connect (ho_open_pool host) (ho_migrate host) (cf_database_url config) POOL_SIZE)) (\<lambda>_.
     attempt (with_context ''failed to sweep interrupted jobs'' StartStorage (fail_orphans (ho_runtime host))) (\<lambda>_.
     attempt (with_context ''failed to build the Azure AI clients'' StartProviders
         (of_result (providers_new host (config_providers config)))) (\<lambda>providers.
     attempt (with_context ''failed to build the blob storage client'' StartStorage
         (of_result (blob_store_new (ho_var_set host) (ho_blob_credential host) (ho_http host)
            (cf_azure_storage_account config) (cf_azure_storage_container config)))) (\<lambda>blobs.
     attempt jobs_spawn (\<lambda>_.
     attempt (with_context (''failed to bind 0.0.0.0:'' @ dec (unat (cf_app_port config))) StartBind
         (in_the_net (ho_bind host (cf_app_port config)))) (\<lambda>_.
       build_application host config providers blobs))))))))"

section \<open>Serving\<close>

text \<open>What the listener accepts carries the address of its peer.\<close>

definition served ::
  "('s, 'n, 'd, 'r, 'p, 'k) running \<Rightarrow> string \<Rightarrow> (('s, 'n, 'd) world, 'p) service" where
  "served run peer req = build_router (ru_app run) (ru_framework run) (req\<lparr>in_peer := Some peer\<rparr>)"

text \<open>
  A future that waits for a signal: installing the handler may fail, which is logged and ends the
  wait as well; otherwise it ends when the signal arrives, if ever.
\<close>

datatype signal_wait = HandlerFailed instant | SignalAt instant | NoSignal

definition wait_ends :: "signal_wait \<Rightarrow> instant option" where
  "wait_ends s = (case s of HandlerFailed t \<Rightarrow> Some t | SignalAt t \<Rightarrow> Some t | NoSignal \<Rightarrow> None)"

definition shutdown_signal :: "signal_wait \<Rightarrow> signal_wait \<Rightarrow> instant option" where
  "shutdown_signal ctrl_c terminate = (case (wait_ends ctrl_c, wait_ends terminate) of
     (None, t) \<Rightarrow> t | (t, None) \<Rightarrow> t | (Some a, Some b) \<Rightarrow> Some (min a b))"

text \<open>
  The server answers, in the order they arrive here, the requests that were accepted before the
  shutdown; each comes with the session of its cookie.
\<close>

fun serve_until ::
  "('s, 'n, 'd, 'r, 'p, 'k) running \<Rightarrow> instant option \<Rightarrow> (instant \<times> string \<times> 's \<times> incoming) list \<Rightarrow>
     ('s, 'n, 'd) world \<Rightarrow> 'p outgoing list \<times> ('s, 'n, 'd) world" where
  "serve_until run stop [] w = ([], w)"
| "serve_until run stop ((t, peer, s, req) # arrivals) w =
     (if (case stop of None \<Rightarrow> False | Some end_time \<Rightarrow> end_time \<le> t) then serve_until run stop arrivals w
      else let (out, w1) = served run peer req (w\<lparr>wd_session := s\<rparr>); (outs, w2) = serve_until run stop arrivals w1
           in (out # outs, w2))"

text \<open>A signal handler that cannot be installed stops the server at once.\<close>

lemma failed_handler_shuts_down:
  "shutdown_signal (HandlerFailed t) NoSignal = Some t" "shutdown_signal NoSignal (HandlerFailed t) = Some t"
  by (simp_all add: shutdown_signal_def wait_ends_def)

section \<open>What a start has gone through\<close>

lemma with_context_ok [simp]: "with_context what cause m w = (Inr x, w') \<longleftrightarrow> m w = (Inr x, w')"
  by (simp add: with_context_def)

lemma of_result_ok: "of_result r w = (Inr x, w') \<Longrightarrow> r = Inr x \<and> w' = w"
  by (simp add: of_result_def)

lemma in_the_net_ok: "in_the_net m w = (Inr x, w') \<Longrightarrow> \<exists>n. m (wd_net w) = (Inr x, n) \<and> w' = w\<lparr>wd_net := n\<rparr>"
  by (auto simp: world_defs split: prod.splits)

lemma connected:
  assumes "connect open_pool migrate url max_connections w = (Inr (), w')"
  obtains n n' db where "migrate n = (Inr db, n')" and "w' = w\<lparr>wd_net := n', wd_db := db\<rparr>"
  using assms unfolding connect_def run_migrations_def
  by (auto elim!: attempt_okE dest!: in_the_net_ok simp: succeed_def)

text \<open>The application is built last, on the tables and the empty queue of the steps before.\<close>

lemma application_built:
  fixes host :: "('s, 'n, 'd, 'r, 'p, 'f, 'c, 'h, 'k) host" and w w' :: "('s, 'n, 'd) world"
  assumes "build_application host config providers blobs w = (Inr run, w')"
  obtains n where "session_layer_new (ho_key host) config = Inr (ru_layer run)"
    and "app_state_new (\<lambda>_. ho_http host OIDC_TIMEOUT) config (app_of host config (ru_layer run) providers blobs) = Inr (ru_app run)"
    and "ru_framework run = ho_framework host (cf_session_store config) (ru_layer run)"
    and "w' = w\<lparr>wd_net := n, wd_key := None, wd_metadata := None\<rparr>"
proof -
  have table: "\<exists>n. w1 = w\<lparr>wd_net := n\<rparr>" if "(case cf_session_store config of
      PostgresStore \<Rightarrow> with_context what StartSessionTable (in_the_net (ho_session_table host)) | MemoryStore \<Rightarrow> succeed ()) w = (Inr x, w1)"
    for w1 :: "('s, 'n, 'd) world" and x what
    using that by (cases "cf_session_store config") (auto dest!: in_the_net_ok simp: succeed_def intro: exI [of _ "wd_net w"])
  from assms [unfolded build_application_def] obtain n w1 layer app where "w1 = w\<lparr>wd_net := n\<rparr>"
    "session_layer_new (ho_key host) config = Inr layer"
    "app_state_new (\<lambda>_. ho_http host OIDC_TIMEOUT) config (app_of host config layer providers blobs) = Inr app"
    "run = \<lparr>ru_app = app, ru_framework = ho_framework host (cf_session_store config) layer, ru_layer = layer\<rparr>"
    "w' = w1\<lparr>wd_key := None, wd_metadata := None\<rparr>"
    by (elim attempt_okE) (auto dest!: of_result_ok table)
  then show ?thesis using that by auto
qed

lemma state_built:
  assumes "app_state_new build_client config build = Inr app"
  shows "\<exists>oidc. app = build (role_policy_new (config_required_app_role config)) oidc"
  using assms by (auto simp: app_state_new_def Let_def and_then_Inr)

lemma started:
  fixes host :: "('s, 'n, 'd, 'r, 'p, 'f, 'c, 'h, 'k) host" and w w' :: "('s, 'n, 'd) world"
  assumes "main_start host w = (Inr run, w')"
  obtains config providers blobs n n' db w2 n3 where "from_env (ho_figment host) = Inr config"
    and "providers_new host (config_providers config) = Inr providers"
    and "session_layer_new (ho_key host) config = Inr (ru_layer run)"
    and "app_state_new (\<lambda>_. ho_http host OIDC_TIMEOUT) config (app_of host config (ru_layer run) providers blobs) = Inr (ru_app run)"
    and "ru_framework run = ho_framework host (cf_session_store config) (ru_layer run)"
    and "ho_migrate host n = (Inr db, n')" and "fail_orphans (ho_runtime host) (w\<lparr>wd_net := n', wd_db := db\<rparr>) = (Inr (), w2)"
    and "w' = w2\<lparr>wd_queue := [], wd_events := [], wd_net := n3, wd_key := None, wd_metadata := None\<rparr>"
proof -
  from assms [unfolded main_start_def] obtain config n n' db w2 providers blobs n2 where
    "from_env (ho_figment host) = Inr config" "providers_new host (config_providers config) = Inr providers"
    "ho_migrate host n = (Inr db, n')" "fail_orphans (ho_runtime host) (w\<lparr>wd_net := n', wd_db := db\<rparr>) = (Inr (), w2)"
    "build_application host config providers blobs (w2\<lparr>wd_queue := [], wd_events := [], wd_net := n2\<rparr>) = (Inr run, w')"
    by (elim attempt_okE) (auto dest!: of_result_ok in_the_net_ok elim!: connected simp: jobs_spawn_def)
  note start = this
  obtain n3 where "session_layer_new (ho_key host) config = Inr (ru_layer run)"
    "app_state_new (\<lambda>_. ho_http host OIDC_TIMEOUT) config (app_of host config (ru_layer run) providers blobs) = Inr (ru_app run)"
    "ru_framework run = ho_framework host (cf_session_store config) (ru_layer run)"
    and w': "w' = w2\<lparr>wd_queue := [], wd_events := [], wd_net := n2\<rparr>\<lparr>wd_net := n3, wd_key := None, wd_metadata := None\<rparr>"
    by (rule application_built [OF start(5)]) blast
  then show ?thesis by (intro that [OF start(1,2) _ _ _ start(3,4)]) (simp_all add: w')
qed

text \<open>After the first sweep nothing is left unfinished.\<close>

lemma fail_orphans_quiet:
  fixes app :: "('s, 'n, 'd, 'r) app"
  assumes quiet: "quiet app" and ok: "db_ok (wd_db w)" and run: "fail_orphans app w = (r, w')"
  shows "r = Inr () \<and> db_ok (wd_db w') \<and> (\<forall>row \<in> set (jobs (wd_db w')). \<not> unfinished row)"
proof -
  let ?stmt = "\<lambda>now (_ :: uuid). jobs_fail_orphans now (error_code_as_str Internal) ERR_JOB_INTERRUPTED"
  obtain n now and u :: uuid where step: "on_pool app ?stmt w = (fst (?stmt now u (wd_db w)), w\<lparr>wd_net := n, wd_db := snd (?stmt now u (wd_db w))\<rparr>)"
    by (rule quiet_pool [OF quiet, of ?stmt w])
  have ok': "db_ok (snd (?stmt now u (wd_db w)))" using keepsD [OF keeps_jobs_updates(4) ok] by simp
  have "\<exists>k. fst (?stmt now u (wd_db w)) = Inr k" and "\<forall>row \<in> set (jobs (snd (?stmt now u (wd_db w)))). \<not> unfinished row"
    by (auto simp: jobs_fail_orphans_def update_jobs_def Let_def list_all_iff job_row_ok_def jobs_status_valid_def
        jobs_error_matches_status_def update_where_def unfinished_def)
  then show ?thesis using run step ok' by (auto simp: fail_orphans_def attempt_def succeed_def)
qed

text \<open>A failure is that of one step, with its context.\<close>

lemma attempt_errE:
  assumes "attempt m k w = (Inl e, w')"
  obtains "m w = (Inl e, w')" | x w1 where "m w = (Inr x, w1)" and "k x w1 = (Inl e, w')"
  using assms by (auto simp: attempt_def split: prod.splits sum.splits)

lemma with_context_err: "with_context what cause m w = (Inl e, w') \<longleftrightarrow> (\<exists>e'. m w = (Inl e', w') \<and> e = (what, cause e'))"
  by (auto simp: with_context_def map_err_def split: prod.splits sum.splits)

section \<open>Correctness\<close>

text \<open>
  C37: what is served was built from the validated configuration. A start that succeeds has loaded
  its configuration, serves with the session layer, the role policy and the provider settings of that
  configuration and no others, and begins with an empty queue, no events and cold caches; in
  production its sessions are in the database, its cookies are secure, and its providers do not
  authenticate by an API key. A start that fails on its configuration has done nothing at all, and
  one that fails on the logging has not touched the tables.
\<close>

theorem start_is_safe:
  fixes host :: "('s, 'n, 'd, 'r, 'p, 'f, 'c, 'h, 'k) host" and w w' :: "('s, 'n, 'd) world"
  assumes "main_start host w = (result, w')"
  shows "case result of
     Inr run \<Rightarrow> (let app = ru_app run; c = ap_config app in from_env (ho_figment host) = Inr c \<and>
       session_layer_new (ho_key host) c = Inr (ru_layer run) \<and> ap_sessions app = ho_sessions host (cf_session_store c) (ru_layer run) \<and>
       ap_role_policy app = role_policy_new (config_required_app_role c) \<and> pv_config (ap_providers app) = config_providers c \<and>
       wd_queue w' = [] \<and> wd_events w' = [] \<and> wd_key w' = None \<and> wd_metadata w' = None \<and>
       (cf_app_env c = Production \<longrightarrow> cf_session_store c = PostgresStore \<and> sy_secure (ru_layer run) \<and>
          (\<exists>credential. pv_headers (ap_providers app) = credentials_headers (ho_token host) (EntraCredential credential))))
   | Inl (what, cause) \<Rightarrow> (cause \<in> range StartConfig \<longrightarrow> w' = w) \<and> (cause \<in> range StartTelemetry \<longrightarrow> wd_db w' = wd_db w)"
proof (cases result)
  case (Inl failure)
  obtain what cause where failure: "failure = (what, cause)" by fastforce
  have "(cause \<in> range StartConfig \<longrightarrow> w' = w) \<and> (cause \<in> range StartTelemetry \<longrightarrow> wd_db w' = wd_db w)"
    using assms unfolding Inl failure main_start_def build_application_def
    by (elim attempt_errE)
       (auto simp: with_context_err of_result_def succeed_def world_defs jobs_spawn_def split: session_store.splits prod.splits)
  then show ?thesis by (simp add: Inl failure)
next
  case (Inr run)
  from assms [unfolded Inr] show ?thesis
  proof (cases rule: started)
    case (1 config providers blobs n n' db w2 n3)
    obtain oidc where app: "ru_app run = app_of host config (ru_layer run) providers blobs (role_policy_new (config_required_app_role config)) oidc"
      using state_built [OF 1(4)] by blast
    obtain http credentials where providers: "credentials_new (ho_credentials host) (ho_var_set host) (config_providers config) = Inr credentials"
      "providers = (ho_provider host http)\<lparr>pv_config := config_providers config, pv_headers := credentials_headers (ho_token host) credentials\<rparr>"
      using 1(2) by (auto simp: providers_new_def and_then_Inr)
    have secure: "sy_secure layer" if "session_layer_new key config = Inr layer" "cf_app_env config = Production"
      for key and layer :: "'k session_layer"
      using that by (auto simp: session_layer_new_def Let_def split: if_splits option.splits)
    have "cf_session_store config = PostgresStore \<and> sy_secure (ru_layer run) \<and> (\<exists>credential. credentials = EntraCredential credential)"
      if production: "cf_app_env config = Production"
    proof -
      have "credentials \<noteq> ApiKeyCredential key" for key
        using no_key_credential [of "config_providers config"] loaded_config(6) [OF 1(1) production] providers(1)
        by (auto simp: config_providers_def)
      then have "\<exists>credential. credentials = EntraCredential credential" by (cases credentials) blast+
      then show ?thesis
        using loaded_config(7) [OF 1(1) production] secure [OF 1(3) production] by simp
    qed
    then show ?thesis using 1(1,3) by (auto simp: Inr app app_of_def providers(2) 1(8) Let_def)
  qed
qed

text \<open>A host on which every step succeeds.\<close>

definition sample_host ::
  "(nat \<times> (string \<Rightarrow> session_value option), nat, unit, string, unit, string, unit, unit, string) host" where
  "sample_host = \<lparr>ho_figment = (\<lambda>_. Inr sample_config), ho_log_filter = Inr, ho_try_init = (\<lambda>_ _ n. (Inr (), n)),
     ho_open_pool = (\<lambda>_ _ _ n. (Inr (), n)), ho_migrate = (\<lambda>n. (Inr sample_db, n)), ho_var_set = (\<lambda>_. True),
     ho_http = (\<lambda>_. Inr ()),
     ho_credentials = \<lparr>make_client_secret = (\<lambda>_ _ _. Inl ''no''), make_managed_identity = Inr (), make_developer_tools = Inl ''no''\<rparr>,
     ho_blob_credential = (\<lambda>_. Inr ()), ho_token = (\<lambda>_ n. (Inr ''token'', n)), ho_provider = (\<lambda>_. sample_provider),
     ho_oidc = (\<lambda>_. sample_oidc), ho_bind = (\<lambda>_ n. (Inr (), n)), ho_session_table = (\<lambda>n. (Inr (), n)), ho_key = Some,
     ho_sessions = (\<lambda>_ _. memory_sessions), ho_framework = (\<lambda>_ _. sample_framework), ho_runtime = sample_app\<rparr>"

lemma sample_host_simps [simp]:
  "ho_figment sample_host ds = Inr sample_config" "ho_migrate sample_host n = (Inr sample_db, n)"
  "ho_framework sample_host st layer = sample_framework" "ho_runtime sample_host = sample_app"
  by (simp_all add: sample_host_def)

lemma sample_start:
  obtains run w' where "main_start sample_host (sample_world sample_db Map.empty) = (Inr run, w')"
proof -
  have config: "from_env (ho_figment sample_host) = Inr sample_config"
    using sample_config_loads by (simp add: from_env_def)
  have oidc: "oidc_validate (config_oidc sample_config) = Inr ()" by code_simp
  obtain r w2 where sweep: "fail_orphans sample_app (sample_world sample_db Map.empty) = (r, w2)" by fastforce
  have r: "r = Inr ()" using fail_orphans_quiet [OF sample_quiet _ sweep] sample_db_ok by (simp add: sample_world_def)
  obtain layer where layer: "session_layer_new Some sample_config = Inr layer"
    using loaded_config(2) [OF sample_config_loads] by (auto simp: session_layer_new_def MIN_KEY_LEN_def Let_def)
  obtain providers where providers: "providers_new sample_host (config_providers sample_config) = Inr providers"
    by (simp add: providers_new_def build_http_client_def credentials_new_def provider_running_in_azure_def sample_host_def
        config_providers_def)
  have store: "cf_session_store sample_config = PostgresStore" by (simp add: sample_config_def)
  have connected: "connect (ho_open_pool sample_host) (ho_migrate sample_host) url most (sample_world sample_db Map.empty) =
      (Inr (), sample_world sample_db Map.empty)" for url most
    by (simp add: connect_def run_migrations_def action_defs world_defs sample_host_def) (simp add: sample_world_def)
  have logged: "in_the_net (telemetry_init (ho_log_filter sample_host) (ho_try_init sample_host) directives env) (sample_world sample_db Map.empty) =
      (Inr (), sample_world sample_db Map.empty)" for directives env
    by (simp add: telemetry_init_def action_defs world_defs sample_host_def)
  have "\<exists>run w'. main_start sample_host (sample_world sample_db Map.empty) = (Inr run, w')"
    unfolding main_start_def attempt_def with_context_def map_err_def of_result_def config
    using sweep [unfolded r] layer
    by (simp add: connected logged providers)
       (simp add: blob_store_new_def running_in_azure_def jobs_spawn_def build_application_def action_defs
        world_defs with_context_def app_state_new_def oidc_provider_new_def oidc store sample_host_def Let_def split: prod.split)
  then show ?thesis using that by blast
qed

theorem start_is_safe_witness:
  "\<exists>run w'. main_start sample_host (sample_world sample_db Map.empty) = (Inr run, w') \<and>
     ap_config (ru_app run) = sample_config \<and> sy_secure (ru_layer run)"
proof -
  obtain run w' where run: "main_start sample_host (sample_world sample_db Map.empty) = (Inr run, w')" by (rule sample_start)
  have "figment = ho_figment sample_host \<Longrightarrow> from_env figment = Inr c \<Longrightarrow> c = sample_config" for figment c
    using sample_config_loads by (simp add: from_env_def sample_host_def)
  with start_is_safe [OF run] have "ap_config (ru_app run) = sample_config" by (auto simp: Let_def)
  with start_is_safe [OF run] run show ?thesis by (auto simp: Let_def sample_config_def)
qed

end
