(* ===== verification/Recovery.thy ===== *)
theory Recovery
  imports Startup
begin

text \<open>
  The application over time: requests, turns of the workers and sweeps, from the start of the process
  (\<open>main.rs\<close>) on. Every job that is accepted has its id in the queue until a worker takes it, so
  that working off the queue leaves no job unfinished.
\<close>

section \<open>Jobs that are accounted for\<close>

definition accounted :: "('s, 'n, 'd) world \<Rightarrow> bool" where
  "accounted w \<longleftrightarrow> db_ok (wd_db w) \<and> length (wd_queue w) \<le> QUEUE_CAPACITY \<and>
     (\<forall>row \<in> set (jobs (wd_db w)). unfinished row \<longrightarrow> j_status row = ''queued'' \<and> j_id row \<in> set (wd_queue w))"

text \<open>Statements after which every row is one of before, perhaps hidden.\<close>

definition no_new_work :: "database \<Rightarrow> database \<Rightarrow> bool" where
  "no_new_work db db' \<longleftrightarrow> (\<forall>row' \<in> set (jobs db'). \<exists>row \<in> set (jobs db). j_id row = j_id row' \<and> j_status row = j_status row')"

lemma no_new_work_refl: "jobs db' = jobs db \<Longrightarrow> no_new_work db db'"
  by (auto simp: no_new_work_def)

lemma accounted_no_new_work:
  assumes "accounted w" and "no_new_work (wd_db w) (wd_db w')" and "db_ok (wd_db w')" and "wd_queue w' = wd_queue w"
  shows "accounted w'"
  using assms unfolding accounted_def no_new_work_def unfinished_def by metis

lemma keeps_accounted_pool:
  fixes app :: "('s, 'n, 'd, 'r) app"
  assumes "quiet app" and "\<And>now u. keeps db_ok (stmt now u)" and "\<And>now u db. no_new_work db (snd (stmt now u db))"
  shows "keeps accounted (on_pool app stmt)"
proof (rule keepsI)
  fix w :: "('s, 'n, 'd) world" assume w: "accounted w"
  obtain n now u where step: "on_pool app stmt w = (fst (stmt now u (wd_db w)), w\<lparr>wd_net := n, wd_db := snd (stmt now u (wd_db w))\<rparr>)"
    by (rule quiet_pool [OF assms(1)])
  have "db_ok (snd (stmt now u (wd_db w)))" using keepsD [OF assms(2)] w by (simp add: accounted_def)
  then show "accounted (snd (on_pool app stmt w))"
    using accounted_no_new_work [OF w, of "snd (on_pool app stmt w)"] assms(3) by (simp add: step)
qed

lemma keeps_accounted_elsewhere [keeps_intros]:
  "keeps accounted (in_the_net m)" "keeps accounted (in_the_session m')" "keeps accounted (new_v4 app)"
  "keeps accounted (with_key m'')" "keeps accounted (with_metadata m3)" "keeps accounted (now_utc app)"
  "keeps accounted (page_csrf_token app)"
  by (auto simp: keeps_def accounted_def world_defs page_csrf_token_def map_err_def split: prod.splits sum.splits)

lemma no_new_work_reads:
  "no_new_work db (snd (jobs_by_id_for_user i uid db))" "no_new_work db (snd (jobs_active_for_user uid db))"
  "no_new_work db (snd (jobs_count_last_hour now uid db))" "no_new_work db (snd (jobs_list filt uid db))"
  "no_new_work db (snd (jobs_count filt db))" "no_new_work db (snd (jobs_asset_paths i uid db))"
  "no_new_work db (snd (assets_for_job i db))" "no_new_work db (snd (assets_by_id_for_user a uid db))"
  "no_new_work db (snd (users_upsert_on_login now u oid email name db))" "no_new_work db (snd (audit_record inet_ok now entry db))"
  "no_new_work db (snd (assets_paths_older_than now d db))"
  by (auto intro!: no_new_work_refl simp: leaves_jobs assets_paths_older_than_def)

lemma no_new_work_update:
  assumes "\<And>r. j_id (f r) = j_id r" and "\<And>r. j_status (f r) = j_status r"
  shows "no_new_work db (snd (update_jobs P f db))"
  using assms by (auto simp: update_jobs_def Let_def no_new_work_def update_where_def)

lemma no_new_work_writes:
  "no_new_work db (snd (jobs_set_hidden i uid hidden db))" "no_new_work db (snd (jobs_delete_own i uid db))"
  "no_new_work db (snd (jobs_delete_older_than now d db))"
proof -
  show "no_new_work db (snd (jobs_set_hidden i uid hidden db))"
    using no_new_work_update [of "\<lambda>r. r\<lparr>j_hidden := hidden\<rparr>" db "\<lambda>r. j_id r = i \<and> j_user_id r = uid"]
    by (auto simp: jobs_set_hidden_def split: prod.split sum.split)
qed (auto simp: jobs_delete_own_def jobs_delete_older_than_def delete_jobs_def no_new_work_def Let_def)

lemmas no_new_work_statements = no_new_work_reads no_new_work_writes

section \<open>Requests keep account\<close>

lemma keeps_accounted_helpers [keeps_intros]:
  assumes "quiet app"
  shows "keeps accounted (local_user_id app u)" "keeps accounted (try_audit app entry)"
    "keeps accounted (upsert_user app u)" "keeps accounted (ratelimit_remaining app uid n)"
    "keeps accounted (the_current_user app)" "keeps accounted (read_csrf app)"
  unfolding handler_helper_defs the_current_user_def read_csrf_def Let_def
  by (intro keeps_intros keeps_accounted_pool assms no_new_work_statements)+

lemma keeps_accounted_sign_in:
  assumes "quiet app"
  shows "keeps accounted (login app rt)" "keeps accounted (callback app client query)" "keeps accounted (logout app client)"
  unfolding login_def callback_def logout_def establish_def record_sign_in_def record_sign_out_def record_audit_def remember_def Let_def
  by (intro keeps_intros assms)+

lemma keeps_accounted_pages:
  assumes "quiet app"
  shows "keeps accounted (index app uni render_card u)" "keeps accounted (history app uni u q)" "keeps accounted (archive app uni u q)"
  unfolding index_def history_def archive_def render_archive_def active_job_card_def card_for_def rate_limit_hint_def
    recent_generations_def Let_def
  by (intro keeps_intros keeps_accounted_pool assms no_new_work_statements)+

lemma keeps_accounted_reading:
  assumes "quiet app"
  shows "keeps accounted (job_status_handler app u i)" "keeps accounted (job_card_handler app u i)"
    "keeps accounted (job_events app u i)" "keeps accounted (asset_link app client u i n)"
  unfolding job_status_handler_def job_card_handler_def job_events_def asset_link_def load_own_job_def card_for_def the_read_url_def
  by (intro keeps_intros keeps_accounted_pool assms no_new_work_statements)+

lemma keeps_accounted_discard [keeps_intros]: "keeps accounted (discard_files app paths)"
  by (induction paths) (auto simp: delete_file_def intro!: keeps_intros)

lemma keeps_accounted_own:
  assumes "quiet app"
  shows "keeps accounted (set_visibility app u i hidden)" "keeps accounted (delete_job app client u i)"
  unfolding set_visibility_def delete_job_def pool_delete_for_user_def
  by (intro keeps_intros keeps_accounted_pool assms no_new_work_statements)+

lemma keeps_accounted_generate:
  fixes app :: "('s, 'n, 'd, 'r) app"
  assumes quiet: "quiet app"
  shows "keeps accounted (generate app lower client u parts)"
proof (rule keepsI)
  fix w :: "('s, 'n, 'd) world" assume w: "accounted w"
  obtain r w' where run: "generate app lower client u parts w = (r, w')" by fastforce
  have ok: "db_ok (wd_db w)" using w by (simp add: accounted_def)
  have "accounted w'"
  proof (cases rule: generate_quiet [OF quiet ok run])
    case (1 e w1)
    then show ?thesis using w by (simp add: accounted_def rest_kept_def aside_def)
  next
    case (2 uid new w1)
    note sub = submission_quiet [OF quiet 2(2) [unfolded aside_def] 2(5)]
    show ?thesis
    proof (cases r)
      case (Inl e)
      then show ?thesis using sub w by (simp add: accounted_def rest_kept_def aside_def)
    next
      case (Inr shown)
      have st: "j_status (queued_row now fresh new) = ''queued''" "\<not> unfinished (finished_row t (Failed c m) row)" for now fresh t c m row
        by (simp_all add: queued_row_def unfinished_def finished_row_def)
      obtain row q where rest: "rest_kept ((wd_db w)\<lparr>jobs := jobs (wd_db w) @ [row]\<rparr>) (q, wd_events w) w'"
        and row: "unfinished row \<longrightarrow> j_status row = ''queued'' \<and> j_id row \<in> set q"
        and q: "set (wd_queue w) \<subseteq> set q" "length q \<le> QUEUE_CAPACITY"
      proof (cases "length (wd_queue w) < QUEUE_CAPACITY")
        case True
        with sub Inr obtain now fresh where "rest_kept ((wd_db w)\<lparr>jobs := jobs (wd_db w) @ [queued_row now fresh new]\<rparr>)
            (wd_queue w @ [fresh], wd_events w) w'" by auto
        then show ?thesis by (rule that) (use True in \<open>auto simp: st\<close>)
      next
        case False
        with sub Inr obtain t row where "rest_kept ((wd_db w)\<lparr>jobs := jobs (wd_db w) @
            [finished_row t (Failed RateLimited ERR_QUEUE_FULL) row]\<rparr>) (wd_queue w, wd_events w) w'" by auto
        then show ?thesis by (rule that) (use w in \<open>simp_all add: st accounted_def\<close>)
      qed
      show ?thesis using rest row q w by (auto simp: accounted_def rest_kept_def aside_def)
    qed
  qed
  then show "accounted (snd (generate app lower client u parts w))" by (simp add: run)
qed


lemma endpoint_keeps_account:
  fixes app :: "('s, 'n, 'd, 'r) app"
  assumes "quiet app"
  shows "service_keeps accounted (run_endpoint app fw e)"
proof (rule service_keepsI)
  fix req and w :: "('s, 'n, 'd) world" assume w: "accounted w"
  show "accounted (snd (run_endpoint app fw e req w))"
    using w
    by (cases e)
       (auto simp: with_both_def with_session_def with_user_def extract_then_def
         intro!: keeps_respond keeps_accounted_sign_in keeps_accounted_pages keeps_accounted_reading keeps_accounted_own
           keeps_accounted_generate assms
         split: option.split sum.split)
qed

lemma application_keeps_account:
  fixes app :: "('s, 'n, 'd, 'r) app"
  assumes "quiet app" and "framework_keeps accounted fw"
  shows "service_keeps accounted (build_router app fw)"
  by (rule service_keeps_build_router [OF endpoint_keeps_account [OF assms(1)] assms(2) keeps_accounted_helpers(5,6) [OF assms(1)]])
     (simp add: fresh_id_def accounted_def split_def Let_def)

section \<open>Workers and sweeps keep account\<close>

lemma accounted_rows:
  assumes "db_ok (wd_db w)" and "length (wd_queue w) \<le> QUEUE_CAPACITY"
  shows "accounted w \<longleftrightarrow> (\<forall>i row. job_table (wd_db w) i = Some row \<longrightarrow> unfinished row \<longrightarrow> j_status row = ''queued'' \<and> i \<in> set (wd_queue w))"
  using row_by_iff [OF db_okD(3) [OF assms(1)]] assms unfolding accounted_def by auto

lemma without_provider_id_status: "without_provider_id r = without_provider_id s \<Longrightarrow> j_status r = j_status s"
  by (cases r; cases s) (simp add: without_provider_id_def)

lemma process_keeps_account:
  fixes app :: "('s, 'n, 'd, 'r) app"
  assumes quiet: "quiet app" and queue: "wd_queue w = jid # rest" and w: "accounted w"
    and run: "process app jid (w\<lparr>wd_queue := rest\<rparr>) = (r, w')"
  shows "accounted w' \<and> wd_queue w' = rest \<and> dom (job_table (wd_db w')) = dom (job_table (wd_db w))"
proof -
  let ?w = "w\<lparr>wd_queue := rest\<rparr>"
  have ok: "db_ok (wd_db ?w)" and len: "length (jid # rest) \<le> QUEUE_CAPACITY" using w queue by (simp_all add: accounted_def)
  have rows: "unfinished row \<Longrightarrow> job_table (wd_db w) i = Some row \<Longrightarrow> j_status row = ''queued'' \<and> i \<in> set (jid # rest)" for i row
    using w accounted_rows [of w] ok len queue by simp
  show ?thesis
  proof (cases "\<exists>row. job_table (wd_db ?w) jid = Some row \<and> j_status row = ''queued''")
    case False
    then have skip: "wd_db w' = wd_db w" "wd_queue w' = rest"
      using process_skips [OF quiet ok, of jid] run by (auto simp: aside_def)
    moreover have "i \<in> set rest" if "job_table (wd_db w) i = Some row" "unfinished row" for i row
      using rows [OF that(2,1)] False that by auto
    ultimately show ?thesis using rows ok len by (subst accounted_rows) auto
  next
    case True
    then obtain row where row: "job_table (wd_db ?w) jid = Some row" "j_status row = ''queued''" by blast
    obtain status row' where st: "status = Succeeded \<or> (\<exists>code message. status = Failed code message)"
      and new: "db_ok (wd_db w')" "job_table (wd_db w') jid = Some row'" "row_status row' = status" "wd_queue w' = rest"
      and others: "\<And>i. i \<noteq> jid \<Longrightarrow> map_option without_provider_id (job_table (wd_db w') i) = map_option without_provider_id (job_table (wd_db w) i)"
      by (rule process_quiet [OF quiet ok row run]) (auto simp: ran_to_def)
    have ended: "\<not> unfinished row'" using st row_status_terminal [of row'] new(3) by auto
    have "j_status r' = ''queued'' \<and> i \<in> set rest" if r': "job_table (wd_db w') i = Some r'" "unfinished r'" for i r'
    proof -
      have i: "i \<noteq> jid" using r' new(2) ended by auto
      then obtain r0 where r0: "job_table (wd_db w) i = Some r0" "without_provider_id r0 = without_provider_id r'"
        using others [OF i] r'(1) by (cases "job_table (wd_db w) i") auto
      have st: "j_status r0 = j_status r'" using without_provider_id_status [OF r0(2)] .
      then have "unfinished r0" using r'(2) by (simp only: unfinished_def)
      from rows [OF this r0(1)] show ?thesis unfolding st set_simps using i by blast
    qed
    then have kept: "accounted w'" using accounted_rows [OF new(1)] new(4) len by simp
    have dom: "i \<in> dom (job_table (wd_db w')) \<longleftrightarrow> i \<in> dom (job_table (wd_db w))" for i
      using others [of i] new(2) row(1) by (cases "i = jid"; cases "job_table (wd_db w') i"; cases "job_table (wd_db w) i") auto
    show ?thesis by (intro conjI kept new(4) set_eqI dom)
  qed
qed

lemma keeps_accounted_sweep:
  assumes "quiet app"
  shows "keeps accounted (sweep app retention_days)"
  unfolding sweep_def
  by (intro keeps_intros keeps_accounted_pool assms no_new_work_statements) (auto simp: delete_file_def intro: keeps_intros)

section \<open>Working off the queue\<close>

definition after_turns :: "('s, 'n, 'd, 'r) app \<Rightarrow> nat \<Rightarrow> ('s, 'n, 'd) world \<Rightarrow> ('s, 'n, 'd) world" where
  "after_turns app n = (\<lambda>w. snd (worker_turn app w)) ^^ n"

lemma turn_keeps_account:
  assumes "quiet app" and "accounted w"
  shows "accounted (snd (worker_turn app w)) \<and> wd_queue (snd (worker_turn app w)) = tl (wd_queue w) \<and>
    dom (job_table (wd_db (snd (worker_turn app w)))) = dom (job_table (wd_db w))"
proof (cases "wd_queue w")
  case Nil
  then show ?thesis using assms(2) by (simp add: worker_turn_def succeed_def)
next
  case (Cons jid rest)
  obtain r w' where run: "process app jid (w\<lparr>wd_queue := rest\<rparr>) = (r, w')" by fastforce
  then have "worker_turn app w = (r, w')" using Cons by (simp add: worker_turn_def)
  then show ?thesis using process_keeps_account [OF assms(1) Cons assms(2) run] Cons by simp
qed

lemma after_turns_keep_account:
  assumes "quiet app" and "accounted w"
  shows "accounted (after_turns app n w) \<and> wd_queue (after_turns app n w) = drop n (wd_queue w) \<and>
    dom (job_table (wd_db (after_turns app n w))) = dom (job_table (wd_db w))"
proof (induction n)
  case (Suc n)
  then show ?case
    using turn_keeps_account [OF assms(1), of "after_turns app n w"] by (simp add: after_turns_def drop_Suc tl_drop)
qed (simp add: after_turns_def assms)

lemma worked_off:
  assumes "quiet app" and "accounted w"
  shows "let w' = after_turns app QUEUE_CAPACITY w in wd_queue w' = [] \<and>
    list_all (\<lambda>row. is_terminal (row_status row)) (jobs (wd_db w')) \<and> dom (job_table (wd_db w')) = dom (job_table (wd_db w))"
  using after_turns_keep_account [OF assms, of QUEUE_CAPACITY] assms(2)
  by (auto simp: Let_def accounted_def list_all_iff row_status_terminal)

section \<open>The running application\<close>

text \<open>
  One step of the life of a process: a request with the session of its cookie, a turn of a worker, a
  sweep where retention is enabled, or something outside the process.
\<close>

inductive app_step ::
  "('s, 'n, 'd, 'r, 'p, 'k) running \<Rightarrow> ('s, 'n, 'd) world \<Rightarrow> ('s, 'n, 'd) world \<Rightarrow> bool" for run where
  request: "app_step run w (snd (served run peer req (w\<lparr>wd_session := s\<rparr>)))"
| turn: "app_step run w (snd (worker_turn (ru_app run) w))"
| swept: "cf_retention_days (ap_config (ru_app run)) \<noteq> 0 \<Longrightarrow>
    app_step run w (snd (sweep (ru_app run) (cf_retention_days (ap_config (ru_app run))) w))"
| outside: "app_step run w (w\<lparr>wd_net := n\<rparr>)"

inductive_simps app_step_iff: "app_step run w w'"

lemma step_keeps_account:
  fixes run :: "('s, 'n, 'd, 'r, 'p, 'k) running"
  assumes quiet: "quiet (ru_app run)" and fw: "framework_keeps accounted (ru_framework run)"
    and step: "app_step run w w'" and w: "accounted w"
  shows "accounted w'"
  using step
proof cases
  case (request peer req s)
  have "accounted (w\<lparr>wd_session := s\<rparr>)" using w by (simp add: accounted_def)
  then show ?thesis
    using service_keepsD [OF application_keeps_account [OF quiet fw]] by (simp add: request served_def)
next
  case turn
  then show ?thesis using turn_keeps_account [OF quiet w] by simp
next
  case swept
  then show ?thesis using keepsD [OF keeps_accounted_sweep [OF quiet] w] by simp
next
  case (outside n)
  then show ?thesis using w by (simp add: accounted_def)
qed

lemma steps_keep_account:
  fixes run :: "('s, 'n, 'd, 'r, 'p, 'k) running"
  assumes "(app_step run)\<^sup>*\<^sup>* w w'" and "quiet (ru_app run)" and "framework_keeps accounted (ru_framework run)" and "accounted w"
  shows "accounted w'"
  using assms by (induction rule: rtranclp_induct) (auto intro: step_keeps_account)

lemma started_accounted:
  fixes host :: "('s, 'n, 'd, 'r, 'p, 'f, 'c, 'h, 'k) host"
  assumes start: "main_start host w = (Inr run, w')" and quiet: "quiet (ho_runtime host)"
    and tables: "\<And>n db n'. ho_migrate host n = (Inr db, n') \<Longrightarrow> db_ok db"
  shows "accounted w' \<and> quiet (ru_app run) \<and> (\<exists>kind. ru_framework run = ho_framework host kind (ru_layer run))"
  using start
proof (cases rule: started)
  case (1 config providers blobs n n' db w2 n3)
  have "quiet (ru_app run)"
    using state_built [OF 1(4)] quiet by (auto simp: app_of_def quiet_def)
  moreover have "accounted w'"
    using fail_orphans_quiet [OF quiet _ 1(7)] tables [OF 1(6)] by (auto simp: 1(8) accounted_def)
  ultimately show ?thesis using 1(5) by blast
qed



end
