(* ===== verification/Concurrency.thy ===== *)
theory Concurrency
  imports Api
begin

text \<open>
  Requests and the four workers of \<open>jobs.rs\<close> running at the same time. Between two statements of one
  of them any other may go on, connections may be lost and handlers may be cut short; the relation
  \<open>floor_step\<close> has a step for every statement, hand-over and announcement of \<open>generate\<close>,
  \<open>queue_or_fail\<close> and \<open>process\<close>, and one for every other statement of the program.
\<close>

section \<open>Statuses as a map\<close>

definition status_of :: "database \<Rightarrow> uuid \<Rightarrow> job_status option" where
  "status_of db jid = map_option row_status (job_table db jid)"

lemma row_ok_in_table: "db_ok db \<Longrightarrow> job_table db jid = Some r \<Longrightarrow> job_row_ok r"
  by (auto dest: row_by_SomeD db_okD(5))

lemma status_of_update:
  assumes "\<And>r. j_id (f r) = j_id r"
  shows "status_of (db\<lparr>jobs := update_where (\<lambda>r. j_id r = jid \<and> Q r) f (jobs db)\<rparr>) = (case job_table db jid of
     Some r \<Rightarrow> if Q r then (status_of db)(jid \<mapsto> row_status (f r)) else status_of db | None \<Rightarrow> status_of db)"
proof (rule ext)
  fix i
  have "j_id r = i" if "job_table db i = Some r" for r using row_by_SomeD [OF that] by simp
  then show "status_of (db\<lparr>jobs := update_where (\<lambda>r. j_id r = jid \<and> Q r) f (jobs db)\<rparr>) i = (case job_table db jid of
     Some r \<Rightarrow> if Q r then (status_of db)(jid \<mapsto> row_status (f r)) else status_of db | None \<Rightarrow> status_of db) i"
    using assms by (cases "job_table db i"; cases "i = jid") (auto simp: status_of_def row_by_update_where split: option.split)
qed

lemma mark_running_status:
  assumes "db_ok db" and "jobs_mark_running now jid db = (res, db')"
  shows "db_ok db'" and "case res of
     Inr j \<Rightarrow> job_id j = jid \<and> status_of db jid = Some Queued \<and> status_of db' = (status_of db)(jid \<mapsto> Running)
   | Inl _ \<Rightarrow> status_of db jid \<noteq> Some Queued \<and> db' = db"
proof -
  show "db_ok db'" using keepsD [OF keeps_jobs_updates(1) assms(1), of now jid] assms(2) by simp
  have running: "row_status (started_row now r) = Running" for r by (simp add: started_row_def row_status_def from_columns_def)
  show "case res of
     Inr j \<Rightarrow> job_id j = jid \<and> status_of db jid = Some Queued \<and> status_of db' = (status_of db)(jid \<mapsto> Running)
   | Inl _ \<Rightarrow> status_of db jid \<noteq> Some Queued \<and> db' = db"
  proof (cases "job_table db jid")
    case None
    then show ?thesis using assms by (auto simp: jobs_mark_running_eq status_of_def)
  next
    case (Some r)
    then show ?thesis
      using assms row_by_SomeD [OF Some] row_status_Queued [OF row_ok_in_table [OF assms(1) Some]]
        status_of_update [of "started_row now" jid "\<lambda>r. j_status r = ''queued''" db]
      by (auto simp: jobs_mark_running_eq status_of_def running split: if_splits)
  qed
qed

lemma finish_status:
  assumes "db_ok db" and "jobs_finish now jid s db = (res, db')"
  shows "db_ok db'" and "case res of
     Inr j \<Rightarrow> (\<exists>t. status_of db jid = Some t \<and> \<not> is_terminal t) \<and> status_of db' = (status_of db)(jid \<mapsto> s)
   | Inl _ \<Rightarrow> (\<forall>t. status_of db jid = Some t \<longrightarrow> is_terminal t) \<and> db' = db"
proof -
  show "db_ok db'" using keepsD [OF keeps_jobs_updates(2) assms(1), of now jid s] assms(2) by simp
  show "case res of
     Inr j \<Rightarrow> (\<exists>t. status_of db jid = Some t \<and> \<not> is_terminal t) \<and> status_of db' = (status_of db)(jid \<mapsto> s)
   | Inl _ \<Rightarrow> (\<forall>t. status_of db jid = Some t \<longrightarrow> is_terminal t) \<and> db' = db"
  proof (cases "job_table db jid")
    case None
    then show ?thesis using assms by (auto simp: jobs_finish_eq status_of_def)
  next
    case (Some r)
    then show ?thesis
      using assms row_by_SomeD [OF Some] status_of_update [of "finished_row now s" jid unfinished db]
      by (auto simp: jobs_finish_eq status_of_def row_status_terminal split: if_splits)
  qed
qed

lemma create_status:
  assumes "db_ok db" and "jobs_create now fresh new db = (res, db')"
  shows "db_ok db'" and "case res of
     Inr j \<Rightarrow> job_id j = fresh \<and> status_of db fresh = None \<and> status_of db' = (status_of db)(fresh \<mapsto> Queued)
   | Inl _ \<Rightarrow> db' = db"
proof -
  show "db_ok db'" using keepsD [OF keeps_jobs_create assms(1), of now fresh new] assms(2) by simp
  have added: "status_of (db\<lparr>jobs := jobs db @ [row]\<rparr>) = (status_of db)(j_id row \<mapsto> row_status row)" if "j_id row \<notin> j_id ` set (jobs db)" for row
    using that row_by_None [of j_id "jobs db" "j_id row"]
    by (auto simp: fun_eq_iff status_of_def row_by_append split: option.split)
  have queued: "row_status row = Queued" if "j_status row = ''queued''" for row
    using that by (simp add: row_status_def from_columns_def)
  show "case res of
     Inr j \<Rightarrow> job_id j = fresh \<and> status_of db fresh = None \<and> status_of db' = (status_of db)(fresh \<mapsto> Queued)
   | Inl _ \<Rightarrow> db' = db"
    using assms(2) row_by_None [of j_id "jobs db" fresh]
    by (auto simp: jobs_create_def Let_def added queued status_of_def split: if_splits)
qed

text \<open>Every other statement leaves the statuses alone, or removes rows.\<close>

inductive other_step :: "(string \<Rightarrow> bool) \<Rightarrow> database \<Rightarrow> database \<Rightarrow> bool" for inet_ok where
  "other_step inet_ok db (snd (jobs_set_provider_job_id jid s db))"
| "other_step inet_ok db (snd (jobs_delete_older_than now n db))"
| "other_step inet_ok db (snd (jobs_set_hidden jid uid hidden db))"
| "other_step inet_ok db (snd (jobs_delete_own jid uid db))"
| "other_step inet_ok db (snd (assets_create now fresh asset db))"
| "other_step inet_ok db (snd (users_upsert_on_login now fresh oid email name db))"
| "other_step inet_ok db (snd (audit_record inet_ok now entry db))"

lemma other_step_db_step: "other_step inet_ok db db' \<Longrightarrow> db_step inet_ok db db'"
  by (induction rule: other_step.induct) (auto intro: db_step.intros)

lemma other_step_ok: "other_step inet_ok db db' \<Longrightarrow> db_ok db \<Longrightarrow> db_ok db'"
  using db_step_ok other_step_db_step by blast

lemma update_keeps_status:
  assumes "\<And>r. j_id (f r) = j_id r" and "\<And>r. row_status (f r) = row_status r" and "update_jobs P f db = (res, db')"
  shows "status_of db' = status_of db"
proof (rule ext)
  fix i show "status_of db' i = status_of db i"
    using assms by (cases "job_table db i") (auto simp: update_jobs_def Let_def status_of_def row_by_update_where split: if_splits)
qed

lemma delete_keeps_status: "db_ok db \<Longrightarrow> status_of (delete_jobs P db) \<subseteq>\<^sub>m status_of db"
  by (auto simp: map_le_def status_of_def delete_jobs_def Let_def dom_def row_by_filter [OF db_okD(3)] split: option.splits if_splits)

lemma other_step_status:
  assumes "other_step inet_ok db db'" and "db_ok db"
  shows "status_of db' \<subseteq>\<^sub>m status_of db"
  using assms
proof (induction rule: other_step.induct)
  case (1 db jid s)
  have st: "row_status (r\<lparr>j_provider_job_id := x\<rparr>) = row_status r" for r x by (simp add: row_status_def)
  show ?case
    by (auto simp: jobs_set_provider_job_id_def st split: prod.split sum.split dest!: update_keeps_status [rotated 2])
next
  case (3 db jid uid hidden)
  have st: "row_status (r\<lparr>j_hidden := x\<rparr>) = row_status r" for r x by (simp add: row_status_def)
  show ?case
    by (auto simp: jobs_set_hidden_def st split: prod.split sum.split dest!: update_keeps_status [rotated 2])
next
  case (5 db now fresh asset)
  then show ?case by (auto simp: assets_create_def Let_def status_of_def)
next
  case (6 db now fresh oid email name)
  then show ?case by (auto simp: users_upsert_on_login_def Let_def status_of_def split: option.split)
next
  case (7 db now entry)
  then show ?case by (auto simp: audit_record_def Let_def status_of_def)
qed (auto simp: jobs_delete_older_than_def jobs_delete_own_def Let_def delete_keeps_status)

section \<open>Workers, requests, queue\<close>

text \<open>
  Where a worker is in the loop of \<open>Jobs::spawn\<close> and in \<open>process\<close>: waiting for an id, about to claim a
  row, about to announce that it runs, generating and storing, about to write the outcome, about to
  announce it.
\<close>

datatype worker_phase =
    Idle
  | Claiming uuid
  | Announcing job
  | Working job
  | Finishing uuid job_status
  | Reporting uuid job_status

fun phase_job :: "worker_phase \<Rightarrow> uuid option" where
  "phase_job Idle = None"
| "phase_job (Claiming jid) = Some jid"
| "phase_job (Announcing j) = Some (job_id j)"
| "phase_job (Working j) = Some (job_id j)"
| "phase_job (Finishing jid _) = Some jid"
| "phase_job (Reporting jid _) = Some jid"

text \<open>
  \<open>fl_submitting\<close> are the jobs whose request has inserted the row and not yet queued the id.
\<close>

record floor_state =
  fl_db :: database
  fl_queue :: "uuid list"
  fl_events :: "(uuid \<times> job_status) list"
  fl_workers :: "nat \<Rightarrow> worker_phase"
  fl_submitting :: "uuid list"

definition announced :: "floor_state \<Rightarrow> uuid \<Rightarrow> job_status list" where
  "announced s jid = map snd (filter (\<lambda>e. fst e = jid) (fl_events s))"

text \<open>A random id is one that has not been used before.\<close>

definition never_used :: "floor_state \<Rightarrow> uuid \<Rightarrow> bool" where
  "never_used s jid \<longleftrightarrow> jid \<notin> set (fl_submitting s) \<and> jid \<notin> set (fl_queue s) \<and> (\<forall>i. phase_job (fl_workers s i) \<noteq> Some jid) \<and>
     announced s jid = []"

definition ends_as :: "job_status \<Rightarrow> bool" where
  "ends_as status \<longleftrightarrow> status = Succeeded \<or> (\<exists>code message. status = Failed code message)"

lemma ends_as_terminal: "ends_as status \<Longrightarrow> is_terminal status"
  by (auto simp: ends_as_def)

section \<open>Steps\<close>

text \<open>What workers and pending requests do when nothing is lost.\<close>

inductive own_step :: "floor_state \<Rightarrow> floor_state \<Rightarrow> bool" where
  queue_job: "jid \<in> set (fl_submitting s) \<Longrightarrow> length (fl_queue s) < QUEUE_CAPACITY \<Longrightarrow>
    own_step s (s\<lparr>fl_queue := fl_queue s @ [jid], fl_submitting := remove1 jid (fl_submitting s)\<rparr>)"
| refuse: "jid \<in> set (fl_submitting s) \<Longrightarrow> \<not> length (fl_queue s) < QUEUE_CAPACITY \<Longrightarrow>
    own_step s (s\<lparr>fl_db := snd (jobs_finish now jid (Failed RateLimited ERR_QUEUE_FULL) (fl_db s)),
      fl_submitting := remove1 jid (fl_submitting s)\<rparr>)"
| receive: "i < WORKER_COUNT \<Longrightarrow> fl_workers s i = Idle \<Longrightarrow> fl_queue s = jid # rest \<Longrightarrow>
    own_step s (s\<lparr>fl_queue := rest, fl_workers := (fl_workers s)(i := Claiming jid)\<rparr>)"
| claim: "fl_workers s i = Claiming jid \<Longrightarrow> jobs_mark_running now jid (fl_db s) = (Inr j, db') \<Longrightarrow>
    own_step s (s\<lparr>fl_db := db', fl_workers := (fl_workers s)(i := Announcing j)\<rparr>)"
| skip: "fl_workers s i = Claiming jid \<Longrightarrow> jobs_mark_running now jid (fl_db s) = (Inl e, db') \<Longrightarrow>
    own_step s (s\<lparr>fl_db := db', fl_workers := (fl_workers s)(i := Idle)\<rparr>)"
| announce: "fl_workers s i = Announcing j \<Longrightarrow>
    own_step s (s\<lparr>fl_events := fl_events s @ [(job_id j, Running)], fl_workers := (fl_workers s)(i := Working j)\<rparr>)"
| generated: "fl_workers s i = Working j \<Longrightarrow> ends_as status \<Longrightarrow>
    own_step s (s\<lparr>fl_workers := (fl_workers s)(i := Finishing (job_id j) status)\<rparr>)"
| finish: "fl_workers s i = Finishing jid status \<Longrightarrow> jobs_finish now jid status (fl_db s) = (Inr j, db') \<Longrightarrow>
    own_step s (s\<lparr>fl_db := db', fl_workers := (fl_workers s)(i := Reporting jid status)\<rparr>)"
| gone: "fl_workers s i = Finishing jid status \<Longrightarrow> jobs_finish now jid status (fl_db s) = (Inl e, db') \<Longrightarrow>
    own_step s (s\<lparr>fl_db := db', fl_workers := (fl_workers s)(i := Idle)\<rparr>)"
| report: "fl_workers s i = Reporting jid status \<Longrightarrow>
    own_step s (s\<lparr>fl_events := fl_events s @ [(jid, status)], fl_workers := (fl_workers s)(i := Idle)\<rparr>)"

text \<open>
  What can go wrong: the reply of the insert is lost, a handler is cut short (by its timeout, or the
  client going away) before it has queued the id, a worker does not hear whether it has claimed or
  finished a row.
\<close>

inductive lossy_step :: "floor_state \<Rightarrow> floor_state \<Rightarrow> bool" where
  insert_lost: "never_used s fresh \<Longrightarrow> lossy_step s (s\<lparr>fl_db := snd (jobs_create now fresh new (fl_db s))\<rparr>)"
| cut_short: "jid \<in> set (fl_submitting s) \<Longrightarrow> lossy_step s (s\<lparr>fl_submitting := remove1 jid (fl_submitting s)\<rparr>)"
| claim_lost: "fl_workers s i = Claiming jid \<Longrightarrow> db' \<in> {fl_db s, snd (jobs_mark_running now jid (fl_db s))} \<Longrightarrow>
    lossy_step s (s\<lparr>fl_db := db', fl_workers := (fl_workers s)(i := Idle)\<rparr>)"
| finish_lost: "fl_workers s i = Finishing jid status \<Longrightarrow> db' \<in> {fl_db s, snd (jobs_finish now jid status (fl_db s))} \<Longrightarrow>
    lossy_step s (s\<lparr>fl_db := db', fl_workers := (fl_workers s)(i := Idle)\<rparr>)"

inductive floor_step :: "(string \<Rightarrow> bool) \<Rightarrow> bool \<Rightarrow> floor_state \<Rightarrow> floor_state \<Rightarrow> bool" for inet_ok lossy where
  submit: "never_used s fresh \<Longrightarrow> jobs_create now fresh new (fl_db s) = (Inr j, db') \<Longrightarrow>
    floor_step inet_ok lossy s (s\<lparr>fl_db := db', fl_submitting := fl_submitting s @ [job_id j]\<rparr>)"
| own: "own_step s s' \<Longrightarrow> floor_step inet_ok lossy s s'"
| other: "other_step inet_ok (fl_db s) db' \<Longrightarrow> floor_step inet_ok lossy s (s\<lparr>fl_db := db'\<rparr>)"
| loss: "lossy \<Longrightarrow> lossy_step s s' \<Longrightarrow> floor_step inet_ok lossy s s'"

text \<open>A process begins after the sweep of interrupted jobs, with an empty queue.\<close>

definition floor_start :: "floor_state \<Rightarrow> bool" where
  "floor_start s \<longleftrightarrow> db_ok (fl_db s) \<and> (\<forall>jid t. status_of (fl_db s) jid = Some t \<longrightarrow> is_terminal t) \<and>
     fl_queue s = [] \<and> fl_events s = [] \<and> (\<forall>i. fl_workers s i = Idle) \<and> fl_submitting s = []"

section \<open>The invariant\<close>

text \<open>
  Every id is in one place only; what has been announced of it and the status of its row, if that
  still exists, are those of the place. Without losses every unfinished row is in some place.
\<close>

definition waits :: "floor_state \<Rightarrow> uuid \<Rightarrow> bool" where
  "waits s jid \<longleftrightarrow> announced s jid = [] \<and> status_of (fl_db s) jid \<in> {None, Some Queued}"

fun phase_ok :: "floor_state \<Rightarrow> worker_phase \<Rightarrow> bool" where
  "phase_ok s Idle \<longleftrightarrow> True"
| "phase_ok s (Claiming jid) \<longleftrightarrow> waits s jid"
| "phase_ok s (Announcing j) \<longleftrightarrow> announced s (job_id j) = [] \<and> status_of (fl_db s) (job_id j) \<in> {None, Some Running}"
| "phase_ok s (Working j) \<longleftrightarrow> announced s (job_id j) = [Running] \<and> status_of (fl_db s) (job_id j) \<in> {None, Some Running}"
| "phase_ok s (Finishing jid t) \<longleftrightarrow> ends_as t \<and> announced s jid = [Running] \<and> status_of (fl_db s) jid \<in> {None, Some Running}"
| "phase_ok s (Reporting jid t) \<longleftrightarrow> ends_as t \<and> announced s jid = [Running] \<and> status_of (fl_db s) jid \<in> {None, Some t}"

definition told :: "floor_state \<Rightarrow> uuid \<Rightarrow> bool" where
  "told s jid \<longleftrightarrow> announced s jid = [] \<or> announced s jid = [Running] \<or>
     (\<exists>t. ends_as t \<and> announced s jid = [Running, t] \<and> status_of (fl_db s) jid \<in> {None, Some t})"

definition placed :: "floor_state \<Rightarrow> uuid \<Rightarrow> bool" where
  "placed s jid \<longleftrightarrow> jid \<in> set (fl_submitting s) \<or> jid \<in> set (fl_queue s) \<or> (\<exists>i. phase_job (fl_workers s i) = Some jid)"

definition one_place :: "floor_state \<Rightarrow> bool" where
  "one_place s \<longleftrightarrow> distinct (fl_submitting s @ fl_queue s) \<and>
     (\<forall>i k jid. phase_job (fl_workers s i) = Some jid \<longrightarrow> phase_job (fl_workers s k) = Some jid \<longrightarrow> i = k) \<and>
     (\<forall>i jid. phase_job (fl_workers s i) = Some jid \<longrightarrow> jid \<notin> set (fl_submitting s) \<and> jid \<notin> set (fl_queue s)) \<and>
     (\<forall>i. fl_workers s i \<noteq> Idle \<longrightarrow> i < WORKER_COUNT)"

definition floor_ok :: "bool \<Rightarrow> floor_state \<Rightarrow> bool" where
  "floor_ok lossy s \<longleftrightarrow> db_ok (fl_db s) \<and> one_place s \<and> (\<forall>jid \<in> set (fl_submitting s @ fl_queue s). waits s jid) \<and>
     (\<forall>i. phase_ok s (fl_workers s i)) \<and> (\<forall>jid. told s jid) \<and>
     (lossy \<or> (\<forall>jid t. status_of (fl_db s) jid = Some t \<longrightarrow> \<not> is_terminal t \<longrightarrow> placed s jid))"

lemma floor_start_ok: "floor_start s \<Longrightarrow> floor_ok lossy s"
  by (auto simp: floor_start_def floor_ok_def one_place_def told_def announced_def)

text \<open>What one id sees of a step that is about another.\<close>

lemma announced_simps [simp]:
  "announced (s\<lparr>fl_db := db\<rparr>) jid = announced s jid" "announced (s\<lparr>fl_queue := q\<rparr>) jid = announced s jid"
  "announced (s\<lparr>fl_workers := ws\<rparr>) jid = announced s jid" "announced (s\<lparr>fl_submitting := sub\<rparr>) jid = announced s jid"
  "announced (s\<lparr>fl_events := fl_events s @ [(jid', t)]\<rparr>) jid = announced s jid @ (if jid' = jid then [t] else [])"
  by (simp_all add: announced_def)

lemma phase_ok_elsewhere:
  assumes "phase_ok s p" and "\<And>jid. phase_job p = Some jid \<Longrightarrow> announced s' jid = announced s jid"
    and "\<And>jid. phase_job p = Some jid \<Longrightarrow> status_of (fl_db s') jid \<in> {None, status_of (fl_db s) jid}"
  shows "phase_ok s' p"
  using assms by (cases p) (auto simp: waits_def)

lemma waits_elsewhere:
  assumes "waits s jid" and "announced s' jid = announced s jid" and "status_of (fl_db s') jid \<in> {None, status_of (fl_db s) jid}"
  shows "waits s' jid"
  using assms by (auto simp: waits_def)

lemma told_elsewhere:
  assumes "told s jid" and "announced s' jid = announced s jid" and "status_of (fl_db s') jid \<in> {None, status_of (fl_db s) jid}"
  shows "told s' jid"
  using assms by (auto simp: told_def)

lemmas elsewhere = phase_ok_elsewhere waits_elsewhere told_elsewhere

lemma unaffected [simp]:
  "waits (s\<lparr>fl_queue := q\<rparr>) jid = waits s jid" "waits (s\<lparr>fl_workers := ws\<rparr>) jid = waits s jid"
  "waits (s\<lparr>fl_submitting := sub\<rparr>) jid = waits s jid" "told (s\<lparr>fl_queue := q\<rparr>) jid = told s jid"
  "told (s\<lparr>fl_workers := ws\<rparr>) jid = told s jid" "told (s\<lparr>fl_submitting := sub\<rparr>) jid = told s jid"
  by (simp_all add: waits_def told_def)

lemma unaffected_phase [simp]:
  "phase_ok (s\<lparr>fl_queue := q\<rparr>) p = phase_ok s p" "phase_ok (s\<lparr>fl_workers := ws\<rparr>) p = phase_ok s p"
  "phase_ok (s\<lparr>fl_submitting := sub\<rparr>) p = phase_ok s p"
  by (cases p; simp)+

text \<open>A worker goes on with its job: nothing is seen of it by other jobs.\<close>

lemma one_place_worker:
  assumes "one_place s" and "phase_job (fl_workers s i) = Some x" and "phase_job p \<in> {None, Some x}"
    and "fl_queue s' = fl_queue s" and "fl_submitting s' = fl_submitting s" and "fl_workers s' = (fl_workers s)(i := p)"
  shows "one_place s'"
proof -
  have "i < WORKER_COUNT" using assms(1,2) by (cases "fl_workers s i") (auto simp: one_place_def)
  then show ?thesis using assms unfolding one_place_def by (auto split: if_splits)
qed

lemma worker_moves:
  assumes ok: "floor_ok lossy s" and old: "phase_job (fl_workers s i) = Some x"
    and same: "fl_queue s' = fl_queue s" "fl_submitting s' = fl_submitting s" "fl_workers s' = (fl_workers s)(i := p)"
    and db: "db_ok (fl_db s')"
    and others: "\<And>jid. jid \<noteq> x \<Longrightarrow> announced s' jid = announced s jid"
      "\<And>jid. jid \<noteq> x \<Longrightarrow> status_of (fl_db s') jid = status_of (fl_db s) jid"
    and new: "phase_job p \<in> {None, Some x}" "phase_ok s' p" "told s' x"
    and kept: "lossy \<or> phase_job p = Some x \<or> (\<forall>t. status_of (fl_db s') x = Some t \<longrightarrow> is_terminal t)"
  shows "floor_ok lossy s'"
proof -
  have places: "one_place s" using ok by (simp add: floor_ok_def)
  have "phase_ok s' (fl_workers s' k)" for k
  proof (cases "k = i")
    case False
    then have "phase_job (fl_workers s k) \<noteq> Some x" using places old by (auto simp: one_place_def)
    moreover have "phase_ok s (fl_workers s k)" using ok by (simp add: floor_ok_def)
    ultimately have "phase_ok s' (fl_workers s k)" using others by (auto elim!: phase_ok_elsewhere)
    then show ?thesis using False by (simp add: same)
  qed (simp add: same new)
  moreover have "waits s' jid" if "jid \<in> set (fl_submitting s @ fl_queue s)" for jid
  proof -
    have "jid \<noteq> x" using places old that by (auto simp: one_place_def)
    moreover have "waits s jid" using ok that by (auto simp: floor_ok_def)
    ultimately show ?thesis using others [of jid] by (auto elim!: waits_elsewhere)
  qed
  moreover have "told s' jid" for jid
  proof (cases "jid = x")
    case False
    have "told s jid" using ok by (simp add: floor_ok_def)
    then show ?thesis using others [OF False] by (auto elim!: told_elsewhere)
  qed (simp add: new)
  moreover have "lossy \<or> placed s' jid" if "status_of (fl_db s') jid = Some t" "\<not> is_terminal t" for jid t
  proof (cases "jid = x")
    case True
    then have "lossy \<or> phase_job p = Some x" using kept that by auto
    then show ?thesis using True by (auto simp: placed_def same)
  next
    case False
    then have "lossy \<or> placed s jid" using ok that others by (auto simp: floor_ok_def)
    moreover have "phase_job (fl_workers s i) \<noteq> Some jid" using False old by simp
    ultimately show ?thesis unfolding placed_def same by (metis fun_upd_other)
  qed
  ultimately show ?thesis
    using db one_place_worker [OF places old new(1) same] by (auto simp: floor_ok_def same)
qed

text \<open>A submission leaves its place.\<close>

lemma submission_leaves:
  assumes ok: "floor_ok lossy s" and jid: "jid \<in> set (fl_submitting s)" and db: "db_ok db'"
    and others: "\<And>i. i \<noteq> jid \<Longrightarrow> status_of db' i = status_of (fl_db s) i"
    and kept: "lossy \<or> (\<forall>t. status_of db' jid = Some t \<longrightarrow> is_terminal t)"
  shows "floor_ok lossy (s\<lparr>fl_db := db', fl_submitting := remove1 jid (fl_submitting s)\<rparr>)"
proof -
  have places: "one_place s" and d: "distinct (fl_submitting s)" using ok by (simp_all add: floor_ok_def one_place_def)
  let ?s = "s\<lparr>fl_db := db', fl_submitting := remove1 jid (fl_submitting s)\<rparr>"
  have "phase_ok ?s (fl_workers s k)" for k
  proof (rule phase_ok_elsewhere [where s = s])
    fix i assume "phase_job (fl_workers s k) = Some i"
    then have "i \<noteq> jid" using places jid by (auto simp: one_place_def)
    then show "status_of (fl_db ?s) i \<in> {None, status_of (fl_db s) i}" using others by simp
  qed (use ok in \<open>simp_all add: floor_ok_def\<close>)
  moreover have "waits ?s i" if "i \<in> set (remove1 jid (fl_submitting s) @ fl_queue s)" for i
  proof -
    have "i \<noteq> jid" using that places jid d by (auto simp: one_place_def)
    moreover have "waits s i" using ok that d by (auto simp: floor_ok_def)
    ultimately show ?thesis using others by (auto elim!: waits_elsewhere)
  qed
  moreover have "told ?s i" for i
  proof (cases "i = jid")
    case True
    have "waits s jid" using ok jid by (simp add: floor_ok_def)
    then show ?thesis using True by (simp add: told_def waits_def)
  next
    case False
    have "told s i" using ok by (simp add: floor_ok_def)
    then show ?thesis using others [OF False] by (auto elim!: told_elsewhere)
  qed
  moreover have "lossy \<or> placed ?s i" if "status_of db' i = Some t" "\<not> is_terminal t" for i t
  proof (cases "i = jid")
    case False
    then have "lossy \<or> placed s i" using ok that others by (auto simp: floor_ok_def)
    then show ?thesis using False by (auto simp: placed_def)
  qed (use kept that in auto)
  moreover have "one_place ?s" using places by (auto simp: one_place_def d)
  ultimately show ?thesis using db by (auto simp: floor_ok_def)
qed

lemma floor_okD:
  assumes "floor_ok lossy s"
  shows "db_ok (fl_db s)" and "one_place s" and "phase_ok s (fl_workers s i)" and "told s jid"
    and "jid \<in> set (fl_submitting s) \<or> jid \<in> set (fl_queue s) \<Longrightarrow> waits s jid"
  using assms by (auto simp: floor_ok_def)

lemma queue_job_ok:
  assumes "jid \<in> set (fl_submitting s)" and "floor_ok lossy s"
  shows "floor_ok lossy (s\<lparr>fl_queue := fl_queue s @ [jid], fl_submitting := remove1 jid (fl_submitting s)\<rparr>)"
proof -
  note places = floor_okD(2) [OF assms(2)]
  then have "one_place (s\<lparr>fl_queue := fl_queue s @ [jid], fl_submitting := remove1 jid (fl_submitting s)\<rparr>)"
    using assms(1) by (auto simp: one_place_def)
  then show ?thesis using assms places
    by (auto simp: floor_ok_def placed_def one_place_def)
qed

lemma receive_ok:
  assumes "i < WORKER_COUNT" and "fl_workers s i = Idle" and "fl_queue s = jid # rest" and "floor_ok lossy s"
  shows "floor_ok lossy (s\<lparr>fl_queue := rest, fl_workers := (fl_workers s)(i := Claiming jid)\<rparr>)"
proof -
  have "one_place (s\<lparr>fl_queue := rest, fl_workers := (fl_workers s)(i := Claiming jid)\<rparr>)"
    using floor_okD(2) [OF assms(4)] assms(1-3) by (auto simp: one_place_def split: if_splits)
  moreover have "(\<exists>k. phase_job (((fl_workers s)(i := Claiming jid)) k) = Some x) \<longleftrightarrow>
      jid = x \<or> (\<exists>k. phase_job (fl_workers s k) = Some x)" for x
    using assms(2) by (metis fun_upd_apply option.distinct(1) option.inject phase_job.simps(1,2))
  ultimately show ?thesis using assms by (auto simp: floor_ok_def placed_def)
qed

lemma own_step_ok:
  assumes "own_step s s'" and "floor_ok lossy s"
  shows "floor_ok lossy s'"
  using assms
proof (induction rule: own_step.induct)
  case (queue_job jid s)
  show ?case by (rule queue_job_ok [OF queue_job(1,3)])
next
  case (refuse jid s now)
  obtain res db' where fin: "jobs_finish now jid (Failed RateLimited ERR_QUEUE_FULL) (fl_db s) = (res, db')" by fastforce
  note f = finish_status [OF floor_okD(1) [OF refuse(3)] fin]
  show ?case
    using submission_leaves [OF refuse(3,1) f(1)] f(2) by (auto simp: fin split: sum.splits)
next
  case (receive i s jid rest)
  show ?case by (rule receive_ok [OF receive])
next
  case (claim s i jid now j db')
  note m = mark_running_status [OF floor_okD(1) [OF claim(3)] claim(2)]
  show ?case
    by (rule worker_moves [OF claim(3), where x = jid and i = i and p = "Announcing j"])
       (use m claim(1) floor_okD(3) [OF claim(3), of i] floor_okD(4) [OF claim(3), of jid] in \<open>auto simp: waits_def told_def\<close>)
next
  case (skip s i jid now e db')
  note m = mark_running_status [OF floor_okD(1) [OF skip(3)] skip(2)]
  show ?case
    by (rule worker_moves [OF skip(3), where x = jid and i = i and p = Idle])
       (use m skip(1) floor_okD(3) [OF skip(3), of i] floor_okD(4) [OF skip(3), of jid] in \<open>auto simp: waits_def told_def\<close>)
next
  case (announce s i j)
  show ?case
    by (rule worker_moves [OF announce(2), where x = "job_id j" and i = i and p = "Working j"])
       (use announce(1) floor_okD(1) [OF announce(2)] floor_okD(3) [OF announce(2), of i] in \<open>auto simp: told_def\<close>)
next
  case (generated s i j status)
  show ?case
    by (rule worker_moves [OF generated(3), where x = "job_id j" and i = i and p = "Finishing (job_id j) status"])
       (use generated(1,2) floor_okD(1) [OF generated(3)] floor_okD(3) [OF generated(3), of i] in \<open>auto simp: told_def\<close>)
next
  case (finish s i jid status now j db')
  note f = finish_status [OF floor_okD(1) [OF finish(3)] finish(2)]
  show ?case
    by (rule worker_moves [OF finish(3), where x = jid and i = i and p = "Reporting jid status"])
       (use f finish(1) floor_okD(3) [OF finish(3), of i] in \<open>auto simp: told_def\<close>)
next
  case (gone s i jid status now e db')
  note f = finish_status [OF floor_okD(1) [OF gone(3)] gone(2)]
  show ?case
    by (rule worker_moves [OF gone(3), where x = jid and i = i and p = Idle])
       (use f gone(1) floor_okD(3) [OF gone(3), of i] floor_okD(4) [OF gone(3), of jid] in \<open>auto simp: told_def\<close>)
next
  case (report s i jid status)
  show ?case
    by (rule worker_moves [OF report(2), where x = jid and i = i and p = Idle])
       (use report(1) floor_okD(1) [OF report(2)] floor_okD(3) [OF report(2), of i] in \<open>auto simp: told_def ends_as_terminal\<close>)
qed

lemma inserted:
  assumes ok: "floor_ok lossy s" and fresh: "never_used s fresh" and made: "jobs_create now fresh new (fl_db s) = (res, db')"
  shows "db_ok db'" and "\<And>i. i \<noteq> fresh \<Longrightarrow> status_of db' i = status_of (fl_db s) i"
    and "phase_ok (s\<lparr>fl_db := db'\<rparr>) (fl_workers s k)" and "told (s\<lparr>fl_db := db'\<rparr>) i"
    and "i \<in> set (fl_submitting s) \<or> i \<in> set (fl_queue s) \<Longrightarrow> waits (s\<lparr>fl_db := db'\<rparr>) i"
proof -
  note c = create_status [OF floor_okD(1) [OF ok] made]
  show "db_ok db'" using c(1) .
  show same: "status_of db' i = status_of (fl_db s) i" if "i \<noteq> fresh" for i using c(2) that by (auto split: sum.splits)
  show "phase_ok (s\<lparr>fl_db := db'\<rparr>) (fl_workers s k)"
  proof (rule phase_ok_elsewhere [where s = s])
    fix x assume "phase_job (fl_workers s k) = Some x"
    then have "x \<noteq> fresh" using fresh by (auto simp: never_used_def)
    then show "status_of (fl_db (s\<lparr>fl_db := db'\<rparr>)) x \<in> {None, status_of (fl_db s) x}" using same by simp
  qed (use floor_okD(3) [OF ok] in simp_all)
  show "told (s\<lparr>fl_db := db'\<rparr>) i"
  proof (cases "i = fresh")
    case False
    then show ?thesis using told_elsewhere [OF floor_okD(4) [OF ok]] same by simp
  qed (use fresh in \<open>simp add: told_def never_used_def\<close>)
  show "waits (s\<lparr>fl_db := db'\<rparr>) i" if "i \<in> set (fl_submitting s) \<or> i \<in> set (fl_queue s)"
  proof -
    have "i \<noteq> fresh" "waits s i" using that fresh floor_okD(5) [OF ok] by (auto simp: never_used_def)
    then show ?thesis using same by (auto elim!: waits_elsewhere)
  qed
qed

lemma lossy_step_ok:
  assumes "lossy_step s s'" and "floor_ok True s"
  shows "floor_ok True s'"
  using assms
proof (induction rule: lossy_step.induct)
  case (insert_lost s fresh now new)
  obtain res db' where made: "jobs_create now fresh new (fl_db s) = (res, db')" by fastforce
  then show ?case
    using inserted [OF insert_lost(2,1) made] insert_lost(2) by (auto simp: floor_ok_def one_place_def)
next
  case (cut_short jid s)
  then show ?case using submission_leaves [OF cut_short(2,1), of "fl_db s"] floor_okD(1) [OF cut_short(2)] by simp
next
  case (claim_lost s i jid db' now)
  obtain res db1 where mark: "jobs_mark_running now jid (fl_db s) = (res, db1)" by fastforce
  note m = mark_running_status [OF floor_okD(1) [OF claim_lost(3)] mark]
  show ?case
    by (rule worker_moves [OF claim_lost(3), where x = jid and i = i and p = Idle])
       (use m claim_lost(1,2) floor_okD(1) [OF claim_lost(3)] floor_okD(3) [OF claim_lost(3), of i] in
         \<open>auto simp: waits_def told_def mark split: sum.splits\<close>)
next
  case (finish_lost s i jid status db' now)
  obtain res db1 where fin: "jobs_finish now jid status (fl_db s) = (res, db1)" by fastforce
  note f = finish_status [OF floor_okD(1) [OF finish_lost(3)] fin]
  show ?case
    by (rule worker_moves [OF finish_lost(3), where x = jid and i = i and p = Idle])
       (use f finish_lost(1,2) floor_okD(1) [OF finish_lost(3)] floor_okD(3) [OF finish_lost(3), of i] in
         \<open>auto simp: told_def fin split: sum.splits\<close>)
qed

lemma floor_step_ok:
  assumes "floor_step inet_ok lossy s s'" and "floor_ok lossy s"
  shows "floor_ok lossy s'"
  using assms(1)
proof cases
  case (submit fresh now new j db')
  note c = create_status [OF floor_okD(1) [OF assms(2)] submit(3)] and i = inserted [OF assms(2) submit(2,3)]
  have "one_place s'" using floor_okD(2) [OF assms(2)] submit(1,2) c(2) by (auto simp: one_place_def never_used_def)
  moreover have "waits s' (job_id j)" using c(2) submit(1,2) by (simp add: waits_def never_used_def)
  ultimately show ?thesis
    using i assms(2) submit(1) c(2) by (auto simp: floor_ok_def placed_def)
next
  case own
  then show ?thesis using own_step_ok assms(2) by blast
next
  case (other db')
  note st = other_step_status [OF other(2) floor_okD(1) [OF assms(2)]]
  have fewer: "status_of db' i \<in> {None, status_of (fl_db s) i}" for i
    using st by (cases "status_of db' i") (auto simp: map_le_def dom_def)
  have "phase_ok s' (fl_workers s' k)" for k
    using phase_ok_elsewhere [OF floor_okD(3) [OF assms(2), of k], of s'] fewer by (simp add: other(1))
  moreover have "told s' i" for i using told_elsewhere [OF floor_okD(4) [OF assms(2), of i], of s'] fewer by (simp add: other(1))
  moreover have "waits s' i" if "i \<in> set (fl_submitting s @ fl_queue s)" for i
    using waits_elsewhere [OF floor_okD(5) [OF assms(2)], of i s'] fewer that by (auto simp: other(1))
  moreover have "lossy \<or> placed s' i" if "status_of db' i = Some t" "\<not> is_terminal t" for i t
  proof -
    have "status_of (fl_db s) i = Some t" using fewer [of i] that(1) by auto
    then have "lossy \<or> placed s i" using assms(2) that(2) by (auto simp: floor_ok_def)
    then show ?thesis by (simp add: other(1) placed_def)
  qed
  moreover have "one_place s'" using floor_okD(2) [OF assms(2)] by (simp add: other(1) one_place_def)
  ultimately show ?thesis
    using other_step_ok [OF other(2) floor_okD(1) [OF assms(2)]] by (auto simp: floor_ok_def other(1))
next
  case loss
  then show ?thesis using lossy_step_ok assms(2) by auto
qed

lemma floor_steps_ok: "(floor_step inet_ok lossy)\<^sup>*\<^sup>* s s' \<Longrightarrow> floor_ok lossy s \<Longrightarrow> floor_ok lossy s'"
  by (induction rule: rtranclp_induct) (auto intro: floor_step_ok)

end
