(* ===== verification/Concurrency_Correct.thy ===== *)
theory Concurrency_Correct
  imports Concurrency Api_Correct
begin

text \<open>
  What holds however requests, workers and sweeps interleave: safety with and without lost
  connections, the end of all work without them, and that \<open>process\<close> and \<open>queue_or_fail\<close>, as the code
  composes them, take the steps of the relation.
\<close>

section \<open>Safety\<close>

text \<open>
  C4: however the statements of requests, the four workers and the sweep interleave, and even when
  connections are lost and handlers are cut short: no two workers have the same job, and none has
  one that is still queued; a job that is being generated is \<open>running\<close>, unless it was deleted; what
  is announced of a job is first \<open>Running\<close> and then one terminal status, which is the status of its
  row for as long as that exists. When nothing is lost, every unfinished job is in the hands of
  its request, in the queue, or with a worker.
\<close>

theorem workers_keep_apart:
  assumes start: "floor_start s0" and run: "(floor_step inet_ok lossy)\<^sup>*\<^sup>* s0 s"
  shows "db_ok (fl_db s) \<and> distinct (fl_submitting s @ fl_queue s) \<and>
    (\<forall>i k jid. phase_job (fl_workers s i) = Some jid \<longrightarrow> jid \<notin> set (fl_submitting s @ fl_queue s) \<and>
       (phase_job (fl_workers s k) = Some jid \<longrightarrow> i = k)) \<and>
    (\<forall>i j. fl_workers s i = Working j \<longrightarrow> status_of (fl_db s) (job_id j) \<in> {None, Some Running}) \<and>
    (\<forall>jid. announced s jid = [] \<or> announced s jid = [Running] \<or>
       (\<exists>t. is_terminal t \<and> announced s jid = [Running, t] \<and> status_of (fl_db s) jid \<in> {None, Some t})) \<and>
    (lossy \<or> (\<forall>jid t. status_of (fl_db s) jid = Some t \<longrightarrow> \<not> is_terminal t \<longrightarrow> placed s jid))"
proof -
  have ok: "floor_ok lossy s" using floor_steps_ok [OF run] floor_start_ok [OF start] by blast
  have "status_of (fl_db s) (job_id j) \<in> {None, Some Running}" if "fl_workers s i = Working j" for i j
    using floor_okD(3) [OF ok, of i] that by simp
  moreover have "announced s jid = [] \<or> announced s jid = [Running] \<or>
      (\<exists>t. is_terminal t \<and> announced s jid = [Running, t] \<and> status_of (fl_db s) jid \<in> {None, Some t})" for jid
    using floor_okD(4) [OF ok, of jid] ends_as_terminal by (auto simp: told_def)
  ultimately show ?thesis using ok by (auto simp: floor_ok_def one_place_def)
qed

text \<open>The tables of the example after the sweep of a start, and a first submission.\<close>

definition sample_floor :: floor_state where
  "sample_floor = \<lparr>fl_db = snd (jobs_fail_orphans 9 (error_code_as_str Internal) ERR_JOB_INTERRUPTED sample_db), fl_queue = [],
     fl_events = [], fl_workers = (\<lambda>_. Idle), fl_submitting = []\<rparr>"

definition sample_new :: new_job where
  "sample_new = \<lparr>new_user_id = 1, new_media_type = Audio, new_prompt = ''Hei'', new_parameters = JObj []\<rparr>"

lemma sample_floor_start: "floor_start sample_floor"
proof -
  have "db_ok (fl_db sample_floor)"
    using keepsD [OF keeps_jobs_updates(4) sample_db_ok] by (simp add: sample_floor_def)
  moreover have "list_all (\<lambda>r. \<not> unfinished r) (jobs (fl_db sample_floor))" by code_simp
  then have "is_terminal t" if "status_of (fl_db sample_floor) jid = Some t" for jid t
    using that row_status_terminal by (auto simp: status_of_def list_all_iff dest: row_by_SomeD)
  ultimately show ?thesis by (simp add: floor_start_def sample_floor_def)
qed

lemma sample_submission:
  obtains j db where "(floor_step inet_ok lossy)\<^sup>*\<^sup>* sample_floor (sample_floor\<lparr>fl_db := db, fl_queue := [99]\<rparr>)"
    and "jobs_create 10 99 sample_new (fl_db sample_floor) = (Inr j, db)"
proof -
  obtain res db where made: "jobs_create 10 99 sample_new (fl_db sample_floor) = (res, db)" by fastforce
  have "99 \<notin> j_id ` set (jobs (fl_db sample_floor))" and "1 \<in> u_id ` set (users (fl_db sample_floor))" by code_simp+
  then obtain j where j: "res = Inr j" "job_id j = 99"
    using made by (auto simp: jobs_create_def Let_def sample_new_def split: if_splits)
  let ?s = "sample_floor\<lparr>fl_db := db, fl_submitting := [99]\<rparr>"
  have "floor_step inet_ok lossy sample_floor (sample_floor\<lparr>fl_db := db, fl_submitting := fl_submitting sample_floor @ [job_id j]\<rparr>)"
    by (rule floor_step.submit [where fresh = 99]) (use made j in \<open>simp_all add: never_used_def sample_floor_def announced_def\<close>)
  then have submitted: "floor_step inet_ok lossy sample_floor ?s" by (simp add: j(2) sample_floor_def)
  have "own_step ?s (?s\<lparr>fl_queue := fl_queue ?s @ [99], fl_submitting := remove1 99 (fl_submitting ?s)\<rparr>)"
    by (rule own_step.queue_job) (simp_all add: sample_floor_def QUEUE_CAPACITY_def)
  then have "floor_step inet_ok lossy ?s (sample_floor\<lparr>fl_db := db, fl_queue := [99]\<rparr>)"
    by (simp add: sample_floor_def floor_step.own)
  with submitted have "(floor_step inet_ok lossy)\<^sup>*\<^sup>* sample_floor (sample_floor\<lparr>fl_db := db, fl_queue := [99]\<rparr>)"
    by (meson converse_rtranclp_into_rtranclp r_into_rtranclp)
  with that made j show ?thesis by blast
qed

theorem workers_keep_apart_witness:
  "\<exists>s. (floor_step (\<lambda>_. True) False)\<^sup>*\<^sup>* sample_floor s \<and> fl_queue s = [99] \<and> status_of (fl_db s) 99 = Some Queued \<and> placed s 99"
proof -
  obtain j db where run: "(floor_step (\<lambda>_. True) False)\<^sup>*\<^sup>* sample_floor (sample_floor\<lparr>fl_db := db, fl_queue := [99]\<rparr>)"
    and made: "jobs_create 10 99 sample_new (fl_db sample_floor) = (Inr j, db)" by (rule sample_submission)
  have "db_ok (fl_db sample_floor)" using sample_floor_start by (simp add: floor_start_def)
  from create_status(2) [OF this made] have st: "status_of db 99 = Some Queued" by simp
  from workers_keep_apart [OF sample_floor_start run] st have "placed (sample_floor\<lparr>fl_db := db, fl_queue := [99]\<rparr>) 99" by auto
  with run st show ?thesis by (intro exI [of _ "sample_floor\<lparr>fl_db := db, fl_queue := [99]\<rparr>"]) simp
qed

section \<open>All work ends\<close>

text \<open>How many steps are left for what has been accepted.\<close>

fun phase_left :: "worker_phase \<Rightarrow> nat" where
  "phase_left Idle = 0"
| "phase_left (Claiming _) = 5"
| "phase_left (Announcing _) = 4"
| "phase_left (Working _) = 3"
| "phase_left (Finishing _ _) = 2"
| "phase_left (Reporting _ _) = 1"

definition workload :: "floor_state \<Rightarrow> nat" where
  "workload s = 7 * length (fl_submitting s) + 6 * length (fl_queue s) + (\<Sum>i < WORKER_COUNT. phase_left (fl_workers s i))"

lemma sum_fun_upd:
  fixes f :: "'p \<Rightarrow> nat" and n :: nat
  assumes "i < n"
  shows "(\<Sum>k < n. f ((ws(i := p)) k)) + f (ws i) = (\<Sum>k < n. f (ws k)) + f p"
proof -
  have rest: "(\<Sum>k \<in> {..<n} - {i}. f ((ws(i := p)) k)) = (\<Sum>k \<in> {..<n} - {i}. f (ws k))"
    by (rule sum.cong) auto
  have "(\<Sum>k < n. f ((ws(i := p)) k)) = f p + (\<Sum>k \<in> {..<n} - {i}. f ((ws(i := p)) k))"
    using assms sum.remove [of "{..<n}" i "\<lambda>k. f ((ws(i := p)) k)"] by simp
  moreover have "(\<Sum>k < n. f (ws k)) = f (ws i) + (\<Sum>k \<in> {..<n} - {i}. f (ws k))"
    using assms sum.remove [of "{..<n}" i "\<lambda>k. f (ws k)"] by simp
  ultimately show ?thesis using rest by linarith
qed

lemma own_step_decreases:
  assumes "own_step s s'" and places: "one_place s"
  shows "workload s' < workload s"
proof -
  have busy: "(\<Sum>k < WORKER_COUNT. phase_left (((fl_workers s)(i := p)) k)) < (\<Sum>k < WORKER_COUNT. phase_left (fl_workers s k))"
    if "phase_left p < phase_left (fl_workers s i)" for i p
  proof -
    have "i < WORKER_COUNT" using places that by (cases "fl_workers s i = Idle") (auto simp: one_place_def)
    then show ?thesis using sum_fun_upd [of i WORKER_COUNT phase_left "fl_workers s" p] that by simp
  qed
  show ?thesis
    using assms(1)
  proof cases
    case (queue_job jid)
    then obtain k where "length (fl_submitting s) = Suc k" by (cases "fl_submitting s") auto
    with queue_job show ?thesis by (simp add: workload_def length_remove1)
  next
    case (refuse jid now)
    then obtain k where "length (fl_submitting s) = Suc k" by (cases "fl_submitting s") auto
    with refuse show ?thesis by (simp add: workload_def length_remove1)
  next
    case (receive i jid rest)
    then show ?thesis using sum_fun_upd [OF receive(2), of phase_left "fl_workers s" "Claiming jid"] by (simp add: workload_def)
  qed (simp_all add: workload_def busy del: fun_upd_apply)
qed

lemma stuck_only_when_done:
  assumes ok: "floor_ok False s" and stuck: "\<nexists>s'. own_step s s'"
  shows "fl_queue s = [] \<and> fl_submitting s = [] \<and> (\<forall>i. fl_workers s i = Idle) \<and>
    (\<forall>jid t. status_of (fl_db s) jid = Some t \<longrightarrow> is_terminal t)"
proof -
  have submitting: "fl_submitting s = []"
  proof (rule ccontr)
    assume "fl_submitting s \<noteq> []"
    then have "hd (fl_submitting s) \<in> set (fl_submitting s)" by simp
    from own_step.queue_job [OF this] own_step.refuse [OF this] stuck show False by blast
  qed
  have idle: "fl_workers s i = Idle" for i
  proof (cases "fl_workers s i")
    case (Claiming jid)
    obtain r db where "jobs_mark_running 0 jid (fl_db s) = (r, db)" by fastforce
    with own_step.claim [OF Claiming] own_step.skip [OF Claiming] stuck show ?thesis by (cases r) blast+
  next
    case (Announcing j)
    with own_step.announce stuck show ?thesis by blast
  next
    case (Working j)
    have "ends_as Succeeded" by (simp add: ends_as_def)
    with own_step.generated [OF Working] stuck show ?thesis by blast
  next
    case (Finishing jid t)
    obtain r db where "jobs_finish 0 jid t (fl_db s) = (r, db)" by fastforce
    with own_step.finish [OF Finishing] own_step.gone [OF Finishing] stuck show ?thesis by (cases r) blast+
  next
    case (Reporting jid t)
    with own_step.report stuck show ?thesis by blast
  qed
  have queue: "fl_queue s = []"
  proof (cases "fl_queue s")
    case (Cons jid rest)
    have "0 < WORKER_COUNT" by (simp add: WORKER_COUNT_def)
    from own_step.receive [OF this idle Cons] stuck show ?thesis by blast
  qed simp
  have "is_terminal t" if "status_of (fl_db s) jid = Some t" for jid t
  proof (rule ccontr)
    assume "\<not> is_terminal t"
    then have "placed s jid" using ok that by (auto simp: floor_ok_def)
    then show False by (simp add: placed_def submitting queue idle)
  qed
  with submitting queue idle show ?thesis by blast
qed

lemma own_run_bounded: "(own_step ^^ n) s s' \<Longrightarrow> floor_ok lossy s \<Longrightarrow> n + workload s' \<le> workload s \<and> floor_ok lossy s'"
proof (induction n arbitrary: s')
  case (Suc n)
  then obtain m where m: "(own_step ^^ n) s m" "own_step m s'" by auto
  have ok: "floor_ok lossy m" and n: "n + workload m \<le> workload s" using Suc.IH [OF m(1) Suc.prems(2)] by simp_all
  show ?case using own_step_decreases [OF m(2) floor_okD(2) [OF ok]] own_step_ok [OF m(2) ok] n by simp
qed simp

text \<open>
  C5: all accepted work ends, in any interleaving. Without losses, from any state that can be
  reached, the workers and the pending requests can take only so many steps, a number fixed by what
  has been accepted, however they alternate; and where they can take no more, nothing is queued or
  pending, every worker waits, and every job has a terminal status. Statements of other requests
  and of the sweep do not add to what is left.
\<close>

theorem accepted_work_ends:
  assumes start: "floor_start s0" and run: "(floor_step inet_ok False)\<^sup>*\<^sup>* s0 s" and go: "(own_step ^^ n) s s'"
  shows "n \<le> workload s \<and> (other_step inet_ok (fl_db s) db \<longrightarrow> workload (s\<lparr>fl_db := db\<rparr>) = workload s) \<and>
    ((\<nexists>s''. own_step s' s'') \<longrightarrow> fl_queue s' = [] \<and> fl_submitting s' = [] \<and> (\<forall>i. fl_workers s' i = Idle) \<and>
       (\<forall>jid t. status_of (fl_db s') jid = Some t \<longrightarrow> is_terminal t))"
proof -
  have ok: "floor_ok False s" using floor_steps_ok [OF run] floor_start_ok [OF start] by blast
  note bound = own_run_bounded [OF go ok]
  then show ?thesis using stuck_only_when_done [of s'] by (simp add: workload_def)
qed

theorem accepted_work_ends_witness:
  "\<exists>s. (floor_step (\<lambda>_. True) False)\<^sup>*\<^sup>* sample_floor s \<and> fl_queue s = [99] \<and> workload s = 6 \<and>
     (\<forall>n s'. (own_step ^^ n) s s' \<longrightarrow> n \<le> 6)"
proof -
  obtain j db where run: "(floor_step (\<lambda>_. True) False)\<^sup>*\<^sup>* sample_floor (sample_floor\<lparr>fl_db := db, fl_queue := [99]\<rparr>)"
    by (rule sample_submission)
  have six: "workload (sample_floor\<lparr>fl_db := db, fl_queue := [99]\<rparr>) = 6"
    by (simp add: workload_def sample_floor_def)
  from accepted_work_ends [OF sample_floor_start run] six run show ?thesis
    by (intro exI [of _ "sample_floor\<lparr>fl_db := db, fl_queue := [99]\<rparr>"]) auto
qed

section \<open>The code takes these steps\<close>

text \<open>
  The state of the relation behind a world, when the workers are in the phases \<open>ws\<close> and the requests
  have \<open>sub\<close> still to queue.
\<close>

definition floor_of :: "(nat \<Rightarrow> worker_phase) \<Rightarrow> uuid list \<Rightarrow> ('s, 'n, 'd) world \<Rightarrow> floor_state" where
  "floor_of ws sub w = \<lparr>fl_db = wd_db w, fl_queue = wd_queue w, fl_events = wd_events w, fl_workers = ws, fl_submitting = sub\<rparr>"

text \<open>Interference is explicit in the relation, so an action runs alone here; connections may be lost if \<open>lossy\<close>.\<close>

definition alone :: "bool \<Rightarrow> ('s, 'n, 'd, 'r) app \<Rightarrow> bool" where
  "alone lossy app \<longleftrightarrow> (\<forall>n db. ap_others app n db = db) \<and> (lossy \<or> (\<forall>n. fst (ap_pool app n) = NoFault))"

lemma pool_alone:
  fixes app :: "('s, 'n, 'd, 'r) app"
  assumes "alone lossy app"
  obtains (answered) now u n where "u = fst (ap_fresh app (snd (ap_pool app (wd_net w))))"
      and "on_pool app stmt w = (fst (stmt now u (wd_db w)), w\<lparr>wd_net := n, wd_db := snd (stmt now u (wd_db w))\<rparr>)"
  | (lost) e n now u db where "u = fst (ap_fresh app (snd (ap_pool app (wd_net w))))" and "lossy" and "on_pool app stmt w = (Inl e, w\<lparr>wd_net := n, wd_db := db\<rparr>)"
      and "db \<in> {wd_db w, snd (stmt now u (wd_db w))}"
proof -
  obtain fault n1 u n2 where env: "ap_pool app (wd_net w) = (fault, n1)" "ap_fresh app n1 = (u, n2)" by fastforce
  have others: "ap_others app n db = db" for n db using assms by (simp add: alone_def)
  have "lossy \<or> fault = NoFault" using assms env(1) by (auto simp: alone_def dest: spec [of _ "wd_net w"])
  let ?now = "ap_clock app n2"
  show ?thesis
  proof (cases fault)
    case NoFault
    show ?thesis by (rule answered [where u = u and now = ?now and n = n2]) (simp_all add: on_pool_def env others NoFault split_def Let_def)
  next
    case (LostRequest e)
    with \<open>lossy \<or> fault = NoFault\<close> show ?thesis
      by (intro lost [where e = "map_sqlx (OtherDriverError e)" and n = n2 and db = "wd_db w" and now = ?now and u = u]) (simp_all add: on_pool_def env others)
  next
    case (LostReply e)
    with \<open>lossy \<or> fault = NoFault\<close> show ?thesis
      by (intro lost [where e = "map_sqlx (OtherDriverError e)" and n = n2 and db = "snd (stmt ?now u (wd_db w))" and now = ?now and u = u]) (simp_all add: on_pool_def env others)
  qed
qed

definition reaches :: "('s, 'n, 'd, 'r) app \<Rightarrow> bool \<Rightarrow> (nat \<Rightarrow> worker_phase) \<Rightarrow> uuid list \<Rightarrow> floor_state \<Rightarrow> ('s, 'n, 'd) world \<Rightarrow> bool" where
  "reaches app lossy ws sub s w \<longleftrightarrow> (floor_step (ap_inet_ok app) lossy)\<^sup>*\<^sup>* s (floor_of ws sub w)"

lemma reaches_aside [keeps_intros]:
  "keeps (reaches app lossy ws sub s) (in_the_net m)" "keeps (reaches app lossy ws sub s) (in_the_session m')"
  "keeps (reaches app lossy ws sub s) (now_utc app')" "keeps (reaches app lossy ws sub s) (new_v4 app')"
  "keeps (reaches app lossy ws sub s) (with_key m'')" "keeps (reaches app lossy ws sub s) (with_metadata m3)"
  by (auto simp: keeps_def reaches_def floor_of_def world_defs split: prod.splits)

text \<open>Reads, and the statements of \<open>other_step\<close>.\<close>

definition other_statement :: "(string \<Rightarrow> bool) \<Rightarrow> (instant \<Rightarrow> uuid \<Rightarrow> 'a db_op) \<Rightarrow> bool" where
  "other_statement inet_ok stmt \<longleftrightarrow> (\<forall>now u db. snd (stmt now u db) = db \<or> other_step inet_ok db (snd (stmt now u db)))"

lemma keeps_reaches_pool:
  fixes app :: "('s, 'n, 'd, 'r) app"
  assumes alone: "alone lossy app" and stmt: "other_statement (ap_inet_ok app) stmt"
  shows "keeps (reaches app lossy ws sub s) (on_pool app stmt)"
proof (rule keepsI)
  fix w :: "('s, 'n, 'd) world" assume w: "reaches app lossy ws sub s w"
  have step: "reaches app lossy ws sub s (w\<lparr>wd_net := n, wd_db := snd (stmt now u (wd_db w))\<rparr>)" for n now u
  proof -
    have "snd (stmt now u (wd_db w)) = wd_db w \<or> other_step (ap_inet_ok app) (wd_db w) (snd (stmt now u (wd_db w)))"
      using stmt by (simp add: other_statement_def)
    then have "(floor_step (ap_inet_ok app) lossy)\<^sup>*\<^sup>* (floor_of ws sub w) (floor_of ws sub (w\<lparr>wd_net := n, wd_db := snd (stmt now u (wd_db w))\<rparr>))"
      using floor_step.other [of "ap_inet_ok app" "floor_of ws sub w"] by (auto simp: floor_of_def)
    with w show ?thesis by (auto simp: reaches_def)
  qed
  have same: "reaches app lossy ws sub s (w\<lparr>wd_net := n, wd_db := wd_db w\<rparr>)" for n using w by (simp add: reaches_def floor_of_def)
  show "reaches app lossy ws sub s (snd (on_pool app stmt w))"
    by (rule pool_alone [OF alone, where stmt = stmt and w = w]) (use step same in auto)
qed

lemma other_statements:
  "other_statement inet_ok (\<lambda>now u. jobs_set_provider_job_id jid x)" "other_statement inet_ok (\<lambda>now u. jobs_delete_older_than now d)"
  "other_statement inet_ok (\<lambda>now u. jobs_set_hidden jid uid hidden)" "other_statement inet_ok (\<lambda>now u. jobs_delete_own jid uid)"
  "other_statement inet_ok (\<lambda>now u. assets_create now u asset)"
  "other_statement inet_ok (\<lambda>now u. users_upsert_on_login now u oid email name)"
  "other_statement inet_ok (\<lambda>now u. audit_record inet_ok now entry)"
  by (auto simp: other_statement_def intro: other_step.intros)

lemma keeps_reaches_outcome:
  fixes app :: "('s, 'n, 'd, 'r) app"
  assumes "alone lossy app"
  shows "keeps (reaches app lossy ws sub s) (job_outcome app j)"
proof -
  have wait: "keeps (reaches app lossy ws sub s) (\<lambda>w. poll_loop app j p (d w) (b w) w)" for p d b
    by (rule keeps_wait) (simp add: reaches_def floor_of_def)
  show ?thesis
    unfolding job_outcome_def worker_generate_def load_reference_def record_provider_job_def store_media_def Let_def
    by (intro keeps_intros keeps_reaches_pool assms other_statements wait)
qed

lemma floor_of_simps [simp]:
  "fl_db (floor_of ws sub w) = wd_db w" "fl_queue (floor_of ws sub w) = wd_queue w" "fl_events (floor_of ws sub w) = wd_events w"
  "fl_workers (floor_of ws sub w) = ws" "fl_submitting (floor_of ws sub w) = sub"
  by (simp_all add: floor_of_def)

text \<open>The three parts of \<open>process\<close>: the claim, the generation, the end.\<close>

lemma end_is_a_run:
  fixes app :: "('s, 'n, 'd, 'r) app"
  assumes alone: "alone lossy app" and phase: "ws i = Finishing jid status"
    and run: "handle (on_pool app (\<lambda>now _. jobs_finish now jid status)) (\<lambda>_. succeed ()) (\<lambda>_. publish jid status) w = (r, w')"
  shows "(floor_step (ap_inet_ok app) lossy)\<^sup>*\<^sup>* (floor_of ws sub w) (floor_of (ws(i := Idle)) sub w')"
proof (cases rule: pool_alone [OF alone, where stmt = "\<lambda>now _. jobs_finish now jid status" and w = w])
  case (1 now u n)
  obtain res db where fin: "jobs_finish now jid status (wd_db w) = (res, db)" by fastforce
  show ?thesis
  proof (cases res)
    case (Inl e)
    have "own_step (floor_of ws sub w) (floor_of (ws(i := Idle)) sub w')"
      using own_step.gone [of "floor_of ws sub w" i jid status now e db] phase run fin
      by (auto simp: 1 Inl handle_def succeed_def floor_of_def)
    then show ?thesis by (intro r_into_rtranclp floor_step.own)
  next
    case (Inr j)
    have "own_step (floor_of ws sub w) (floor_of (ws(i := Reporting jid status)) sub (w\<lparr>wd_db := db\<rparr>))"
      using own_step.finish [of "floor_of ws sub w" i jid status now j db] phase fin by (simp add: Inr floor_of_def)
    moreover have "own_step (floor_of (ws(i := Reporting jid status)) sub (w\<lparr>wd_db := db\<rparr>)) (floor_of (ws(i := Idle)) sub w')"
      using own_step.report [of "floor_of (ws(i := Reporting jid status)) sub (w\<lparr>wd_db := db\<rparr>)" i jid status] run fin
      by (auto simp: 1 Inr handle_def publish_def floor_of_def)
    ultimately show ?thesis by (meson converse_rtranclp_into_rtranclp r_into_rtranclp floor_step.own)
  qed
next
  case (2 e n now u db)
  have "lossy_step (floor_of ws sub w) (floor_of (ws(i := Idle)) sub w')"
    using lossy_step.finish_lost [of "floor_of ws sub w" i jid status db now] phase run 2
    by (auto simp: handle_def succeed_def floor_of_def)
  then show ?thesis using 2(2) by (intro r_into_rtranclp floor_step.loss)
qed

lemma generation_is_a_run:
  fixes app :: "('s, 'n, 'd, 'r) app"
  assumes alone: "alone lossy app" and phase: "ws i = Working j" and run: "job_outcome app j w = (Inr status, w')"
  shows "(floor_step (ap_inet_ok app) lossy)\<^sup>*\<^sup>* (floor_of ws sub w) (floor_of (ws(i := Finishing (job_id j) status)) sub w')"
proof -
  have "reaches app lossy ws sub (floor_of ws sub w) w'"
    using keepsD' [OF keeps_reaches_outcome [OF alone] run] by (simp add: reaches_def)
  moreover have "ends_as status" by (rule job_outcome_total [of app j w]) (use run in \<open>auto simp: ends_as_def\<close>)
  then have "own_step (floor_of ws sub w') (floor_of (ws(i := Finishing (job_id j) status)) sub w')"
    using own_step.generated [of "floor_of ws sub w'" i j status] phase by (simp add: floor_of_def)
  ultimately show ?thesis by (auto simp: reaches_def intro: rtranclp.rtrancl_into_rtrancl floor_step.own)
qed

text \<open>
  C6: the code of a worker is a run of the relation. From the state in which it has received an id,
  \<open>process\<close> takes the worker through claim, announcement, generation, end and report, or as far as
  it gets when rows are gone and connections are lost, and leaves it waiting for the next; losses
  only when the pool has them.
\<close>

theorem process_is_a_run:
  fixes app :: "('s, 'n, 'd, 'r) app"
  assumes alone: "alone lossy app" and ok: "db_ok (wd_db w)" and phase: "ws i = Claiming jid"
    and run: "process app jid w = (r, w')"
  shows "(floor_step (ap_inet_ok app) lossy)\<^sup>*\<^sup>* (floor_of ws sub w) (floor_of (ws(i := Idle)) sub w')"
proof (cases rule: pool_alone [OF alone, where stmt = "\<lambda>now _. jobs_mark_running now jid" and w = w])
  case (1 now u n)
  obtain res db where mark: "jobs_mark_running now jid (wd_db w) = (res, db)" by fastforce
  show ?thesis
  proof (cases res)
    case (Inl e)
    have "own_step (floor_of ws sub w) (floor_of (ws(i := Idle)) sub w')"
      using own_step.skip [of "floor_of ws sub w" i jid now e db] phase run mark
      by (auto simp: 1 Inl process_def handle_def succeed_def floor_of_def)
    then show ?thesis by (intro r_into_rtranclp floor_step.own)
  next
    case (Inr j)
    have jid: "job_id j = jid" using mark_running_status(2) [OF ok mark] by (simp add: Inr)
    let ?w1 = "w\<lparr>wd_net := n, wd_db := db\<rparr>"
    let ?w2 = "?w1\<lparr>wd_events := wd_events w @ [(jid, Running)]\<rparr>"
    obtain status w3 where gen: "job_outcome app j ?w2 = (Inr status, w3)" by (rule job_outcome_total)
    have last: "handle (on_pool app (\<lambda>now _. jobs_finish now jid status)) (\<lambda>_. succeed ()) (\<lambda>_. publish jid status) w3 = (r, w')"
      using run mark by (simp add: process_def handle_def 1 Inr attempt_def publish_def gen)
    let ?step = "floor_step (ap_inet_ok app) lossy"
    have "?step (floor_of ws sub w) (floor_of (ws(i := Announcing j)) sub ?w1)"
      using own_step.claim [of "floor_of ws sub w" i jid now j db] phase mark by (simp add: Inr floor_of_def floor_step.own)
    moreover have "?step (floor_of (ws(i := Announcing j)) sub ?w1) (floor_of (ws(i := Working j)) sub ?w2)"
      using own_step.announce [of "floor_of (ws(i := Announcing j)) sub ?w1" i j] by (simp add: jid floor_of_def floor_step.own)
    moreover have "?step\<^sup>*\<^sup>* (floor_of (ws(i := Working j)) sub ?w2) (floor_of (ws(i := Finishing jid status)) sub w3)"
      using generation_is_a_run [OF alone, of "ws(i := Working j)" i j ?w2 status w3 sub] gen by (simp add: jid)
    moreover have "?step\<^sup>*\<^sup>* (floor_of (ws(i := Finishing jid status)) sub w3) (floor_of (ws(i := Idle)) sub w')"
      using end_is_a_run [OF alone _ last, of "ws(i := Finishing jid status)" i sub] by simp
    ultimately show ?thesis by (meson converse_rtranclp_into_rtranclp rtranclp_trans)
  qed
next
  case (2 e n now u db)
  have "lossy_step (floor_of ws sub w) (floor_of (ws(i := Idle)) sub w')"
    using lossy_step.claim_lost [of "floor_of ws sub w" i jid db now] phase run 2
    by (auto simp: process_def handle_def succeed_def floor_of_def)
  then show ?thesis using 2(2) by (intro r_into_rtranclp floor_step.loss)
qed

theorem process_is_a_run_witness:
  "(floor_step (\<lambda>_. True) False)\<^sup>*\<^sup>* (floor_of ((\<lambda>_. Idle)(0 := Claiming 10)) [] (sample_world sample_db Map.empty))
     (floor_of (\<lambda>_. Idle) [] (snd (process sample_app 10 (sample_world sample_db Map.empty))))"
proof -
  have alone: "alone False sample_app" by (simp add: alone_def)
  have ok: "db_ok (wd_db (sample_world sample_db Map.empty))" using sample_db_ok by (simp add: sample_world_def)
  obtain r w' where run: "process sample_app 10 (sample_world sample_db Map.empty) = (r, w')" by fastforce
  have inet: "ap_inet_ok sample_app = (\<lambda>_. True)" by (simp add: fun_eq_iff)
  have idle: "((\<lambda>_. Idle)(0 := Claiming 10))(0 := Idle) = (\<lambda>_. Idle)" by (simp add: fun_eq_iff)
  have phase: "((\<lambda>_. Idle)(0 := Claiming 10)) 0 = Claiming 10" by simp
  show ?thesis using process_is_a_run [where ws = "(\<lambda>_. Idle)(0 := Claiming 10)" and i = 0 and sub = "[]", OF alone ok phase run]
    by (simp only: run snd_conv inet idle)
qed

section \<open>Requests take these steps\<close>

lemma other_reads:
  "other_statement inet_ok (\<lambda>now u. jobs_by_id_for_user jid uid)" "other_statement inet_ok (\<lambda>now u. jobs_active_for_user uid)"
  "other_statement inet_ok (\<lambda>now u. jobs_count_last_hour now uid)" "other_statement inet_ok (\<lambda>now u. jobs_list filt uid)"
  "other_statement inet_ok (\<lambda>now u. jobs_count filt)" "other_statement inet_ok (\<lambda>now u. jobs_asset_paths jid uid)"
  "other_statement inet_ok (\<lambda>now u. assets_for_job jid)" "other_statement inet_ok (\<lambda>now u. assets_by_id_for_user aid uid)"
  "other_statement inet_ok (\<lambda>now u. assets_paths_older_than now d)"
  by (simp_all add: other_statement_def jobs_by_id_for_user_def jobs_active_for_user_def jobs_count_last_hour_def jobs_list_def
      jobs_count_def jobs_asset_paths_def assets_for_job_def assets_by_id_for_user_def assets_paths_older_than_def split: prod.split)

lemma keeps_reaches_helpers [keeps_intros]:
  fixes app :: "('s, 'n, 'd, 'r) app"
  assumes "alone lossy app"
  shows "keeps (reaches app lossy ws sub s) (local_user_id app su)" "keeps (reaches app lossy ws sub s) (try_audit app entry)"
    "keeps (reaches app lossy ws sub s) (upsert_user app su)" "keeps (reaches app lossy ws sub s) (ratelimit_check app uid limit)"
    "keeps (reaches app lossy ws sub s) (ratelimit_remaining app uid limit)"
  unfolding handler_helper_defs Let_def
  by (intro keeps_intros keeps_reaches_pool assms other_reads other_statements)+

lemma keeps_reaches_admission:
  fixes app :: "('s, 'n, 'd, 'r) app"
  assumes "alone lossy app"
  shows "keeps (reaches app lossy ws sub s) (admission app lower su parts)"
  unfolding admission_def store_reference_def Let_def by (intro keeps_intros assms)

text \<open>The hand-over of an inserted job: queued, refused for a full queue, or lost.\<close>

lemma hand_over_is_a_run:
  fixes app :: "('s, 'n, 'd, 'r) app"
  assumes alone: "alone lossy app" and new: "job_id j \<notin> set sub" and run: "queue_or_fail app j w = (r, w')"
  shows "(floor_step (ap_inet_ok app) lossy)\<^sup>*\<^sup>* (floor_of ws (sub @ [job_id j]) w) (floor_of ws sub w')"
proof -
  let ?s = "floor_of ws (sub @ [job_id j]) w"
  have mine: "job_id j \<in> set (fl_submitting ?s)" and rest: "remove1 (job_id j) (sub @ [job_id j]) = sub"
    using new by (simp_all add: remove1_append)
  show ?thesis
  proof (cases "length (wd_queue w) < QUEUE_CAPACITY")
    case True
    then have "own_step ?s (floor_of ws sub w')"
      using own_step.queue_job [OF mine] run rest
      by (auto simp: queue_or_fail_def enqueue_def handle_def succeed_def floor_of_def)
    then show ?thesis by (intro r_into_rtranclp floor_step.own)
  next
    case False
    let ?stmt = "\<lambda>now (_ :: uuid). jobs_finish now (job_id j) (Failed RateLimited ERR_QUEUE_FULL)"
    have full: "\<not> length (fl_queue ?s) < QUEUE_CAPACITY" using False by simp
    have w': "w' = snd (on_pool app ?stmt w)"
      using run False
      by (auto simp: queue_or_fail_def enqueue_def handle_def attempt_def map_err_def succeed_def split: prod.splits sum.splits)
    have refused: "floor_step (ap_inet_ok app) lossy ?s (floor_of ws sub (w\<lparr>wd_net := n, wd_db := snd (?stmt now u (wd_db w))\<rparr>))" for n now u
      using own_step.refuse [OF mine full, of now] rest by (simp add: floor_of_def floor_step.own)
    have dropped: "lossy \<Longrightarrow> floor_step (ap_inet_ok app) lossy ?s (floor_of ws sub (w\<lparr>wd_net := n, wd_db := wd_db w\<rparr>))" for n
      using lossy_step.cut_short [OF mine] rest by (simp add: floor_of_def floor_step.loss)
    show ?thesis
      unfolding w' by (rule pool_alone [OF alone, where stmt = ?stmt and w = w]) (use refused dropped in auto)
  qed
qed

lemma create_is_a_run:
  fixes app :: "('s, 'n, 'd, 'r) app"
  assumes alone: "alone lossy app" and ok: "db_ok (wd_db w)"
    and fresh: "never_used (floor_of ws sub w) (fst (ap_fresh app (snd (ap_pool app (wd_net w)))))"
    and run: "on_pool app (\<lambda>now fresh. jobs_create now fresh new) w = (r, w')"
  shows "(floor_step (ap_inet_ok app) lossy)\<^sup>*\<^sup>* (floor_of ws sub w)
      (floor_of ws (case r of Inl _ \<Rightarrow> sub | Inr j \<Rightarrow> sub @ [job_id j]) w') \<and>
    (\<forall>j. r = Inr j \<longrightarrow> job_id j \<notin> set sub)"
proof (cases rule: pool_alone [OF alone, where stmt = "\<lambda>now fresh. jobs_create now fresh new" and w = w])
  case (1 now u n)
  obtain res db where made: "jobs_create now u new (wd_db w) = (res, db)" by fastforce
  note c = create_status(2) [OF ok made]
  have used: "never_used (floor_of ws sub w) u" using fresh 1(1) by simp
  show ?thesis
  proof (cases res)
    case (Inl e)
    then show ?thesis using c run made by (auto simp: 1(2) floor_of_def)
  next
    case (Inr j)
    have "floor_step (ap_inet_ok app) lossy (floor_of ws sub w) (floor_of ws (sub @ [job_id j]) w')"
      using floor_step.submit [OF used, of now new j db "ap_inet_ok app" lossy] run made by (auto simp: 1(2) Inr floor_of_def)
    then show ?thesis using run made c used by (auto simp: 1(2) Inr never_used_def)
  qed
next
  case (2 e n now u db)
  have used: "never_used (floor_of ws sub w) u" using fresh 2(1) by simp
  have w': "r = Inl e" "w' = w\<lparr>wd_net := n, wd_db := db\<rparr>" using run by (simp_all add: 2(3))
  have "floor_of ws sub w' = floor_of ws sub w \<or> lossy_step (floor_of ws sub w) (floor_of ws sub w')"
    using lossy_step.insert_lost [OF used, of now new] 2(4) by (auto simp: w' floor_of_def)
  then have "(floor_step (ap_inet_ok app) lossy)\<^sup>*\<^sup>* (floor_of ws sub w) (floor_of ws sub w')"
    using 2(2) by (auto intro: floor_step.loss)
  then show ?thesis by (simp add: w')
qed

text \<open>
  A generation request is a run as well: whatever it is answered, it inserts, queues or refuses as the
  relation says, provided the id the database draws for the row has not been used.
\<close>

lemma generate_is_a_run:
  fixes app :: "('s, 'n, 'd, 'r) app"
  assumes alone: "alone lossy app" and ok: "floor_ok lossy (floor_of ws sub w)"
    and fresh: "\<And>x w1. admission app lower su parts w = (Inr x, w1) \<Longrightarrow>
      never_used (floor_of ws sub w1) (fst (ap_fresh app (snd (ap_pool app (wd_net w1)))))"
    and run: "generate app lower client su parts w = (r, w')"
  shows "(floor_step (ap_inet_ok app) lossy)\<^sup>*\<^sup>* (floor_of ws sub w) (floor_of ws sub w')"
proof -
  let ?steps = "(floor_step (ap_inet_ok app) lossy)\<^sup>*\<^sup>*"
  obtain ra w1 where adm: "admission app lower su parts w = (ra, w1)" by fastforce
  have 1: "?steps (floor_of ws sub w) (floor_of ws sub w1)"
    using keepsD' [OF keeps_reaches_admission [OF alone] adm] by (simp add: reaches_def)
  show ?thesis
  proof (cases ra)
    case (Inl e)
    then show ?thesis using 1 run by (simp add: generate_parts attempt_def adm)
  next
    case (Inr x)
    obtain uid new where x: "x = (uid, new)" by fastforce
    obtain rc w2 where make: "on_pool app (\<lambda>now fresh. jobs_create now fresh new) w1 = (rc, w2)" by fastforce
    have ok1: "db_ok (wd_db w1)" using floor_okD(1) [OF floor_steps_ok [OF 1 ok]] by simp
    note 2 = create_is_a_run [OF alone ok1 fresh [OF adm [unfolded Inr]] make]
    show ?thesis
    proof (cases rc)
      case Inl2: (Inl e)
      then show ?thesis
        using 1 2 run by (auto simp: generate_parts attempt_def adm Inr x submission_def map_err_def make)
    next
      case Inr2: (Inr j)
      let ?entry = "job_audit GenerationRequested ''job'' uid (job_id j) client"
      obtain ro w3 where "on_pool app (\<lambda>now _. audit_record (ap_inet_ok app) now ?entry) w2 = (ro, w3)" by fastforce
      then have audit: "try_audit app ?entry w2 = (Inr () :: app_error + unit, w3)"
        by (cases ro) (simp_all add: try_audit_def handle_def succeed_def)
      have 3: "?steps (floor_of ws (sub @ [job_id j]) w2) (floor_of ws (sub @ [job_id j]) w3)"
        using keepsD' [OF keeps_reaches_helpers(2) [OF alone] audit] by (simp add: reaches_def)
      have "queue_or_fail app j w3 = (r, w')"
        using run by (simp add: generate_parts attempt_def adm Inr x submission_def map_err_def make Inr2 audit)
      from hand_over_is_a_run [OF alone _ this] 2 have 4: "?steps (floor_of ws (sub @ [job_id j]) w3) (floor_of ws sub w')"
        by (simp add: Inr2)
      show ?thesis using 1 2 3 4 by (simp add: Inr2) (meson rtranclp_trans)
    qed
  qed
qed

text \<open>The other endpoints of the API take other statements only.\<close>

lemma keeps_reaches_discard [keeps_intros]: "keeps (reaches app lossy ws sub s) (discard_files app paths)"
  by (induction paths) (auto simp: delete_file_def intro!: keeps_intros)

lemma own_jobs_are_runs:
  fixes app :: "('s, 'n, 'd, 'r) app"
  assumes "alone lossy app"
  shows "keeps (reaches app lossy ws sub s) (set_visibility app u i hidden)"
    "keeps (reaches app lossy ws sub s) (delete_job app client u i)"
    "keeps (reaches app lossy ws sub s) (job_status_handler app u i)" "keeps (reaches app lossy ws sub s) (job_card_handler app u i)"
    "keeps (reaches app lossy ws sub s) (job_events app u i)" "keeps (reaches app lossy ws sub s) (asset_link app client u i n)"
  unfolding set_visibility_def delete_job_def pool_delete_for_user_def job_status_handler_def job_card_handler_def job_events_def
    asset_link_def load_own_job_def card_for_def the_read_url_def
  by (intro keeps_intros keeps_reaches_pool assms other_reads other_statements)+

end
