(* ===== verification/Labels.thy ===== *)
theory Labels
  imports I18n
begin

text \<open>
  The labels of the catalogue (\<open>i18n.rs\<close>) that only the templates show, in the order of the source.
  With \<open>I18n\<close>, which holds the texts that the code itself returns, the whole catalogue.
\<close>

abbreviation AA :: string where "AA \<equiv> [CHR 0xC3, CHR 0x85]"
abbreviation larr :: string where "larr \<equiv> [CHR 0xE2, CHR 0x86, CHR 0x90]"
abbreviation rarr :: string where "rarr \<equiv> [CHR 0xE2, CHR 0x86, CHR 0x92]"

section \<open>Shell / chrome\<close>

definition LANG :: string where "LANG = ''nb''"
definition BRAND :: string where "BRAND = ''Oslofjord IT''"
definition APP_TITLE :: string where "APP_TITLE = ''Mediagenerator''"
definition APP_DESCRIPTION :: string where "APP_DESCRIPTION = ''Lag bilder, lyd og video med AI.''"
definition NAV_MY_HISTORY :: string where "NAV_MY_HISTORY = ''Min historikk''"
definition NAV_LOGOUT :: string where "NAV_LOGOUT = ''Logg ut''"
definition NAV_LOGIN :: string where "NAV_LOGIN = ''Logg inn med Oslofjord-konto''"
definition NAV_USER_MENU_LABEL :: string where "NAV_USER_MENU_LABEL = AA @ ''pne brukermeny''"

section \<open>Hero\<close>

definition HERO_EYEBROW :: string where "HERO_EYEBROW = ''Generer med AI''"
definition HERO_TITLE_LEAD :: string where "HERO_TITLE_LEAD = ''Media''"
definition HERO_TITLE_ACCENT :: string where "HERO_TITLE_ACCENT = ''generator''"
definition HERO_SUBTITLE_1 :: string where "HERO_SUBTITLE_1 = ''Lag bilder, lyd og video med AI.''"
definition HERO_SUBTITLE_2 :: string where "HERO_SUBTITLE_2 = ''Beskriv hva du '' @ oe @ ''nsker og velg medietype.''"

section \<open>Generator card\<close>

definition PROMPT_PLACEHOLDER :: string where "PROMPT_PLACEHOLDER = ''Beskriv mediet du vil generere'' @ dots"
definition PROMPT_LABEL :: string where "PROMPT_LABEL = ''Beskrivelse av det du vil generere''"
definition MEDIA_TYPE_LEGEND :: string where "MEDIA_TYPE_LEGEND = ''Velg medietype''"
definition MEDIA_IMAGE_SUB :: string where "MEDIA_IMAGE_SUB = ''Bilder og illustrasjoner''"
definition MEDIA_AUDIO_SUB :: string where "MEDIA_AUDIO_SUB = ''Tekst lest opp som tale''"
definition MEDIA_VIDEO_SUB :: string where "MEDIA_VIDEO_SUB = ''Korte videoklipp''"
definition GENERATE :: string where "GENERATE = ''Generer''"
definition GENERATING :: string where "GENERATING = ''Genererer'' @ dots"

section \<open>Model options\<close>

definition OPTIONS_LABEL :: string where "OPTIONS_LABEL = ''Valg''"
definition OPTIONS_HINT :: string where "OPTIONS_HINT = ''Disse valgene gjelder valgt medietype (''"
definition NO_FILE_CHOSEN :: string where "NO_FILE_CHOSEN = ''Ingen fil valgt''"
definition CHOOSE_FILE :: string where "CHOOSE_FILE = ''Velg fil''"
definition REFERENCE_IMAGE :: string where "REFERENCE_IMAGE = ''Referansebilde''"
definition REFERENCE_IMAGE_HINT :: string where "REFERENCE_IMAGE_HINT = ''Valgfritt. Last opp et bilde modellen skal ta utgangspunkt i.''"
definition REFERENCE_VIDEO_HINT :: string where "REFERENCE_VIDEO_HINT = ''Valgfritt. Bildet blir f'' @ oe @ ''rste bilde i klippet, og videoen fortsetter derfra.''"
definition IMAGE_SIZE :: string where "IMAGE_SIZE = ''St'' @ oe @ ''rrelse''"
definition IMAGE_SIZE_SQUARE :: string where "IMAGE_SIZE_SQUARE = ''Kvadratisk''"
definition IMAGE_SIZE_LANDSCAPE :: string where "IMAGE_SIZE_LANDSCAPE = ''Liggende''"
definition IMAGE_SIZE_PORTRAIT :: string where "IMAGE_SIZE_PORTRAIT = ''St'' @ aa @ ''ende''"
definition IMAGE_QUALITY :: string where "IMAGE_QUALITY = ''Kvalitet''"
definition QUALITY_LOW :: string where "QUALITY_LOW = ''Lav (raskest)''"
definition QUALITY_MEDIUM :: string where "QUALITY_MEDIUM = ''Middels''"
definition QUALITY_HIGH :: string where "QUALITY_HIGH = ''H'' @ oe @ ''y (tar lengst tid)''"
definition AUDIO_HINT :: string where "AUDIO_HINT = ''Teksten over leses opp ord for ord. Modellen lager ikke musikk eller lydeffekter.''"
definition AUDIO_VOICE :: string where "AUDIO_VOICE = ''Stemme''"
definition VOICE_NOVA :: string where "VOICE_NOVA = ''Nova '' @ dash @ '' lys og vennlig''"
definition VOICE_ALLOY :: string where "VOICE_ALLOY = ''Alloy '' @ dash @ '' n'' @ oe @ ''ytral''"
definition VOICE_ECHO :: string where "VOICE_ECHO = ''Echo '' @ dash @ '' rolig''"
definition VOICE_FABLE :: string where "VOICE_FABLE = ''Fable '' @ dash @ '' fortellende''"
definition VOICE_ONYX :: string where "VOICE_ONYX = ''Onyx '' @ dash @ '' dyp''"
definition VOICE_SHIMMER :: string where "VOICE_SHIMMER = ''Shimmer '' @ dash @ '' varm''"
definition VIDEO_LENGTH :: string where "VIDEO_LENGTH = ''Lengde''"
definition VIDEO_4S :: string where "VIDEO_4S = ''4 sekunder''"
definition VIDEO_8S :: string where "VIDEO_8S = ''8 sekunder''"
definition VIDEO_12S :: string where "VIDEO_12S = ''12 sekunder''"
definition VIDEO_FORMAT :: string where "VIDEO_FORMAT = ''Format''"
definition VIDEO_LANDSCAPE :: string where "VIDEO_LANDSCAPE = ''Liggende''"
definition VIDEO_PORTRAIT :: string where "VIDEO_PORTRAIT = ''St'' @ aa @ ''ende''"
definition VIDEO_LANDSCAPE_WIDE :: string where "VIDEO_LANDSCAPE_WIDE = ''Liggende, bred''"
definition VIDEO_PORTRAIT_TALL :: string where "VIDEO_PORTRAIT_TALL = ''St'' @ aa @ ''ende, h'' @ oe @ ''y''"
definition SKIP_TO_CONTENT :: string where "SKIP_TO_CONTENT = ''Hopp til hovedinnhold''"

section \<open>Result / gallery\<close>

definition GENERATED_HEADING :: string where "GENERATED_HEADING = ''Generert''"
definition GENERATED_LINK :: string where "GENERATED_LINK = ''Se ferdig generert innhold''"
definition DOWNLOAD :: string where "DOWNLOAD = ''Last ned''"
definition COPY_LINK :: string where "COPY_LINK = ''Kopier lenke''"
definition REGENERATE :: string where "REGENERATE = ''Generer p'' @ aa @ '' nytt''"
definition TOAST_DONE :: string where "TOAST_DONE = ''Genereringen er ferdig''"
definition RESULT_HEADING :: string where "RESULT_HEADING = ''Resultat''"
definition RESULT_PENDING_HEADING :: string where "RESULT_PENDING_HEADING = ''Genererer''"
definition RESULT_FAILED_HEADING :: string where "RESULT_FAILED_HEADING = ''Genereringen feilet''"
definition PENDING_SAFE_TO_LEAVE :: string where "PENDING_SAFE_TO_LEAVE = ''Du kan trygt navigere vekk eller oppdatere siden. Du f'' @ aa @ ''r beskjed n'' @ aa @ ''r den er ferdig.''"
definition RESULT_PROMPT_LABEL :: string where "RESULT_PROMPT_LABEL = ''Beskrivelse:''"
definition RESULT_MOCK_NOTICE :: string where "RESULT_MOCK_NOTICE = ''Forh'' @ aa @ ''ndsvisning kommer n'' @ aa @ ''r genereringen kobles mot Azure AI Foundry. Grensesnittet er ferdig '' @ dash @ '' dette er en test av flyten.''"
definition TRY_SIGN_IN_AGAIN :: string where "TRY_SIGN_IN_AGAIN = ''Pr'' @ oe @ ''v '' @ aa @ '' logge inn p'' @ aa @ '' nytt''"
definition SUPPORT_REFERENCE :: string where "SUPPORT_REFERENCE = ''Oppgi denne referansen ved henvendelse:''"
definition FILTERS_LABEL :: string where "FILTERS_LABEL = ''Filtrer og sorter''"
definition FILTER_SCOPE :: string where "FILTER_SCOPE = ''Vis''"
definition FILTER_OWN :: string where "FILTER_OWN = ''Egne''"
definition FILTER_ALL :: string where "FILTER_ALL = ''Alle''"
definition FILTER_TYPE :: string where "FILTER_TYPE = ''Type''"
definition FILTER_ALL_TYPES :: string where "FILTER_ALL_TYPES = ''Alle''"
definition FILTER_SORT :: string where "FILTER_SORT = ''Sorter''"
definition SORT_NEWEST :: string where "SORT_NEWEST = ''Nyeste''"
definition SORT_OLDEST :: string where "SORT_OLDEST = ''Eldste''"
definition EMPTY_NOTHING_FOUND :: string where "EMPTY_NOTHING_FOUND = ''Ingenting '' @ aa @ '' vise her enn'' @ aa @ ''. Pr'' @ oe @ ''v et annet filter, eller generer noe nytt.''"
definition NO_PREVIEW :: string where "NO_PREVIEW = ''Ingen forh'' @ aa @ ''ndsvisning''"
definition OPEN_FULLSCREEN :: string where "OPEN_FULLSCREEN = AA @ ''pne i fullskjerm''"
definition FULLSCREEN_LABEL :: string where "FULLSCREEN_LABEL = ''Fullskjermvisning''"
definition CLOSE :: string where "CLOSE = ''Lukk''"
definition HIDDEN_MARKER :: string where "HIDDEN_MARKER = ''skjult for andre''"
definition HIDE_FROM_OTHERS :: string where "HIDE_FROM_OTHERS = ''Skjul for andre''"
definition SHOW_TO_OTHERS :: string where "SHOW_TO_OTHERS = ''Vis for andre''"
definition DELETE_LABEL :: string where "DELETE_LABEL = ''Slett''"
definition CONFIRM_DELETE :: string where "CONFIRM_DELETE = ''Slette denne for godt? B'' @ aa @ ''de beskrivelsen og filen fjernes, og det kan ikke angres.''"
definition HIDDEN_DONE :: string where "HIDDEN_DONE = ''Skjult for andre''"
definition SHOWN_DONE :: string where "SHOWN_DONE = ''Synlig for andre igjen''"
definition DELETED_DONE :: string where "DELETED_DONE = ''Slettet''"
definition BY_YOU :: string where "BY_YOU = ''Generert av deg''"
definition PAGINATION_LABEL :: string where "PAGINATION_LABEL = ''Sidenavigasjon''"
definition PREVIOUS_PAGE :: string where "PREVIOUS_PAGE = larr @ '' Forrige''"
definition NEXT_PAGE :: string where "NEXT_PAGE = ''Neste '' @ rarr"
definition EMPTY_COMING_IN_PHASE_6 :: string where "EMPTY_COMING_IN_PHASE_6 = ''Denne siden fylles med innhold senere.''"
definition BACK_TO_GENERATOR :: string where "BACK_TO_GENERATOR = ''Tilbake til generatoren''"
definition COPIED :: string where "COPIED = ''Lenken er kopiert''"

section \<open>Footer\<close>

definition FOOTER :: string where "FOOTER = ''Vibecoding for the win''"

end
