(* ===== verification/Cut.thy ===== *)
theory Cut
  imports Startup
begin

text \<open>
  A request for a generation that is cut short (\<open>api.rs\<close>, \<open>lib.rs\<close>). The timeout layer, or the client
  going away, drops the future of the handler where it waits: what it has done stays done, the rest
  is never done, and no error path runs.
\<close>

section \<open>A handler that is dropped\<close>

text \<open>The handler is dropped at a place where it waits, and nobody sees an answer.\<close>

definition go_on :: "bool \<Rightarrow> ('w, 'e, 'a) action \<Rightarrow> ('a \<Rightarrow> ('w, 'e, 'b option) action) \<Rightarrow> ('w, 'e, 'b option) action" where
  "go_on b m k = (if b then attempt m k else succeed None)"

text \<open>
  \<open>generate\<close>, dropped after \<open>k\<close> of its six steps that wait for the session, the database or the
  store.
\<close>

definition generate_until ::
  "nat \<Rightarrow> ('s, 'n, 'd, 'r) app \<Rightarrow> (string \<Rightarrow> string) \<Rightarrow> client_info \<Rightarrow> session_user \<Rightarrow> multipart \<Rightarrow> ('s, 'n, 'd, app_error, job_card option) act" where
  "generate_until k app lower client u parts =
     attempt (of_result (read_fields parts)) (\<lambda>f.
     attempt (of_result (case gf_media_type f of None \<Rightarrow> Inl (AppValidation ERR_UNKNOWN_MEDIA_TYPE) | Some m \<Rightarrow> Inr m)) (\<lambda>m.
     attempt (of_result (map_sum of_domain_error id (validate_prompt (gf_prompt f) (cf_max_prompt_chars (ap_config app))))) (\<lambda>prompt.
     go_on (1 \<le> k) (local_user_id app u) (\<lambda>uid.
     go_on (2 \<le> k) (ratelimit_check app uid (cf_rate_limit_per_hour (ap_config app))) (\<lambda>_.
     go_on (3 \<le> k) (store_reference app lower m (gf_reference f)) (\<lambda>path.
     go_on (4 \<le> k) (map_err app_storage_error (on_pool app (\<lambda>now fresh. jobs_create now fresh
         \<lparr>new_user_id = uid, new_media_type = m, new_prompt = prompt, new_parameters = generate_parameters f m path\<rparr>))) (\<lambda>j.
     go_on (5 \<le> k) (try_audit app (job_audit GenerationRequested ''job'' uid (job_id j) client)) (\<lambda>_.
     go_on (6 \<le> k) (queue_or_fail app j) (\<lambda>shown. succeed (Some shown))))))))))"

lemma go_on_simps [simp]: "go_on True m k = attempt m k" "go_on False m k = succeed None"
  by (simp_all add: go_on_def)

lemma keeps_go_on [keeps_intros]: "keeps I m \<Longrightarrow> (\<And>x. keeps I (k x)) \<Longrightarrow> keeps I (go_on b m k)"
  by (auto simp: go_on_def intro: keeps_intros)

text \<open>A handler that is not dropped is the handler.\<close>

lemma generate_until_end:
  "6 \<le> k \<Longrightarrow> generate_until k app lower client u parts = attempt (generate app lower client u parts) (\<lambda>shown. succeed (Some shown))"
  by (simp add: generate_until_def generate_def attempt_assoc)

text \<open>Dropped before the row is written, it has changed no job; dropped after, it has written the row.\<close>

lemma generate_until_before:
  assumes "quiet app" and "k < 4"
  shows "keeps (rest_kept db x) (generate_until k app lower client u parts)"
  using assms(2) unfolding generate_until_def
  by (auto intro!: keeps_intros keeps_rest_helpers [OF assms(1)])

lemma generate_until_written:
  assumes "4 \<le> k" and "k < 6"
  shows "generate_until k app lower client u parts = attempt (admission app lower u parts) (\<lambda>(uid, new).
     attempt (map_err app_storage_error (on_pool app (\<lambda>now fresh. jobs_create now fresh new))) (\<lambda>j.
     go_on (5 \<le> k) (try_audit app (job_audit GenerationRequested ''job'' uid (job_id j) client)) (\<lambda>_. succeed None)))"
  using assms by (simp add: generate_until_def admission_def attempt_assoc)

lemma generate_until_none_early:
  assumes "generate_until k app lower client u parts w = (Inr (Some shown), w')"
  shows "6 \<le> k"
proof (rule ccontr)
  assume "\<not> 6 \<le> k"
  then show False using assms unfolding generate_until_def
    by (auto elim!: attempt_okE simp: go_on_def succeed_def split: if_splits)
qed


text \<open>
  The two steps between the row and the queue: whatever happens, the row is there, it is queued, and
  the queue does not have its id.
\<close>

lemma dropped_between:
  fixes app :: "('s, 'n, 'd, 'r) app"
  assumes quiet: "quiet app" and kept: "rest_kept db x w"
    and run: "attempt (map_err app_storage_error (on_pool app (\<lambda>now fresh. jobs_create now fresh new))) (\<lambda>j.
      go_on b (try_audit app (job_audit GenerationRequested ''job'' uid (job_id j) client)) (\<lambda>_. succeed (None :: job_card option))) w = (r, w')"
  shows "case r of Inl _ \<Rightarrow> rest_kept db x w'
    | Inr shown \<Rightarrow> shown = None \<and> (\<exists>now fresh. fresh \<notin> j_id ` set (jobs db) \<and>
        rest_kept (db\<lparr>jobs := jobs db @ [queued_row now fresh new]\<rparr>) x w')"
proof -
  obtain rc w2 where c: "on_pool app (\<lambda>now fresh. jobs_create now fresh new) w = (rc, w2)" by fastforce
  note made = create_quiet [OF quiet kept c]
  show ?thesis
  proof (cases rc)
    case (Inl e)
    then show ?thesis using run c made by (auto simp: attempt_def map_err_def)
  next
    case (Inr j)
    then obtain now fresh where fresh: "fresh \<notin> j_id ` set (jobs db)"
      and k2: "rest_kept (db\<lparr>jobs := jobs db @ [queued_row now fresh new]\<rparr>) x w2" using made by auto
    let ?rest = "go_on b (try_audit app (job_audit GenerationRequested ''job'' uid (job_id j) client)) (\<lambda>_. succeed None) :: ('s, 'n, 'd, app_error, job_card option) act"
    let ?db = "db\<lparr>jobs := jobs db @ [queued_row now fresh new]\<rparr>"
    have last: "?rest w2 = (r, w')" using run c Inr by (simp add: attempt_def map_err_def)
    have "keeps (rest_kept ?db x) ?rest" by (intro keeps_intros keeps_rest_helpers [OF quiet])
    from keepsD [OF this k2] last have "rest_kept ?db x w'" by simp
    moreover have "r = Inr None"
      using last by (cases b) (auto simp: try_audit_def handle_def attempt_def succeed_def split: prod.splits sum.splits)
    ultimately show ?thesis using fresh by auto
  qed
qed

lemma admission_caller:
  assumes "admission app lower u parts w = (Inr (uid, new), w')"
  shows "fst (local_user_id app u w) = Inr uid" and "new_user_id new = uid"
  using assms unfolding admission_def
  by (auto elim!: attempt_okE simp: of_result_def succeed_def split: option.splits sum.splits)

text \<open>The handler that is not dropped: on an error it has changed no job.\<close>

lemma generate_leaves:
  fixes app :: "('s, 'n, 'd, 'r) app"
  assumes quiet: "quiet app" and ok: "db_ok (wd_db w)" and run: "generate app lower client u parts w = (r, w')"
  shows "db_ok (wd_db w') \<and> assets (wd_db w') = assets (wd_db w) \<and> wd_events w' = wd_events w \<and>
    (case r of Inl _ \<Rightarrow> jobs (wd_db w') = jobs (wd_db w) \<and> wd_queue w' = wd_queue w | Inr _ \<Rightarrow> True)"
proof (cases rule: generate_quiet [OF quiet ok run])
  case (1 e w1)
  then show ?thesis by (simp add: rest_kept_def aside_def)
next
  case (2 uid new w1)
  note submission_quiet [OF quiet 2(2) [unfolded aside_def] 2(5)]
  then show ?thesis by (cases r) (auto simp: rest_kept_def aside_def split: if_splits)
qed

text \<open>Dropped between the insert and the queue.\<close>

lemma generate_dropped_late:
  fixes app :: "('s, 'n, 'd, 'r) app"
  assumes quiet: "quiet app" and ok: "db_ok (wd_db w)" and run: "generate_until k app lower client u parts w = (r, w')"
    and k: "4 \<le> k" "k < 6"
  shows "case r of Inl _ \<Rightarrow> rest_kept (wd_db w) (aside w) w'
    | Inr shown \<Rightarrow> shown = None \<and> (\<exists>row. j_id row \<notin> j_id ` set (jobs (wd_db w)) \<and>
        fst (local_user_id app u w) = Inr (j_user_id row) \<and> row_status row = Queued \<and>
        rest_kept ((wd_db w)\<lparr>jobs := jobs (wd_db w) @ [row]\<rparr>) (aside w) w')"
proof -
  note run' = run [unfolded generate_until_written [OF k]]
  obtain ra w1 where adm: "admission app lower u parts w = (ra, w1)" by fastforce
  have k1: "rest_kept (wd_db w) (aside w) w1"
    using keepsD' [OF keeps_admission [OF quiet] adm, of "wd_db w" "aside w"] ok by (simp add: rest_kept_def)
  show ?thesis
  proof (cases ra)
    case (Inl e)
    then show ?thesis using run' adm k1 by (auto simp: attempt_def)
  next
    case (Inr x)
    obtain uid new where x: "x = (uid, new)" by (cases x)
    note who = admission_caller [OF adm [unfolded Inr x]]
    have "attempt (map_err app_storage_error (on_pool app (\<lambda>now fresh. jobs_create now fresh new))) (\<lambda>j.
        go_on (5 \<le> k) (try_audit app (job_audit GenerationRequested ''job'' uid (job_id j) client)) (\<lambda>_. succeed None)) w1 = (r, w')"
      using run' adm by (simp add: Inr x attempt_ok)
    note dropped = dropped_between [OF quiet k1 this]
    show ?thesis
    proof (cases r)
      case (Inr shown)
      with dropped obtain now fresh where "shown = None" "fresh \<notin> j_id ` set (jobs (wd_db w))"
        "rest_kept ((wd_db w)\<lparr>jobs := jobs (wd_db w) @ [queued_row now fresh new]\<rparr>) (aside w) w'" by auto
      then show ?thesis using who Inr by (auto intro!: exI [of _ "queued_row now fresh new"])
    qed (use dropped in simp)
  qed
qed

text \<open>
  C8: a request that is cut short never does anything by halves that a restart does not put right. Dropped
  before the row of the job is written, it has changed no job and no queue. Dropped after it, it has
  added one row, the caller's and queued, whose id is in no queue: it waits until the next start of
  the process, which leaves no row unfinished. Dropped later, it has done all that the handler does.
\<close>

theorem cut_request_leaves_no_half_job:
  fixes app :: "('s, 'n, 'd, 'r) app"
  assumes quiet: "quiet app" and ok: "db_ok (wd_db w)" and run: "generate_until k app lower client u parts w = (r, w')"
    and restart: "fail_orphans app w' = (started, w'')"
  shows "assets (wd_db w') = assets (wd_db w) \<and> wd_events w' = wd_events w \<and>
    (case r of
       Inr (Some shown) \<Rightarrow> generate app lower client u parts w = (Inr shown, w')
     | Inr None \<Rightarrow> wd_queue w' = wd_queue w \<and> (if k < 4 then jobs (wd_db w') = jobs (wd_db w)
         else \<exists>row. jobs (wd_db w') = jobs (wd_db w) @ [row] \<and> j_id row \<notin> j_id ` set (jobs (wd_db w)) \<and>
           fst (local_user_id app u w) = Inr (j_user_id row) \<and> row_status row = Queued)
     | Inl e \<Rightarrow> jobs (wd_db w') = jobs (wd_db w) \<and> wd_queue w' = wd_queue w) \<and>
    started = Inr () \<and> (\<forall>row \<in> set (jobs (wd_db w'')). \<not> unfinished row)"
proof -
  let ?done = "case r of
       Inr (Some shown) \<Rightarrow> generate app lower client u parts w = (Inr shown, w')
     | Inr None \<Rightarrow> wd_queue w' = wd_queue w \<and> (if k < 4 then jobs (wd_db w') = jobs (wd_db w)
         else \<exists>row. jobs (wd_db w') = jobs (wd_db w) @ [row] \<and> j_id row \<notin> j_id ` set (jobs (wd_db w)) \<and>
           fst (local_user_id app u w) = Inr (j_user_id row) \<and> row_status row = Queued)
     | Inl e \<Rightarrow> jobs (wd_db w') = jobs (wd_db w) \<and> wd_queue w' = wd_queue w"
  have start: "rest_kept (wd_db w) (aside w) w" using ok by (simp add: rest_kept_def)
  consider "k < 4" | "4 \<le> k" "k < 6" | "6 \<le> k" by linarith
  then have "db_ok (wd_db w') \<and> assets (wd_db w') = assets (wd_db w) \<and> wd_events w' = wd_events w \<and> ?done"
  proof cases
    case 1
    have "rest_kept (wd_db w) (aside w) w'" using keepsD' [OF generate_until_before [OF quiet 1] run start] .
    moreover have "r \<noteq> Inr (Some shown)" for shown using generate_until_none_early run 1 by fastforce
    ultimately show ?thesis using 1 by (auto simp: rest_kept_def aside_def split: sum.split option.split)
  next
    case 2
    show ?thesis
      using generate_dropped_late [OF quiet ok run 2] 2 by (cases r) (auto simp: rest_kept_def aside_def)
  next
    case 3
    obtain rg wg where g: "generate app lower client u parts w = (rg, wg)" by fastforce
    have "w' = wg" "r = map_sum id Some rg"
      using run g by (auto simp: generate_until_end [OF 3] attempt_def succeed_def split: sum.splits)
    then show ?thesis using generate_leaves [OF quiet ok g] g by (cases rg) auto
  qed
  then show ?thesis using fail_orphans_quiet [OF quiet _ restart] by blast
qed


theorem cut_request_leaves_no_half_job_witness:
  "let w' = snd (generate_until 4 sample_app (\<lambda>s. s) sample_client sample_session_user sample_form
       (sample_world sample_db [USER_ID_KEY \<mapsto> UuidEntry 1]))
   in (\<exists>row. jobs (wd_db w') = jobs sample_db @ [row] \<and> row_status row = Queued \<and> j_user_id row = 1) \<and> wd_queue w' = [] \<and>
      (\<forall>row \<in> set (jobs (wd_db (snd (fail_orphans sample_app w')))). \<not> unfinished row)"
proof -
  let ?w = "sample_world sample_db [USER_ID_KEY \<mapsto> UuidEntry 1]"
  let ?cut = "generate_until 4 sample_app (\<lambda>s. s) sample_client sample_session_user sample_form ?w"
  have "fst ?cut = Inr None"
    unfolding attempt_ok [where m = "admission sample_app (\<lambda>s. s) sample_session_user sample_form", OF sample_admission]
      generate_until_written [of 4, simplified]
    by (simp add: action_defs on_pool_def sample_world_def jobs_create_def sample_db_def sample_job_def sample_user_def Let_def)
  then obtain w' where run: "?cut = (Inr None, w')" by (cases ?cut) auto
  obtain started w'' where restart: "fail_orphans sample_app w' = (started, w'')" by fastforce
  have w: "db_ok (wd_db ?w)" "wd_queue ?w = []" "wd_db ?w = sample_db" by (simp_all add: sample_world_def sample_db_ok)
  from cut_request_leaves_no_half_job [OF sample_quiet w(1) run restart] show ?thesis
    by (auto simp: run restart w sample_local_user Let_def)
qed

end
