(* ===== verification/Deletion.thy ===== *)
theory Deletion
  imports Cut Retention
begin

text \<open>
  Deleting one's own generation (\<open>delete_job\<close> of \<open>api.rs\<close>), run to its end or dropped on the way: what
  goes from the tables goes at once, the files one after the other once it is gone.
\<close>

section \<open>The handler, dropped on the way\<close>

text \<open>
  \<open>delete_job\<close>, dropped after \<open>k\<close> of the steps it waits for: the local user, the paths, the deletion of the
  row, one call of the store for each file, the audit line.
\<close>

definition delete_until ::
  "nat \<Rightarrow> ('s, 'n, 'd, 'r) app \<Rightarrow> client_info \<Rightarrow> session_user \<Rightarrow> uuid \<Rightarrow> ('s, 'n, 'd, app_error, unit option) act" where
  "delete_until k app client u i =
     go_on (1 \<le> k) (local_user_id app u) (\<lambda>uid.
     go_on (2 \<le> k) (map_err app_storage_error (on_pool app (\<lambda>_ _. jobs_asset_paths i uid))) (\<lambda>paths.
     go_on (3 \<le> k) (map_err app_storage_error (on_pool app (\<lambda>_ _. jobs_delete_own i uid))) (\<lambda>rows_affected.
     attempt (map_err app_storage_error (if rows_affected = 0 then fail StorageNotFound else succeed ())) (\<lambda>_.
     attempt (discard_files app (take (k - 3) paths)) (\<lambda>_.
     go_on (4 + length paths \<le> k) (try_audit app (job_audit GenerationDeleted ''job'' uid i client)) (\<lambda>_.
       succeed (Some ())))))))"

section \<open>The files\<close>

definition deletes_work :: "('s, 'n, 'd, 'r) app \<Rightarrow> bool" where
  "deletes_work app \<longleftrightarrow> (\<forall>path n. fst (blob_delete (ap_store app) (ap_blob_token app) (ap_blob_send app) path n) = Inr ())"

lemma discard_filesD:
  assumes "discard_files app paths w = (r, w')" and "container_view app gone"
  shows "r = Inr () \<and> w' = w\<lparr>wd_net := wd_net w'\<rparr> \<and> (\<forall>p. gone p (wd_net w) \<longrightarrow> gone p (wd_net w')) \<and>
    (deletes_work app \<longrightarrow> (\<forall>p \<in> set paths. gone p (wd_net w')))"
  using assms(1)
proof (induction paths arbitrary: w)
  case (Cons p ps)
  obtain q n where del: "blob_delete (ap_store app) (ap_blob_token app) (ap_blob_send app) p (wd_net w) = (q, n)" by fastforce
  have stays: "gone p' (wd_net w) \<Longrightarrow> gone p' n" for p'
    using assms(2) del unfolding container_view_def by (metis snd_conv)
  have done_: "deletes_work app \<Longrightarrow> gone p n"
    using assms(2) del unfolding container_view_def deletes_work_def by (metis fst_conv)
  have "discard_files app ps (w\<lparr>wd_net := n\<rparr>) = (r, w')"
    using Cons.prems del by (cases q) (auto simp: handle_def delete_file_def world_defs)
  from Cons.IH [OF this] show ?case using stays done_ by simp
qed (simp add: succeed_def)

section \<open>The tables\<close>

text \<open>Both statements for the owner: the paths of the assets that go with the row.\<close>

lemma own_deletion:
  assumes ok: "db_ok db" and own: "job_owner db i = Some uid"
  obtains paths n db' where "jobs_asset_paths i uid db = (Inr paths, db)"
    and "jobs_delete_own i uid db = (Inr n, db')" and "n \<noteq> 0" and "db_ok db'"
    and "job_table db' = (job_table db)(i := None)"
    and "mset (map a_blob_path (assets db)) = mset paths + mset (map a_blob_path (assets db'))"
    and "users db' = users db" and "audit_log db' = audit_log db"
proof -
  obtain paths where 1: "jobs_asset_paths i uid db = (Inr paths, db)" by (simp add: jobs_asset_paths_def select_op_def)
  obtain n db' where 2: "jobs_delete_own i uid db = (Inr n, db')" by (simp add: jobs_delete_own_def Let_def)
  have both: "jobs_delete_for_user i uid db = ((if n = 0 then Inl StorageNotFound else Inr paths), db')"
    by (simp add: jobs_delete_for_user_def attempt_def 1 2 fail_def succeed_def)
  have "n \<noteq> 0" using job_deletes.granted [OF ok own] both by (auto split: if_splits)
  moreover have "db_ok db'" using keepsD [OF keeps_jobs_deletes(3) [of i uid] ok] both by simp
  moreover have "users db' = users db" "audit_log db' = audit_log db" using 2 by (auto simp: jobs_delete_own_def delete_jobs_def Let_def)
  moreover note delete_accounts_for_paths [OF ok, of i uid paths db']
  ultimately show ?thesis using that 1 2 both by auto
qed


text \<open>The audit line, when the address of the client can be stored and the user is known.\<close>

lemma try_audit_quiet:
  assumes "quiet app" and "try_audit app entry w = (r, w')"
  shows "r = Inr () \<and> wd_net w' = after_statement app (wd_net w) \<and> aside w' = aside w \<and>
    jobs (wd_db w') = jobs (wd_db w) \<and> assets (wd_db w') = assets (wd_db w) \<and> users (wd_db w') = users (wd_db w) \<and>
    (pred_option (ap_inet_ok app) (entry_ip entry) \<longrightarrow> set_option (entry_user_id entry) \<subseteq> u_id ` set (users (wd_db w)) \<longrightarrow>
      (\<exists>row. audit_log (wd_db w') = audit_log (wd_db w) @ [row] \<and> l_action row = audit_action_as_str (entry_action entry) \<and>
        l_entity_id row = entry_entity_id entry \<and> l_user_id row = entry_user_id entry))"
  using assms(2) unfolding try_audit_def handle_def quiet_statement [OF assms(1)]
  by (cases "pred_option (ap_inet_ok app) (entry_ip entry)"; cases "set_option (entry_user_id entry) \<subseteq> u_id ` set (users (wd_db w))")
     (auto simp: succeed_def audit_record_def Let_def aside_def)

lemma own_deletion_steps:
  fixes app :: "('s, 'n, 'd, 'r) app"
  assumes quiet: "quiet app" and ok: "db_ok (wd_db w)" and own: "job_owner (wd_db w) i = Some uid"
  obtains paths n n1 n2 db' where "on_pool app (\<lambda>_ _. jobs_asset_paths i uid) w = (Inr paths, w\<lparr>wd_net := n1\<rparr>)"
    and "on_pool app (\<lambda>_ _. jobs_delete_own i uid) (w\<lparr>wd_net := n1\<rparr>) = (Inr n, w\<lparr>wd_net := n2, wd_db := db'\<rparr>)" and "n \<noteq> 0"
    and "db_ok db'" and "job_table db' = (job_table (wd_db w))(i := None)"
    and "mset (map a_blob_path (assets (wd_db w))) = mset paths + mset (map a_blob_path (assets db'))"
    and "users db' = users (wd_db w)" and "audit_log db' = audit_log (wd_db w)"
proof -
  obtain paths n db' where d: "jobs_asset_paths i uid (wd_db w) = (Inr paths, wd_db w)" "jobs_delete_own i uid (wd_db w) = (Inr n, db')"
    "n \<noteq> 0" "db_ok db'" "job_table db' = (job_table (wd_db w))(i := None)"
    "mset (map a_blob_path (assets (wd_db w))) = mset paths + mset (map a_blob_path (assets db'))"
    "users db' = users (wd_db w)" "audit_log db' = audit_log (wd_db w)" by (rule own_deletion [OF ok own])
  obtain n1 where 1: "on_pool app (\<lambda>_ _. jobs_asset_paths i uid) w = (Inr paths, w\<lparr>wd_net := n1\<rparr>)"
    by (rule quiet_pool [OF quiet, of "\<lambda>_ _. jobs_asset_paths i uid" w]) (auto simp: d(1))
  obtain n2 where 2: "on_pool app (\<lambda>_ _. jobs_delete_own i uid) (w\<lparr>wd_net := n1\<rparr>) = (Inr n, w\<lparr>wd_net := n2, wd_db := db'\<rparr>)"
    by (rule quiet_pool [OF quiet, of "\<lambda>_ _. jobs_delete_own i uid" "w\<lparr>wd_net := n1\<rparr>"]) (auto simp: d(2))
  show ?thesis by (rule that [OF 1 2 d(3-8)])
qed

section \<open>Correctness\<close>

text \<open>Before the row goes, nothing of the user's work has changed.\<close>

lemma delete_until_early:
  assumes "quiet app" and "k < 3"
  shows "keeps (\<lambda>w. rest_kept db x w \<and> audit_log (wd_db w) = L) (delete_until k app client u i)"
proof -
  have "keeps (\<lambda>w. audit_log (wd_db w) = L) (on_pool app (\<lambda>_ _. jobs_asset_paths i uid))" for uid
    by (rule keeps_quiet_pool [OF assms(1), where P = "\<lambda>db. audit_log db = L"]) (simp add: keeps_def jobs_asset_paths_def select_op_def)
  moreover have "keeps (rest_kept db x) (on_pool app (\<lambda>_ _. jobs_asset_paths i uid))" for uid
    by (rule keeps_rest_statement [OF assms(1)]) (auto simp: keeps_def jobs_asset_paths_def select_op_def)
  moreover have "keeps (rest_kept db x) (local_user_id app u)" "keeps (\<lambda>w. audit_log (wd_db w) = L) (local_user_id app u)"
    by (rule keeps_rest_helpers [OF assms(1)] local_user_id_audit_log [OF assms(1)])+
  ultimately have "keeps (\<lambda>w. rest_kept db x w \<and> audit_log (wd_db w) = L) (local_user_id app u)"
    "keeps (\<lambda>w. rest_kept db x w \<and> audit_log (wd_db w) = L) (on_pool app (\<lambda>_ _. jobs_asset_paths i uid))" for uid
    by (simp_all add: keeps_def)
  then show ?thesis
    using assms(2) unfolding delete_until_def go_on_def by (auto intro!: keeps_intros)
qed


text \<open>Once the row is gone: what is left to do, of the handler that is dropped and of the one that is not.\<close>

lemma delete_until_late:
  fixes app :: "('s, 'n, 'd, 'r) app"
  assumes quiet: "quiet app" and ok: "db_ok (wd_db w)" and who: "local_user_id app u w = (Inr uid, w1)"
    and own: "job_owner (wd_db w) i = Some uid" and k: "3 \<le> k"
  obtains paths w2 where "rest_kept (wd_db w2) (aside w) w2" and "job_table (wd_db w2) = (job_table (wd_db w))(i := None)"
    and "mset (map a_blob_path (assets (wd_db w))) = mset paths + mset (map a_blob_path (assets (wd_db w2)))"
    and "audit_log (wd_db w2) = audit_log (wd_db w)" and "uid \<in> u_id ` set (users (wd_db w2))"
    and "delete_until k app client u i w = attempt (discard_files app (take (k - 3) paths)) (\<lambda>_.
      go_on (4 + length paths \<le> k) (try_audit app (job_audit GenerationDeleted ''job'' uid i client)) (\<lambda>_. succeed (Some ()))) w2"
    and "delete_job app client u i w = attempt (discard_files app paths) (\<lambda>_.
      try_audit app (job_audit GenerationDeleted ''job'' uid i client)) w2"
proof -
  have w1: "rest_kept (wd_db w) (aside w) w1"
    using keepsD' [OF keeps_rest_helpers(1) [OF quiet] who, of "wd_db w" "aside w"] ok by (simp add: rest_kept_def)
  then have db1: "db_ok (wd_db w1)" "jobs (wd_db w1) = jobs (wd_db w)" "assets (wd_db w1) = assets (wd_db w)" "aside w1 = aside w"
    by (simp_all add: rest_kept_def)
  have log1: "audit_log (wd_db w1) = audit_log (wd_db w)"
    using keepsD' [OF local_user_id_audit_log [OF quiet] who, of "audit_log (wd_db w)"] by simp
  have own1: "job_owner (wd_db w1) i = Some uid" using own job_owner_cong [OF db1(2)] by simp
  obtain paths n n1 n2 db' where 1: "on_pool app (\<lambda>_ _. jobs_asset_paths i uid) w1 = (Inr paths, w1\<lparr>wd_net := n1\<rparr>)"
    and 2: "on_pool app (\<lambda>_ _. jobs_delete_own i uid) (w1\<lparr>wd_net := n1\<rparr>) = (Inr n, w1\<lparr>wd_net := n2, wd_db := db'\<rparr>)"
    and n: "n \<noteq> 0" and db': "db_ok db'" "job_table db' = (job_table (wd_db w1))(i := None)"
      "mset (map a_blob_path (assets (wd_db w1))) = mset paths + mset (map a_blob_path (assets db'))"
      "users db' = users (wd_db w1)" "audit_log db' = audit_log (wd_db w1)"
    by (rule own_deletion_steps [OF quiet db1(1) own1])
  obtain row where "row \<in> set (jobs (wd_db w1))" "j_user_id row = uid"
    using own1 by (auto simp: job_owner_iff dest: row_by_SomeD)
  then have known: "uid \<in> u_id ` set (users db')" using db_okD(6) [OF db1(1)] db'(4) by auto
  show ?thesis
  proof (rule that [of "w1\<lparr>wd_net := n2, wd_db := db'\<rparr>" paths])
    show "job_table (wd_db (w1\<lparr>wd_net := n2, wd_db := db'\<rparr>)) = (job_table (wd_db w))(i := None)"
      using db'(2) db1(2) by simp
  qed (use db' db1 log1 known k who 1 2 n in \<open>simp_all add: rest_kept_def aside_def delete_until_def delete_job_def go_on_def
      pool_delete_for_user_def attempt_def map_err_def succeed_def\<close>)
qed





end
