(* ===== verification/Redaction.thy ===== *)
theory Redaction
  imports Middleware
begin

text \<open>
  What \<open>{:?}\<close> prints of the values that hold secrets or whole files (\<open>config.rs\<close> of the web crate,
  \<open>lib.rs\<close> and \<open>auth.rs\<close> of the providers, \<open>blob.rs\<close>, \<open>oidc.rs\<close>). The implementations build the
  text with the debug builders of the standard library, those that are derived as well.
\<close>

section \<open>The debug builders\<close>

text \<open>
  \<open>write_str\<close> and \<open>format_args\<close>, a quoted string, a number, an option, and \<open>debug_struct\<close> with its
  fields in order, closed by \<open>finish\<close> or by \<open>finish_non_exhaustive\<close>.
\<close>

datatype shown =
    Plain string
  | Quoted string
  | Number int
  | ShownNone
  | ShownSome shown
  | Fields string "(string \<times> shown) list" bool

text \<open>\<open>escape\<close> is what the library does inside the quotes.\<close>

fun debug_text :: "(string \<Rightarrow> string) \<Rightarrow> shown \<Rightarrow> string" and debug_fields :: "(string \<Rightarrow> string) \<Rightarrow> (string \<times> shown) list \<Rightarrow> string list" where
  "debug_text escape (Plain s) = s"
| "debug_text escape (Quoted s) = [CHR 0x22] @ escape s @ [CHR 0x22]"
| "debug_text escape (Number i) = (if i < 0 then ''-'' @ dec (nat (- i)) else dec (nat i))"
| "debug_text escape ShownNone = ''None''"
| "debug_text escape (ShownSome v) = ''Some('' @ debug_text escape v @ '')''"
| "debug_text escape (Fields name fs complete) =
     (if fs = [] \<and> complete then name
      else name @ '' { '' @ join '', '' (debug_fields escape fs @ (if complete then [] else [''..''])) @ '' }'')"
| "debug_fields escape [] = []"
| "debug_fields escape ((f, v) # fs) = (f @ '': '' @ debug_text escape v) # debug_fields escape fs"

definition shown_option :: "('a \<Rightarrow> shown) \<Rightarrow> 'a option \<Rightarrow> shown" where
  "shown_option show v = (case v of None \<Rightarrow> ShownNone | Some x \<Rightarrow> ShownSome (show x))"

section \<open>The configuration\<close>

definition secret_debug :: "string \<Rightarrow> shown" where
  "secret_debug s = Plain ''Secret(***)''"

definition environment_debug :: "environment \<Rightarrow> shown" where
  "environment_debug e = Plain (case e of Development \<Rightarrow> ''Development'' | Production \<Rightarrow> ''Production'')"

definition session_store_debug :: "session_store \<Rightarrow> shown" where
  "session_store_debug s = Plain (case s of PostgresStore \<Rightarrow> ''Postgres'' | MemoryStore \<Rightarrow> ''Memory'')"

definition app_config_debug :: "app_config \<Rightarrow> shown" where
  "app_config_debug c = Fields ''AppConfig'' [
     (''app_base_url'', Quoted (cf_app_base_url c)), (''app_port'', Number (uint (cf_app_port c))),
     (''app_env'', environment_debug (cf_app_env c)), (''rust_log'', Quoted (cf_rust_log c)),
     (''assets_dir'', Quoted (cf_assets_dir c)),
     (''database_url'', secret_debug (cf_database_url c)), (''session_secret'', secret_debug (cf_session_secret c)),
     (''session_store'', session_store_debug (cf_session_store c)),
     (''azure_tenant_id'', Quoted (cf_azure_tenant_id c)), (''azure_client_id'', Quoted (cf_azure_client_id c)),
     (''azure_client_secret'', shown_option secret_debug (cf_azure_client_secret c)),
     (''oidc_redirect_uri'', Quoted (cf_oidc_redirect_uri c)),
     (''required_app_role'', shown_option Quoted (cf_required_app_role c)),
     (''azure_openai_endpoint'', Quoted (cf_azure_openai_endpoint c)),
     (''azure_openai_api_version'', Quoted (cf_azure_openai_api_version c)),
     (''image_deployment'', Quoted (cf_image_deployment c)), (''audio_deployment'', Quoted (cf_audio_deployment c)),
     (''video_deployment'', Quoted (cf_video_deployment c)),
     (''azure_openai_api_key'', shown_option secret_debug (cf_azure_openai_api_key c)),
     (''azure_storage_account'', Quoted (cf_azure_storage_account c)),
     (''azure_storage_container'', Quoted (cf_azure_storage_container c)),
     (''sas_ttl_minutes'', Number (uint (cf_sas_ttl_minutes c))), (''max_prompt_chars'', Number (int (cf_max_prompt_chars c))),
     (''rate_limit_per_hour'', Number (uint (cf_rate_limit_per_hour c))),
     (''retention_days'', Number (uint (cf_retention_days c)))] True"

section \<open>The clients and what they carry\<close>

definition credentials_debug :: "'c credentials \<Rightarrow> shown" where
  "credentials_debug c = (case c of EntraCredential _ \<Rightarrow> Plain ''Credentials::Entra''
     | ApiKeyCredential _ \<Rightarrow> Plain ''Credentials::ApiKey(***)'')"

definition bytes_debug :: "string \<Rightarrow> shown" where
  "bytes_debug bytes = Plain (dec (length bytes) @ '' bytes'')"

definition reference_image_debug :: "reference_image \<Rightarrow> shown" where
  "reference_image_debug r = Fields ''ReferenceImage''
     [(''content_type'', Quoted (ri_content_type r)), (''bytes'', bytes_debug (ri_bytes r))] True"

definition generated_media_debug :: "generated_media \<Rightarrow> shown" where
  "generated_media_debug m = Fields ''GeneratedMedia''
     [(''content_type'', Quoted (gm_content_type m)), (''bytes'', bytes_debug (gm_bytes m)),
      (''width'', shown_option Number (gm_width m)), (''height'', shown_option Number (gm_height m)),
      (''duration_ms'', shown_option Number (gm_duration_ms m))] True"

definition blob_store_debug :: "blob_store \<Rightarrow> shown" where
  "blob_store_debug s = Fields ''BlobStore''
     [(''account'', Quoted (bs_account s)), (''container'', Quoted (bs_container s))] False"

definition oidc_provider_debug :: "oidc_config \<times> 'h \<Rightarrow> shown" where
  "oidc_provider_debug p = Fields ''OidcProvider''
     [(''tenant_id'', Quoted (oc_tenant_id (fst p))), (''client_id'', Quoted (oc_client_id (fst p)))] False"

definition providers_debug :: "'n provider \<Rightarrow> shown" where
  "providers_debug p = Plain ''Providers''"

text \<open>Two that are derived, on plain strings.\<close>

definition oidc_config_debug :: "oidc_config \<Rightarrow> shown" where
  "oidc_config_debug c = Fields ''OidcConfig'' [
     (''tenant_id'', Quoted (oc_tenant_id c)), (''client_id'', Quoted (oc_client_id c)),
     (''client_secret'', shown_option Quoted (oc_client_secret c)), (''redirect_uri'', Quoted (oc_redirect_uri c)),
     (''post_logout_redirect_uri'', Quoted (oc_post_logout_redirect_uri c)),
     (''required_app_role'', shown_option Quoted (oc_required_app_role c))] True"

definition provider_config_debug :: "provider_config \<Rightarrow> shown" where
  "provider_config_debug c = Fields ''ProviderConfig'' [
     (''endpoint'', Quoted (pc_endpoint c)), (''api_version'', Quoted (pc_api_version c)),
     (''image_deployment'', Quoted (pc_image_deployment c)), (''audio_deployment'', Quoted (pc_audio_deployment c)),
     (''video_deployment'', Quoted (pc_video_deployment c)), (''tenant_id'', Quoted (pc_tenant_id c)),
     (''client_id'', Quoted (pc_client_id c)), (''client_secret'', shown_option Quoted (pc_client_secret c)),
     (''api_key'', shown_option Quoted (pc_api_key c))] True"

lemmas debug_defs = secret_debug_def environment_debug_def session_store_debug_def app_config_debug_def credentials_debug_def
  bytes_debug_def reference_image_debug_def generated_media_debug_def blob_store_debug_def oidc_provider_debug_def
  oidc_config_debug_def provider_config_debug_def

section \<open>What an observer of the text learns\<close>

text \<open>The configuration without its secrets: only whether the optional ones are there.\<close>

definition public_part :: "app_config \<Rightarrow> app_config" where
  "public_part c = c\<lparr>cf_database_url := [], cf_session_secret := [],
     cf_azure_client_secret := map_option (\<lambda>_. []) (cf_azure_client_secret c),
     cf_azure_openai_api_key := map_option (\<lambda>_. []) (cf_azure_openai_api_key c)\<rparr>"

lemma shown_option_inj [simp]:
  assumes "\<And>x y. show x = show y \<longleftrightarrow> x = y"
  shows "shown_option show v = shown_option show v' \<longleftrightarrow> v = v'"
  using assms by (auto simp: shown_option_def split: option.splits)

lemma shown_secret_option [simp]:
  "shown_option secret_debug v = shown_option secret_debug v' \<longleftrightarrow> (v = None \<longleftrightarrow> v' = None)"
  by (auto simp: shown_option_def secret_debug_def split: option.splits)

lemma enum_debug_inj [simp]:
  "environment_debug e = environment_debug e' \<longleftrightarrow> e = e'" "session_store_debug s = session_store_debug s' \<longleftrightarrow> s = s'"
  by (cases e; cases e'; simp add: environment_debug_def) (cases s; cases s'; simp add: session_store_debug_def)

lemma secret_debug_any [simp]: "secret_debug s = secret_debug s'"
  by (simp add: secret_debug_def)

lemma erased_option [simp]: "map_option (\<lambda>_. x) v = map_option (\<lambda>_. x) v' \<longleftrightarrow> (v = None \<longleftrightarrow> v' = None)"
  by (cases v; cases v') simp_all

text \<open>
  The configuration is printed completely but for its secrets: two configurations print the same
  exactly when they agree on everything else.
\<close>

lemma config_debug_shows_public_part:
  "app_config_debug c = app_config_debug c' \<longleftrightarrow> public_part c = public_part c'"
  by (cases c; cases c') (simp add: app_config_debug_def public_part_def word_uint_eq_iff [symmetric])

text \<open>
  Nothing that is printed depends on a secret: neither the configuration, nor the credential of the
  providers, nor the clients built from it; and of a file only its length is printed.
\<close>

lemma debug_hides_secrets:
  "public_part c = public_part c' \<Longrightarrow> debug_text escape (app_config_debug c) = debug_text escape (app_config_debug c')"
  "debug_text escape (secret_debug s) = ''Secret(***)''"
  "credentials_debug (ApiKeyCredential key) = credentials_debug (ApiKeyCredential key')"
  "public_part c = public_part c' \<Longrightarrow> oidc_provider_debug (config_oidc c, h) = oidc_provider_debug (config_oidc c', h')"
  "length b = length b' \<Longrightarrow> reference_image_debug (r\<lparr>ri_bytes := b\<rparr>) = reference_image_debug (r\<lparr>ri_bytes := b'\<rparr>)"
  "length b = length b' \<Longrightarrow> generated_media_debug (m\<lparr>gm_bytes := b\<rparr>) = generated_media_debug (m\<lparr>gm_bytes := b'\<rparr>)"
proof -
  show "debug_text escape (app_config_debug c) = debug_text escape (app_config_debug c')" if "public_part c = public_part c'"
    using that by (simp only: config_debug_shows_public_part [symmetric])
  show "oidc_provider_debug (config_oidc c, h) = oidc_provider_debug (config_oidc c', h')" if "public_part c = public_part c'"
    using arg_cong [OF that, of config_oidc] by (simp add: debug_defs config_oidc_def public_part_def)
qed (simp_all add: debug_defs)

text \<open>
  The settings of the two clients are copies with plain strings, and printing those does show the
  secrets.
\<close>

lemma copies_print_secrets:
  "oidc_config_debug (config_oidc c) = oidc_config_debug (config_oidc c') \<Longrightarrow> cf_azure_client_secret c = cf_azure_client_secret c'"
  "provider_config_debug (config_providers c) = provider_config_debug (config_providers c') \<Longrightarrow>
     cf_azure_openai_api_key c = cf_azure_openai_api_key c'"
  by (simp_all add: debug_defs config_oidc_def config_providers_def)

end
