(* ===== verification/Stored.thy ===== *)
theory Stored
  imports Isolation
begin

text \<open>
  What is in a session at rest. The store keeps JSON under string keys, so what a request reads is
  what the serialisers of \<open>session.rs\<close> made of an earlier entry: their forms, that they are read back
  as written and not as anything else, and which entries the program can have left under which key.
\<close>

section \<open>Reading and writing JSON\<close>

text \<open>
  What the libraries print and parse: RFC 3339 timestamps, which exist for four-digit years only, and
  UUIDs. The law is the documented round trip.
\<close>

record wire_lib =
  wl_show_time :: "instant \<Rightarrow> string + string"
  wl_parse_time :: "string \<Rightarrow> string + instant"
  wl_parse_uuid :: "string \<Rightarrow> string + uuid"

definition wire_laws :: "wire_lib \<Rightarrow> bool" where
  "wire_laws lib \<longleftrightarrow> (\<forall>t s. wl_show_time lib t = Inr s \<longrightarrow> wl_parse_time lib s = Inr t) \<and>
     (\<forall>u. wl_parse_uuid lib (uuid_string u) = Inr u)"

text \<open>\<open>Option<String>\<close> and \<open>Vec<String>\<close>, and the fields read from an object.\<close>

definition opt_str_json :: "string option \<Rightarrow> json" where
  "opt_str_json v = (case v of None \<Rightarrow> JNull | Some s \<Rightarrow> JStr s)"

definition strs_json :: "string list \<Rightarrow> json" where
  "strs_json xs = JArr (map JStr xs)"

fun str_of_json :: "json \<Rightarrow> string + string" where
  "str_of_json (JStr s) = Inr s"
| "str_of_json _ = Inl ''invalid type: expected a string''"

definition serde_strs :: "string \<Rightarrow> json \<Rightarrow> string + string list" where
  "serde_strs k j = and_then (serde_field k j) (\<lambda>f. case f of
     Some (JArr xs) \<Rightarrow> traverse str_of_json xs
   | None \<Rightarrow> Inl (''missing field '' @ k) | Some _ \<Rightarrow> Inl (''invalid type for '' @ k))"

definition serde_time :: "wire_lib \<Rightarrow> string \<Rightarrow> json \<Rightarrow> string + instant" where
  "serde_time lib k j = and_then (serde_str k j) (wl_parse_time lib)"

section \<open>The entries\<close>

text \<open>\<open>Stamped<LoginFlow>\<close>.\<close>

definition login_flow_json :: "login_flow \<Rightarrow> json" where
  "login_flow_json f = JObj [(''pkce_verifier'', JStr (lf_pkce_verifier f)), (''state'', JStr (lf_state f)),
     (''nonce'', JStr (lf_nonce f)), (''return_to'', JStr (lf_return_to f))]"

definition login_flow_of :: "json \<Rightarrow> string + login_flow" where
  "login_flow_of j =
     and_then (serde_str ''pkce_verifier'' j) (\<lambda>pkce_verifier. and_then (serde_str ''state'' j) (\<lambda>state.
     and_then (serde_str ''nonce'' j) (\<lambda>nonce. and_then (serde_str ''return_to'' j) (\<lambda>return_to.
       Inr \<lparr>lf_pkce_verifier = pkce_verifier, lf_state = state, lf_nonce = nonce, lf_return_to = return_to\<rparr>))))"

definition stamped_json :: "wire_lib \<Rightarrow> login_flow \<Rightarrow> instant \<Rightarrow> string + json" where
  "stamped_json lib flow created_at = and_then (wl_show_time lib created_at) (\<lambda>s.
     Inr (JObj [(''value'', login_flow_json flow), (''created_at'', JStr s)]))"

definition stamped_of :: "wire_lib \<Rightarrow> json \<Rightarrow> string + login_flow \<times> instant" where
  "stamped_of lib j =
     and_then (serde_field ''value'' j) (\<lambda>f. case f of
       None \<Rightarrow> Inl ''missing field value''
     | Some v \<Rightarrow> and_then (login_flow_of v) (\<lambda>flow. and_then (serde_time lib ''created_at'' j) (\<lambda>created_at.
         Inr (flow, created_at))))"

definition session_user_json :: "wire_lib \<Rightarrow> session_user \<Rightarrow> string + json" where
  "session_user_json lib u = and_then (wl_show_time lib (su_authenticated_at u)) (\<lambda>s.
     Inr (JObj [(''oid'', JStr (su_oid u)), (''email'', opt_str_json (su_email u)), (''upn'', opt_str_json (su_upn u)),
       (''display_name'', JStr (su_display_name u)), (''roles'', strs_json (su_roles u)),
       (''groups'', strs_json (su_groups u)), (''authenticated_at'', JStr s)]))"

definition session_user_of :: "wire_lib \<Rightarrow> json \<Rightarrow> string + session_user" where
  "session_user_of lib j =
     and_then (serde_str ''oid'' j) (\<lambda>oid. and_then (serde_opt_str ''email'' j) (\<lambda>email.
     and_then (serde_opt_str ''upn'' j) (\<lambda>upn. and_then (serde_str ''display_name'' j) (\<lambda>display_name.
     and_then (serde_strs ''roles'' j) (\<lambda>roles. and_then (serde_strs ''groups'' j) (\<lambda>groups.
     and_then (serde_time lib ''authenticated_at'' j) (\<lambda>authenticated_at.
       Inr \<lparr>su_oid = oid, su_email = email, su_upn = upn, su_display_name = display_name, su_roles = roles,
         su_groups = groups, su_authenticated_at = authenticated_at\<rparr>)))))))"

text \<open>What \<open>insert\<close> hands to the store, and what the reads of the program make of it, by key.\<close>

fun entry_json :: "wire_lib \<Rightarrow> session_value \<Rightarrow> string + json" where
  "entry_json lib (FlowEntry flow t) = stamped_json lib flow t"
| "entry_json lib (UserEntry u) = session_user_json lib u"
| "entry_json lib (TextEntry s) = Inr (JStr s)"
| "entry_json lib (UuidEntry u) = Inr (JStr (uuid_string u))"

definition entry_of :: "wire_lib \<Rightarrow> string \<Rightarrow> json \<Rightarrow> string + session_value" where
  "entry_of lib k j =
     (if k = LOGIN_FLOW_KEY then map_sum id (\<lambda>(flow, t). FlowEntry flow t) (stamped_of lib j)
      else if k = USER_KEY then map_sum id UserEntry (session_user_of lib j)
      else if k = USER_ID_KEY then map_sum id UuidEntry (and_then (str_of_json j) (wl_parse_uuid lib))
      else map_sum id TextEntry (str_of_json j))"

lemmas wire_defs = serde_field_def serde_str_def serde_opt_str_def serde_strs_def serde_time_def opt_str_json_def strs_json_def
  login_flow_json_def login_flow_of_def stamped_json_def stamped_of_def session_user_json_def session_user_of_def

section \<open>They are read back as written\<close>

lemma traverse_strs [simp]: "traverse str_of_json (map JStr xs) = Inr xs"
  by (induction xs) simp_all

interpretation strings: codec "\<lambda>xs. map JStr xs" "\<lambda>js. case traverse str_of_json js of Inl _ \<Rightarrow> None | Inr xs \<Rightarrow> Some xs"
  by unfold_locales simp

interpretation flows: codec login_flow_json "\<lambda>j. case login_flow_of j of Inl _ \<Rightarrow> None | Inr f \<Rightarrow> Some f"
  by unfold_locales (simp add: wire_defs)

lemma stamped_round_trip:
  assumes "wire_laws lib" and "stamped_json lib flow t = Inr j"
  shows "stamped_of lib j = Inr (flow, t)"
  using assms by (auto simp: wire_laws_def wire_defs and_then_Inr)

lemma session_user_round_trip:
  assumes "wire_laws lib" and "session_user_json lib u = Inr j"
  shows "session_user_of lib j = Inr u"
proof -
  from assms(2) obtain s where s: "wl_show_time lib (su_authenticated_at u) = Inr s"
    and j: "session_user_json lib u = Inr j" by (auto simp: session_user_json_def and_then_Inr)
  have "wl_parse_time lib s = Inr (su_authenticated_at u)" using assms(1) s by (simp add: wire_laws_def)
  then show ?thesis
    using j s by (cases "su_email u"; cases "su_upn u") (auto simp: wire_defs)
qed

text \<open>An entry of one kind is not read as one of another: neither object has what the other must have.\<close>

lemma forms_are_distinct:
  "stamped_json lib flow t = Inr j \<Longrightarrow> \<exists>e. session_user_of lib j = Inl e"
  "session_user_json lib u = Inr j \<Longrightarrow> \<exists>e. stamped_of lib j = Inl e"
  "stamped_json lib flow t = Inr j \<Longrightarrow> \<exists>e. str_of_json j = Inl e"
  "session_user_json lib u = Inr j \<Longrightarrow> \<exists>e. str_of_json j = Inl e"
  "\<exists>e. stamped_of lib (JStr s) = Inl e" "\<exists>e. session_user_of lib (JStr s) = Inl e"
  by (auto simp: wire_defs and_then_Inr)

section \<open>What the program leaves in a session\<close>

text \<open>
  Which entry can be under which key: a sign-in in progress returns to a page of the application, a
  user has an identity and the required role, a token is one the program made up.
\<close>

fun sound_entry :: "role_policy \<Rightarrow> string \<Rightarrow> session_value \<Rightarrow> bool" where
  "sound_entry policy k (FlowEntry flow t) \<longleftrightarrow> k = LOGIN_FLOW_KEY \<and>
     sanitise_return_to (Some (lf_return_to flow)) = lf_return_to flow"
| "sound_entry policy k (UserEntry u) \<longleftrightarrow> k = USER_KEY \<and> permits policy u \<and> su_oid u \<noteq> []"
| "sound_entry policy k (TextEntry s) \<longleftrightarrow> k = ID_TOKEN_KEY \<or> k = TOKEN_KEY \<and> s \<in> range uuid_simple"
| "sound_entry policy k (UuidEntry u) \<longleftrightarrow> k = USER_ID_KEY"

definition sound_entries :: "role_policy \<Rightarrow> ('s \<Rightarrow> string \<Rightarrow> session_value option) \<Rightarrow> 's \<Rightarrow> bool" where
  "sound_entries policy view s \<longleftrightarrow> (\<forall>k x. view s k = Some x \<longrightarrow> sound_entry policy k x)"

definition sound_session :: "('s, 'n, 'd, 'r) app \<Rightarrow> ('s \<Rightarrow> string \<Rightarrow> session_value option) \<Rightarrow> ('s, 'n, 'd) world \<Rightarrow> bool" where
  "sound_session app view w \<longleftrightarrow> sound_entries (ap_role_policy app) view (wd_session w)"

lemma keys_distinct: "distinct [LOGIN_FLOW_KEY, USER_KEY, ID_TOKEN_KEY, TOKEN_KEY, USER_ID_KEY]"
  by (simp add: session_keys TOKEN_KEY_def USER_ID_KEY_def)

text \<open>A sound entry is read back under its key.\<close>

lemma sound_entry_read_back:
  assumes "wire_laws lib" and "sound_entry policy k x" and "entry_json lib x = Inr j"
  shows "entry_of lib k j = Inr x"
  using assms keys_distinct
  by (cases x)
     (auto simp: entry_of_def stamped_round_trip session_user_round_trip wire_laws_def)

section \<open>The calls of the store\<close>

lemma keeps_sound_reads:
  assumes "session_laws sl view sid"
  shows "keeps (sound_entries policy view) (session_get sl k as)"
    "keeps (sound_entries policy view) (sl_cycle_id sl)"
proof -
  have "view (snd (session_get sl k as s)) = view s" "view (snd (sl_cycle_id sl s)) = view s" for s
    using session_getD(1) [OF assms] session_cycleD(1) [OF assms] by (metis prod.collapse)+
  then show "keeps (sound_entries policy view) (session_get sl k as)" "keeps (sound_entries policy view) (sl_cycle_id sl)"
    by (simp_all add: keeps_def sound_entries_def)
qed

lemma keeps_sound_insert:
  assumes "session_laws sl view sid" and "sound_entry policy k x"
  shows "keeps (sound_entries policy view) (sl_insert sl k x)"
proof (rule keepsI)
  fix s assume s: "sound_entries policy view s"
  obtain r s' where run: "sl_insert sl k x s = (r, s')" by fastforce
  from session_insertD(2) [OF assms(1) run] s assms(2) show "sound_entries policy view (snd (sl_insert sl k x s))"
    by (cases r) (auto simp: run sound_entries_def)
qed

lemma keeps_sound_remove:
  assumes "session_laws sl view sid"
  shows "keeps (sound_entries policy view) (session_remove sl k as)"
proof (rule keepsI)
  fix s assume s: "sound_entries policy view s"
  obtain r s' where run: "sl_remove sl k s = (r, s')" by fastforce
  have "snd (session_remove sl k as s) = s'"
    by (auto simp: session_remove_def decode_entry_def action_defs run split: sum.split option.split)
  with session_removeD(2) [OF assms run] s show "sound_entries policy view (snd (session_remove sl k as s))"
    by (cases r) (auto simp: sound_entries_def)
qed

lemma keeps_sound_flush:
  assumes "session_laws sl view sid"
  shows "keeps (sound_entries policy view) (sl_flush sl)"
proof (rule keepsI)
  fix s assume s: "sound_entries policy view s"
  obtain r s' where run: "sl_flush sl s = (r, s')" by fastforce
  from session_flushD [OF assms run] s show "sound_entries policy view (snd (sl_flush sl s))"
    by (cases r) (auto simp: run sound_entries_def)
qed

lemmas keeps_sound_calls = keeps_sound_reads keeps_sound_insert keeps_sound_remove keeps_sound_flush

text \<open>The functions of \<open>session.rs\<close>, given that what they are asked to store is sound.\<close>

lemma keeps_sound_auth:
  assumes "session_laws sl view sid"
  shows "sanitise_return_to (Some (lf_return_to flow)) = lf_return_to flow \<Longrightarrow>
      keeps (sound_entries policy view) (put_login_flow sl now flow)"
    and "keeps (sound_entries policy view) (take_login_flow sl now)"
    and "permits policy u \<Longrightarrow> su_oid u \<noteq> [] \<Longrightarrow> keeps (sound_entries policy view) (put_user sl u tok)"
    and "keeps (sound_entries policy view) (current_user sl)" and "keeps (sound_entries policy view) (session_id_token sl)"
  unfolding put_login_flow_def take_login_flow_def put_user_def current_user_def session_id_token_def
  by (intro keeps_intros keeps_sound_calls [OF assms]; simp)+

section \<open>The handlers\<close>

lemma keeps_sound_session: "keeps (sound_entries (ap_role_policy app) view) m \<Longrightarrow> keeps (sound_session app view) (in_the_session m)"
  by (auto simp: keeps_def sound_session_def world_defs split: prod.split)

lemma keeps_sound_elsewhere [keeps_intros]:
  "keeps (sound_session app view) (on_pool app stmt)" "keeps (sound_session app view) (in_the_net m)"
  "keeps (sound_session app view) (new_v4 app)" "keeps (sound_session app view) (with_key m1)"
  "keeps (sound_session app view) (with_metadata m2)" "keeps (sound_session app view) (now_utc app)"
  "keeps (sound_session app view) (enqueue i)"
  by (auto simp: keeps_def sound_session_def world_defs on_pool_def enqueue_def Let_def split: prod.splits sum.splits db_fault.splits)

lemma keeps_sound_token:
  fixes app :: "('s, 'n, 'd, 'r) app"
  assumes "session_laws (ap_sessions app) view sid"
  shows "keeps (sound_session app view) (page_csrf_token app)"
proof (rule keepsI)
  fix w :: "('s, 'n, 'd) world" assume w: "sound_session app view w"
  let ?I = "sound_entries (ap_role_policy app) view"
  obtain r s1 where get: "session_get (ap_sessions app) TOKEN_KEY as_text (wd_session w) = (r, s1)" by fastforce
  have s1: "?I s1" using keepsD' [OF keeps_sound_reads(1) [OF assms] get] w by (simp add: sound_session_def)
  obtain u n1 where u: "ap_fresh app (wd_net w) = (u, n1)" by fastforce
  obtain r2 s2 where ins: "sl_insert (ap_sessions app) TOKEN_KEY (TextEntry (uuid_simple u)) s1 = (r2, s2)" by fastforce
  have s2: "?I s2" by (rule keepsD' [OF keeps_sound_insert [OF assms] ins s1]) simp
  show "sound_session app view (snd (page_csrf_token app w))"
    using s1 s2
    by (auto simp: page_csrf_token_def focus_def csrf_token_def get u ins sound_session_def
        split: sum.split option.split)
qed

lemma keeps_sound_helpers:
  assumes "session_laws (ap_sessions app) view sid"
  shows "keeps (sound_session app view) (local_user_id app u)" "keeps (sound_session app view) (try_audit app entry)"
    "keeps (sound_session app view) (remember app uid)" "keeps (sound_session app view) (upsert_user app u)"
    "keeps (sound_session app view) (ratelimit_remaining app uid n)" "keeps (sound_session app view) (ratelimit_check app uid n)"
    "keeps (sound_session app view) (the_current_user app)" "keeps (sound_session app view) (read_csrf app)"
  unfolding handler_helper_defs the_current_user_def read_csrf_def Let_def
  by (intro keeps_intros keeps_sound_session keeps_sound_calls [OF assms] keeps_sound_auth [OF assms]; simp)+


section \<open>The sign-in\<close>

lemma sanitise_return_to_idem: "sanitise_return_to (Some (sanitise_return_to c)) = sanitise_return_to c"
proof -
  have "sanitise_return_to (Some DEFAULT_RETURN_TO) = DEFAULT_RETURN_TO" by (simp add: sanitise_return_to_def)
  then show ?thesis
    by (cases c) (auto simp: sanitise_return_to_def)
qed

lemma begin_login_return_to:
  assumes "begin_login lib config return_to x = (Inr (url, flow), x')"
  shows "lf_return_to flow = return_to"
  using assms by (auto simp: begin_login_def Let_def attempt_def split: prod.splits sum.splits)

lemma keeps_sound_login:
  fixes app :: "('s, 'n, 'd, 'r) app"
  assumes "session_laws (ap_sessions app) view sid"
  shows "keeps (sound_session app view) (login app rt)"
proof -
  let ?m = "map_err upstream (with_metadata (begin_login (ap_oidc app) (config_oidc (ap_config app)) (sanitise_return_to rt)))"
  have stored: "keeps (sound_session app view) (attempt ?m (\<lambda>(url, flow). attempt (now_utc app) (\<lambda>now.
     attempt (map_err internal (in_the_session (put_login_flow (ap_sessions app) now flow))) (\<lambda>_. succeed (redirect_to url)))))"
  proof (rule keeps_attempt_of, intro keeps_intros, clarsimp)
    fix url flow and w w' :: "('s, 'n, 'd) world"
    assume "with_metadata (begin_login (ap_oidc app) (config_oidc (ap_config app)) (sanitise_return_to rt)) w = (Inr (url, flow), w')"
    then have "lf_return_to flow = sanitise_return_to rt"
      by (auto simp: with_metadata_def focus_def split: prod.splits dest: begin_login_return_to)
    then have "sanitise_return_to (Some (lf_return_to flow)) = lf_return_to flow" by (simp add: sanitise_return_to_idem)
    from keeps_sound_auth(1) [OF assms this]
    show "keeps (sound_session app view) (attempt (now_utc app) (\<lambda>now.
       attempt (map_err internal (in_the_session (put_login_flow (ap_sessions app) now flow))) (\<lambda>_. succeed (redirect_to url))))"
      by (intro keeps_intros keeps_sound_session)
  qed
  show ?thesis
    unfolding login_def Let_def by (intro keeps_intros keeps_sound_helpers [OF assms] stored)
qed

lemma keeps_sound_establish:
  assumes "session_laws (ap_sessions app) view sid" and "su_oid u \<noteq> []"
  shows "keeps (sound_session app view) (establish app client flow u tok)"
  unfolding establish_def record_sign_in_def record_audit_def
  using assms(2)
  by (intro keeps_intros keeps_sound_session keeps_sound_calls [OF assms(1)] keeps_sound_auth [OF assms(1)]
      keeps_sound_helpers [OF assms(1)]; simp)

lemma from_claims_oid: "from_claims now c = Inr u \<Longrightarrow> su_oid u \<noteq> []"
  by (auto simp: from_claims_def Let_def split: if_splits)

lemma keeps_sound_callback:
  assumes "session_laws (ap_sessions app) view sid"
  shows "keeps (sound_session app view) (callback app client query)"
proof -
  have established: "keeps (sound_session app view) (attempt (of_result (map_sum auth_failed id (from_claims t c)))
      (\<lambda>u. establish app client flow u tok))" for t c flow tok
    by (rule keeps_attempt_of, rule keeps_of_result)
       (auto simp: of_result_def map_sum_Inr_iff intro!: keeps_sound_establish [OF assms] dest: from_claims_oid)
  show ?thesis
    unfolding callback_def
    by (intro keeps_intros keeps_sound_session keeps_sound_auth [OF assms] established)
qed

lemma keeps_sound_logout:
  assumes "session_laws (ap_sessions app) view sid"
  shows "keeps (sound_session app view) (logout app client)"
  unfolding logout_def record_sign_out_def record_audit_def
  by (intro keeps_intros keeps_sound_session keeps_sound_calls [OF assms] keeps_sound_auth [OF assms] keeps_sound_helpers [OF assms])

section \<open>Every request\<close>

lemma keeps_sound_pages:
  assumes "session_laws (ap_sessions app) view sid"
  shows "keeps (sound_session app view) (index app uni render_card u)" "keeps (sound_session app view) (history app uni u q)"
    "keeps (sound_session app view) (archive app uni u q)"
  unfolding index_def history_def archive_def render_archive_def active_job_card_def card_for_def rate_limit_hint_def
    recent_generations_def Let_def
  by (intro keeps_intros keeps_sound_helpers [OF assms] keeps_sound_token [OF assms])+

lemma keeps_sound_files: "keeps (sound_session app view) (discard_files app paths)"
  by (induction paths) (auto simp: delete_file_def intro!: keeps_intros)

lemma keeps_sound_api:
  assumes "session_laws (ap_sessions app) view sid"
  shows "keeps (sound_session app view) (job_status_handler app u i)" "keeps (sound_session app view) (job_card_handler app u i)"
    "keeps (sound_session app view) (job_events app u i)" "keeps (sound_session app view) (asset_link app client u i n)"
    "keeps (sound_session app view) (set_visibility app u i hidden)" "keeps (sound_session app view) (delete_job app client u i)"
    "keeps (sound_session app view) (generate app lower client u parts)"
  unfolding api_defs Let_def
  by (intro keeps_intros keeps_sound_helpers [OF assms] keeps_sound_files)+


lemma endpoint_keeps_sound:
  fixes app :: "('s, 'n, 'd, 'r) app"
  assumes "session_laws (ap_sessions app) view sid"
  shows "service_keeps (sound_session app view) (run_endpoint app fw e)"
proof (rule service_keepsI)
  fix req and w :: "('s, 'n, 'd) world" assume w: "sound_session app view w"
  show "sound_session app view (snd (run_endpoint app fw e req w))"
    using w
    by (cases e)
       (auto simp: with_both_def with_session_def with_user_def extract_then_def
         intro!: keeps_respond keeps_sound_login [OF assms] keeps_sound_callback [OF assms] keeps_sound_logout [OF assms]
           keeps_sound_pages [OF assms] keeps_sound_api [OF assms]
         split: option.split sum.split)
qed

lemma application_keeps_sound:
  fixes app :: "('s, 'n, 'd, 'r) app"
  assumes "session_laws (ap_sessions app) view sid" and fw: "framework_keeps (sound_session app view) fw"
  shows "service_keeps (sound_session app view) (build_router app fw)"
  by (rule service_keeps_build_router [OF endpoint_keeps_sound [OF assms(1)] fw keeps_sound_helpers(7,8) [OF assms(1)]])
     (simp add: fresh_id_def sound_session_def split_def Let_def)

text \<open>
  C21: whatever a request does, every entry of its session stays one the program can have made: of the
  kind that belongs to its key, a user only with an identity and the role of the policy, a pending
  sign-in only with a page of the application to return to, a CSRF token only from a UUID. And all of
  them survive the store: the JSON an entry is serialised to is read back, by what the program
  reads under its key, as exactly that entry, so that no request fails on an entry of an earlier one.
\<close>

theorem sessions_stay_readable:
  fixes app :: "('s, 'n, 'd, 'r) app" and fw :: "(('s, 'n, 'd) world, 'p) framework" and w w' :: "('s, 'n, 'd) world"
  assumes laws: "session_laws (ap_sessions app) view sid" and fw: "framework_keeps (sound_session app view) fw"
    and wire: "wire_laws lib" and sound: "sound_session app view w" and run: "build_router app fw req w = (out, w')"
  shows "\<forall>k x. view (wd_session w') k = Some x \<longrightarrow>
    sound_entry (ap_role_policy app) k x \<and> (\<forall>j. entry_json lib x = Inr j \<longrightarrow> entry_of lib k j = Inr x)"
proof -
  have "sound_session app view w'"
    using service_keepsD [OF application_keeps_sound [OF laws fw] sound] run by (metis snd_conv)
  then show ?thesis
    unfolding sound_session_def sound_entries_def using sound_entry_read_back [OF wire] by blast
qed

text \<open>For evaluation: instants as numbers, UUIDs from their hexadecimal digits.\<close>

definition hex_number :: "string \<Rightarrow> nat" where
  "hex_number s = foldl (\<lambda>n b. 16 * n + option_or (hex_value b) 0) 0 s"

definition sample_wire :: wire_lib where
  "sample_wire = \<lparr>wl_show_time = (\<lambda>t. if t < 0 then Inl ''year'' else Inr (dec (nat t))),
     wl_parse_time = (\<lambda>s. Inr (int (digits_value s))),
     wl_parse_uuid = (\<lambda>s. Inr (of_nat (hex_number (filter (\<lambda>b. b \<noteq> CHR ''-'') s))))\<rparr>"

lemma hex_number_digits: "v < 16 ^ n \<Longrightarrow> hex_number (hex_digits n v) = v"
proof (induction n arbitrary: v)
  case (Suc n)
  then have "v div 16 < 16 ^ n" by (simp add: less_mult_imp_div_less mult.commute)
  with Suc.IH [OF this] show ?case by (simp add: hex_number_def hex_value_hex_digit option_or_def)
qed (simp add: hex_number_def)

lemma uuid_digits: "filter (\<lambda>b. b \<noteq> CHR ''-'') (uuid_string u) = uuid_simple u"
proof -
  define s where "s = uuid_simple u"
  have "hex_value CHR ''-'' = None" by (simp add: hex_value_def)
  then have "CHR ''-'' \<notin> hex_digit ` {..<16}" by (metis hex_value_hex_digit imageE lessThan_iff option.distinct(1))
  then have s: "CHR ''-'' \<notin> set s" using set_hex_digits [of 32 "unat u"] by (auto simp: s_def uuid_simple_def)
  have all: "filter (\<lambda>b. b \<noteq> CHR ''-'') xs = xs" if "set xs \<subseteq> set s" for xs
    using that s by (auto intro!: filter_True)
  have sub: "set (take n (drop m s)) \<subseteq> set s" "set (drop m s) \<subseteq> set s" "set (take n s) \<subseteq> set s" for n m
    using set_take_subset set_drop_subset by fast+
  have join: "take n (drop m s) @ drop (n + m) s = drop m s" for n m by (metis append_take_drop_id drop_drop)
  have "take 8 s @ take 4 (drop 8 s) @ take 4 (drop 12 s) @ take 4 (drop 16 s) @ drop 20 s = s"
    using join [of 4 8] join [of 4 12] join [of 4 16] append_take_drop_id [of 8 s] by simp
  then show ?thesis by (simp add: uuid_string_def s_def [symmetric] Let_def all sub)
qed

lemma sample_wire_laws: "wire_laws sample_wire"
proof -
  have "wl_parse_uuid sample_wire (uuid_string u) = Inr u" for u :: uuid
  proof -
    have "unat u < 16 ^ 32" using unsigned_less [of u] by simp
    then show ?thesis by (simp add: sample_wire_def uuid_digits uuid_simple_def hex_number_digits)
  qed
  then show ?thesis by (auto simp: wire_laws_def) (auto simp: sample_wire_def digits_value_dec split: if_splits)
qed

definition sample_signing_in :: incoming where
  "sample_signing_in = \<lparr>in_method = GET, in_uri = Some (''/auth/login'', None), in_headers = [],
     in_peer = None, in_session = True, in_user = None, in_correlation = None\<rparr>"

lemma sample_sign_in_path: "segments (uri_path (in_uri sample_signing_in)) = [[], ''auth'', ''login'']"
  by code_simp

lemma sample_login_stores:
  "\<exists>flow t. snd (wd_session (snd (login sample_app None (sample_world sample_db Map.empty\<lparr>wd_net := n\<rparr>)))) LOGIN_FLOW_KEY =
     Some (FlowEntry flow t) \<and> 0 \<le> t"
  by (simp add: login_def the_current_user_def begin_login_def cached_metadata_def oidc_metadata_def refresh_metadata_def discover_def
      action_defs world_defs sample_world_def session_defs memory_sessions_def sample_oidc_def sample_oidc_config_def Let_def)

lemma sample_signing_in_simps [simp]:
  "in_session sample_signing_in" "in_method sample_signing_in = GET" "in_headers sample_signing_in = []"
  "fw_login_query sample_framework req = Inr None"
  by (simp_all add: sample_signing_in_def sample_framework_def Let_def)

lemma sample_signing_in_run:
  "\<exists>flow t. snd (wd_session (snd (build_router sample_app sample_framework sample_signing_in (sample_world sample_db Map.empty))))
     LOGIN_FLOW_KEY = Some (FlowEntry flow t) \<and> 0 \<le> t"
proof -
  let ?w = "sample_world sample_db Map.empty\<lparr>wd_net := Suc 0\<rparr>"
  have routed: "snd (routes sample_app sample_framework (sample_signing_in\<lparr>in_correlation := c\<rparr>) ?w) =
      snd (login sample_app None ?w :: (app_error + unit outgoing) \<times> _)" for c
    unfolding routes_def Let_def
    by (simp add: sample_sign_in_path health_routes_def auth_routes_def open_route_def serve_def method_matches_def
        with_session_def extract_then_def respond_def split_def split: sum.split)
  have "fresh_id sample_app (sample_world sample_db Map.empty) = (0, ?w)" by (simp add: fresh_id_def sample_world_def)
  then have "snd (build_router sample_app sample_framework sample_signing_in (sample_world sample_db Map.empty)) =
      snd (login sample_app None ?w :: (app_error + unit outgoing) \<times> _)"
    by (simp add: build_router_def propagate_def inbound_correlation_def header_get_def optional_layer_def
        strict_transport_security_def frame_options_def referrer_policy_def no_sniff_def content_security_policy_def
        overriding_def render_html_errors_def verify_origin_def is_safe_def split_def Let_def routed split: option.split environment.split)
  then show ?thesis using sample_login_stores [of "Suc 0"] by simp
qed

theorem sessions_stay_readable_witness:
  "let w' = snd (build_router sample_app sample_framework sample_signing_in (sample_world sample_db Map.empty)) in
   \<exists>flow t j. snd (wd_session w') LOGIN_FLOW_KEY = Some (FlowEntry flow t) \<and>
     entry_json sample_wire (FlowEntry flow t) = Inr j \<and> entry_of sample_wire LOGIN_FLOW_KEY j = Inr (FlowEntry flow t)"
proof -
  let ?w = "sample_world sample_db Map.empty"
  obtain out w' where run: "build_router sample_app sample_framework sample_signing_in ?w = (out, w')" by fastforce
  have laws: "session_laws (ap_sessions sample_app) snd fst" using memory_sessions_laws by simp
  have sound: "sound_session sample_app snd ?w" by (simp add: sound_session_def sound_entries_def sample_world_def)
  obtain flow t where entry: "snd (wd_session w') LOGIN_FLOW_KEY = Some (FlowEntry flow t)" and t: "0 \<le> t"
    using sample_signing_in_run run by auto
  obtain j where j: "entry_json sample_wire (FlowEntry flow t) = Inr j" using t by (auto simp: stamped_json_def sample_wire_def)
  from sessions_stay_readable [OF laws sample_framework_ok(2) sample_wire_laws sound run] entry j
  have "entry_of sample_wire LOGIN_FLOW_KEY j = Inr (FlowEntry flow t)" by blast
  with entry j run show ?thesis by auto
qed

end
