(* ===== verification/Spec2Isabelle.thy ===== *)
theory Spec2Isabelle
  imports Recovery Concurrency_Correct Labels Deletion Redaction Stored
begin

text \<open>
  Mediagenerator: a verification of the Rust services under \<open>src/crates/\<close>. The program lets signed-in
  employees generate images, speech and video with Azure OpenAI. A request to the web server writes a
  job row and queues its id; a worker claims the row, calls a provider, stores the media in a private
  blob container and finishes the row; the browser follows the job over an event stream and fetches
  the media through time-limited links. A daily sweep deletes what is older than the retention period.

  \<^bold>\<open>How code becomes definitions.\<close> A fallible function that changes state is an action: from a state to
  a result (\<open>Inl\<close> the error, \<open>Inr\<close> the value) and the next state, composed by \<open>attempt\<close> (the operator
  \<open>?\<close>), \<open>handle\<close> (a match on the result) and \<open>map_err\<close>. A Rust \<open>String\<close> is the \<open>string\<close> of its bytes;
  \<open>i64\<close> and \<open>u32\<close> values that can wrap are words, others are \<open>int\<close> with their bounds stated. SQL
  statements act on a record of tables with the constraints of the migrations. What is not under \<open>src/\<close>
  is an argument: the session store, the OpenID Connect, HTTP, template and calendar libraries, the
  web framework, the clock, random identifiers, and every answer of the network.

  \<^bold>\<open>Theories and sources\<close>
  \<^item> \<open>Prelude\<close>, \<open>Text\<close>, \<open>Encoding\<close>, \<open>Http\<close>: actions and the calculus \<open>keeps\<close> of preserved invariants;
    the string operations of the standard library on bytes; numbers, UUIDs and percent-encoding with
    their round trips; requests, responses and headers.
  \<^item> \<open>I18n\<close>, \<open>Labels\<close>, \<open>Domain\<close> (\<open>domain/src\<close>): user-facing texts, error codes, media types, \<open>validate_prompt\<close>,
    job statuses with their columns (locale \<open>codec\<close>), the relation \<open>status_step\<close> of allowed moves.
  \<^item> \<open>Database\<close>, \<open>Storage_Jobs\<close>, \<open>Storage\<close> (\<open>storage/src\<close>, \<open>migrations/\<close>): the schema (\<open>db_ok\<close>), one
    operation per statement, the listing from its assembled text; \<open>db_step\<close> is any statement of the
    program. Locale \<open>owner_scoped\<close> is the contract of all access by id.
  \<^item> \<open>Cache\<close>, \<open>Blob\<close> (\<open>storage/src/blob.rs\<close>): the double-checked cache of both delegation key and
    provider metadata (locale \<open>ttl_cache\<close>, \<open>cache_run\<close> for concurrent callers); uploads, downloads,
    deletes, signed links.
  \<^item> \<open>Client\<close>, \<open>Providers\<close> (\<open>providers/src\<close>): credentials, the retrying client against the policy
    \<open>retry_run\<close>, and the three media (locale \<open>media_provider\<close>).
  \<^item> \<open>Session\<close>, \<open>Guards\<close>, \<open>Oidc\<close> (\<open>auth/src\<close>): session values and the single-use sign-in flow, the
    route guards (locale \<open>guard\<close>, shared with the guards of the web crate), the relying party.
  \<^item> \<open>Settings\<close>, \<open>Middleware\<close> (\<open>web/src/config.rs\<close>, \<open>error.rs\<close>, \<open>session.rs\<close>, \<open>client_info.rs\<close>,
    \<open>middleware/\<close>): configuration, the error response, the layers.
  \<^item> \<open>World\<close> (\<open>state.rs\<close>, \<open>identity.rs\<close>, \<open>ratelimit.rs\<close>): the record \<open>world\<close> (tables, session, key and
    metadata caches, queue, published events, and everything outside in \<open>wd_net\<close>) and the record \<open>app\<close>
    of what the application was built from. \<open>on_pool\<close> runs a statement: before it other requests and
    workers may change the tables (\<open>ap_others\<close>), and the request or its reply may be lost (\<open>ap_pool\<close>).
  \<^item> \<open>SignIn\<close> (\<open>routes/auth.rs\<close>), \<open>Worker\<close> (\<open>jobs.rs\<close>), \<open>Retention\<close> (\<open>retention.rs\<close>), \<open>Elapsed\<close> and
    \<open>Api\<close> with \<open>Api_Correct\<close> (\<open>routes/api.rs\<close>, \<open>render.rs\<close>), \<open>Archive\<close> with \<open>Archive_Correct\<close>
    (\<open>routes/archive.rs\<close>, \<open>routes/pages.rs\<close>, \<open>routes/health.rs\<close>): the handlers and background tasks.
  \<^item> \<open>Router\<close> (\<open>lib.rs\<close>): route tables, what each route runs, the layers in their order; the record
    \<open>framework\<close> holds the extractors and layers of the HTTP libraries. \<open>Isolation\<close> and this theory:
    what holds of the application as a whole.
  \<^item> \<open>Startup\<close> (\<open>main.rs\<close>, \<open>telemetry.rs\<close>, \<open>db.rs\<close>): the record \<open>host\<close> of what a process starts from,
    the start step by step, the application it builds and the shutdown. \<open>Recovery\<close>: the relation
    \<open>app_step\<close> of requests, turns of workers and sweeps from the start on, and the account of jobs
    (\<open>accounted\<close>) that all of them keep.
  \<^item> \<open>Concurrency\<close> with \<open>Concurrency_Correct\<close> (\<open>jobs.rs\<close>, \<open>routes/api.rs\<close>): the state \<open>floor_state\<close> of
    tables, queue, published events, the phase of each worker and the pending submissions; \<open>own_step\<close>
    is one statement, hand-over or announcement of a worker or request, \<open>lossy_step\<close> what goes wrong
    with lost connections and cut handlers, \<open>floor_step\<close> their interleaving with all other statements.
    The invariant \<open>floor_ok\<close>, the end of all work, and that \<open>process\<close> and \<open>generate\<close> are its runs.
  \<^item> \<open>Cut\<close> (\<open>routes/api.rs\<close>): \<open>generate_until\<close>, the handler dropped by a timeout or a closed connection
    after any of its six steps that wait. \<open>Deletion\<close> (\<open>routes/api.rs\<close>): \<open>delete_until\<close>, the same of
    the deletion of a generation, with the account of its files. \<open>Stored\<close> (\<open>auth/src/session.rs\<close>): the JSON of session entries
    and its round trip, and the invariant \<open>sound_session\<close> of what any request leaves in its session, for
    a fixed role policy (a process that starts with another one may find users of the old). \<open>Redaction\<close>: what debug output shows of the values that hold
    secrets or files, those with an implementation of their own and two that are derived.

  \<^bold>\<open>Groups of lemmas.\<close> \<open>keeps_intros\<close> and \<open>service_intros\<close> prove that an action or a service preserves an
  invariant; with \<open>statements\<close> they show that every handler reaches only tables the program can reach
  (\<open>sign_in_stays_in_program\<close>, \<open>api_stays_in_program\<close>, \<open>pages_stay_in_program\<close>). The lemmas named
  \<open>_quiet\<close> say what an operation does when no connection is lost and no one interferes; \<open>leaves_jobs\<close>
  and \<open>keeps_jobs\<close> what leaves the jobs alone. Theories ending in \<open>_Correct\<close> hold the properties of
  the theory of that name.

  \<^bold>\<open>Hypotheses.\<close> \<open>others_ok\<close>: concurrent requests only run statements of the program. \<open>quiet\<close>: no
  connection is lost and nothing interferes. \<open>session_laws\<close>, \<open>container_view\<close>: documented behaviour of
  the session store and the container. \<open>wire_laws\<close>: printed timestamps and UUIDs are parsed back. \<open>framework_keeps\<close>, \<open>plain_framework\<close>: layers of libraries answer
  or run what they wrap, once; a timeout that cuts a handler short in the middle is not covered by the
  second (for generations it is the subject of \<open>Cut\<close>). Each is shown to hold of the small instances \<open>sample_app\<close> and \<open>sample_framework\<close>.

  \<^bold>\<open>Bounds.\<close> Loops over retries, polls and event streams are recursive functions with a bound from the
  code: four attempts of a call, ninety polls of a video, sixty-four queued ids. Those that run as long
  as the process (workers, retention) are modelled one turn at a time or for any number of turns.

  \<^bold>\<open>Not modelled.\<close> Log lines and the other derived debug output, the templates and the keep-alive
  comments of event streams.
\<close>

section \<open>The application as a whole\<close>

text \<open>
  C9: every page, every endpoint of the API and every event stream is behind the sign-in. A request
  for one of them without a session, without a signed-in user or with a user who lacks the required
  role is answered by the refusal for its kind (or by an internal error), reads nothing but the
  session, and gets the same answer whatever the handlers are: none of them is run.
\<close>

theorem strangers_are_stopped:
  fixes app :: "('s, 'n, 'd, 'r) app" and fw :: "(('s, 'n, 'd) world, 'p) framework"
  assumes "needs_sign_in (segments (uri_path (in_uri req)))"
    and "\<not> (in_session req \<and> (\<exists>u w1. the_current_user app w = (Inr (Some u), w1) \<and> permits (ap_role_policy app) u))"
    and "routes app fw req w = (out, w')"
  shows "out \<in> {unauthenticated (in_uri req) (in_headers req), forbidden (in_uri req) (in_headers req), internal_error} \<and>
    (\<exists>s. w' = w\<lparr>wd_session := s\<rparr>) \<and> (\<forall>fw'. routes app fw' req w = (out, w'))"
proof -
  obtain s :: "(('s, 'n, 'd) world, 'p) framework \<Rightarrow> (('s, 'n, 'd) world, 'p) service"
    where s: "\<And>fw w. routes app fw req w = protected app (s fw) req w" by (rule routes_protected [OF assms(1)]) blast
  have run: "protected app (s fw) req w = (out, w')" using assms(3) s by simp
  from run show ?thesis
  proof (cases rule: protectedE)
    case denied
    have "w = w\<lparr>wd_session := wd_session w\<rparr>" by simp
    then have "\<exists>s. w' = w\<lparr>wd_session := s\<rparr>" using denied(2) the_current_user_only_session [of app w] by metis
    then show ?thesis using denied(1,3) s by simp
  next
    case passed
    then show ?thesis using assms(2) by blast
  qed
qed

theorem strangers_are_stopped_witness:
  "let w = sample_world sample_db Map.empty; answer = routes sample_app sample_framework sample_hiding w
   in out_status (fst answer) = 401 \<and> wd_db (snd answer) = sample_db"
proof -
  let ?w = "sample_world sample_db Map.empty"
  obtain out w' where run: "routes sample_app sample_framework sample_hiding ?w = (out, w')" by fastforce
  have path: "needs_sign_in (segments (uri_path (in_uri sample_hiding)))"
    by (simp add: sample_path needs_sign_in_def api_routes_def)
  have none: "the_current_user sample_app ?w = (Inr None, ?w)"
    by (simp add: the_current_user_def world_defs sample_world_def session_defs memory_sessions_def action_defs)
  then have "\<not> (in_session sample_hiding \<and> (\<exists>u w1. the_current_user sample_app ?w = (Inr (Some u), w1) \<and>
      permits (ap_role_policy sample_app) u))" by simp
  from strangers_are_stopped [OF path this run] obtain s where s: "w' = ?w\<lparr>wd_session := s\<rparr>" by blast
  have "out_status out = 401"
    using run unfolding routes_def sample_path Let_def
    by (auto simp: health_routes_def auth_routes_def page_routes_def archive_routes_def api_routes_def protected_def
        require_auth_def none unauthenticated_def wants_json_def sample_hiding_def uri_path_def starts_with_def API_PREFIX_def)
  with run s show ?thesis by (simp add: sample_world_def)
qed

text \<open>
  C7: whatever a request asks for, the jobs of everyone but its own user come out of it as they went
  in. If it changes the jobs table at all, it is a \<open>POST\<close> of a session with a signed-in user in the
  required role who presented the token of that session, and the rows of other users are the same as
  before, in the same order.
\<close>

theorem requests_touch_only_own_jobs:
  fixes app :: "('s, 'n, 'd, 'r) app" and fw :: "(('s, 'n, 'd) world, 'p) framework" and w w' :: "('s, 'n, 'd) world"
  assumes quiet: "quiet app" and ok: "db_ok (wd_db w)" and fw: "plain_framework fw"
    and run: "routes app fw req w = (out, w')" and changed: "jobs (wd_db w') \<noteq> jobs (wd_db w)"
  shows "\<exists>u w1 w2 uid. in_method req = POST \<and> in_session req \<and>
    the_current_user app w = (Inr (Some u), w1) \<and> permits (ap_role_policy app) u \<and>
    read_csrf app w1 = (Inr (Some (presented_token (in_headers req))), w2) \<and>
    fst (local_user_id app u w2) = Inr uid \<and> of_others uid (wd_db w') = of_others uid (wd_db w)"
proof -
  let ?p = "segments (uri_path (in_uri req))"
  obtain r where r: "api_routes ?p = Some r" "changing (snd r)"
    using quiet_routes_keep_jobs [OF quiet fw, of req w] run changed by fastforce
  have run': "protected app (api_route app fw (serve app fw r)) req w = (out, w')"
    using changing_routeE(2) [OF r] run by metis
  from run' show ?thesis
  proof (cases rule: protectedE)
    case denied
    then have "wd_db w' = wd_db w" by auto
    then show ?thesis using changed by simp
  next
    case (passed u w1)
    have db: "wd_db w1 = wd_db w" using passed(2) the_current_user_db [of app w] by simp
    let ?req = "req\<lparr>in_user := Some u\<rparr>"
    have w': "w' = snd (api_route app fw (serve app fw r) ?req w1)" using passed(4) by simp
    have "db_ok (wd_db w1)" "jobs (wd_db (snd (api_route app fw (serve app fw r) ?req w1))) \<noteq> jobs (wd_db w1)"
      using ok changed w' db by simp_all
    from api_route_own_jobs_only [OF quiet this(1) fw r(2) changing_routeE(1) [OF r] _ this(2), of u]
    obtain w2 where w2: "in_method req = POST" "read_csrf app w1 = (Inr (Some (presented_token (in_headers req))), w2)"
      "wd_db w2 = wd_db w1" "own_jobs_only app u w2 w'" using w' by auto
    then show ?thesis using passed(1-3) changed db by (auto simp: own_jobs_only_def)
  qed
qed

theorem requests_touch_only_own_jobs_witness:
  "let w' = snd (routes sample_app sample_framework sample_hiding (sample_world sample_db sample_entries))
   in jobs (wd_db w') \<noteq> jobs sample_db \<and> of_others 1 (wd_db w') = of_others 1 sample_db"
proof -
  let ?w = "sample_world sample_db sample_entries"
  obtain out w' where run: "routes sample_app sample_framework sample_hiding ?w = (out, w')" by fastforce
  have db: "wd_db ?w = sample_db" "wd_db w' = snd (jobs_set_hidden 11 1 True sample_db)"
    using sample_hiding_run run by (simp_all add: sample_world_def)
  then have changed: "jobs (wd_db w') \<noteq> jobs (wd_db ?w)" using sample_hides by simp
  have ok: "db_ok (wd_db ?w)" using db sample_db_ok by simp
  from requests_touch_only_own_jobs [OF sample_quiet ok sample_framework_ok(1) run changed]
  have "of_others 1 (wd_db w') = of_others 1 sample_db" by (auto simp: sample_session_reads db)
  with run changed db show ?thesis by simp
qed

text \<open>
  C18: whatever a request does, the application answers it and leaves tables that satisfy the
  schema, reached from the tables it found by statements of the program only (those of concurrent
  requests among them). Every answer, whichever layer or handler gave it, carries one clean
  correlation id and the hardening headers, in production strict transport security as well.
\<close>

theorem application_answers_safely:
  fixes app :: "('s, 'n, 'd, 'r) app" and fw :: "(('s, 'n, 'd) world, 'p) framework" and w w' :: "('s, 'n, 'd) world"
  assumes others: "others_ok app" and ok: "db_ok (wd_db w)" and fw: "framework_keeps (from_db app (wd_db w)) fw"
    and trace: "\<And>s req v. fst (fw_trace fw s req v) = fst (s req v)"
    and run: "build_router app fw req w = (out, w')"
  shows "db_ok (wd_db w') \<and> (db_step (ap_inet_ok app))\<^sup>*\<^sup>* (wd_db w) (wd_db w') \<and>
    list_all (\<lambda>(name, v). header_get name (out_headers out) = Some v) (hardening (cf_app_env (ap_config app))) \<and>
    (\<exists>cid. header_get CORRELATION_ID_HEADER (out_headers out) = Some cid \<and> is_acceptable cid)"
proof -
  have "from_db app (wd_db w) (snd (build_router app fw req w))"
    by (rule service_keepsD [OF application_stays_in_program [OF others fw]]) (simp add: from_db_def)
  then have steps: "(db_step (ap_inet_ok app))\<^sup>*\<^sup>* (wd_db w) (wd_db w')" using run by (simp add: from_db_def)
  from run obtain cid w1 response where cid: "is_acceptable cid"
    "out = response\<lparr>out_headers := header_insert CORRELATION_ID_HEADER cid (out_headers response)\<rparr>"
    and inner: "fw_trace fw (optional_layer (strict_transport_security (cf_app_env (ap_config app)))
      (frame_options (referrer_policy (no_sniff (content_security_policy
        (fw_cors fw (fw_compression fw (render_html_errors (fw_pages fw)
          (verify_origin (origin_from_base_url (cf_app_base_url (ap_config app)))
            (fw_session_layer fw (routes app fw)))))))))))
      (req\<lparr>in_correlation := Some cid\<rparr>) w1 = (response, w')"
    unfolding build_router_def by (rule propagate_out) blast
  have "list_all (\<lambda>(name, v). header_get name (out_headers response) = Some v) (hardening (cf_app_env (ap_config app)))"
    using header_layers trace inner by (metis prod.collapse fst_conv)
  then have "list_all (\<lambda>(name, v). header_get name (out_headers out) = Some v) (hardening (cf_app_env (ap_config app)))"
    by (auto simp: cid(2) hardening_def CORRELATION_ID_HEADER_def split: if_splits)
  then show ?thesis using db_steps_ok [OF steps ok] steps cid by auto
qed

theorem application_answers_safely_witness:
  "db_ok (wd_db (snd (build_router sample_app sample_framework sample_hiding (sample_world sample_db sample_entries)))) \<and>
   header_get ''x-frame-options''
     (out_headers (fst (build_router sample_app sample_framework sample_hiding (sample_world sample_db sample_entries)))) = Some ''DENY''"
proof -
  let ?w = "sample_world sample_db sample_entries"
  obtain out w' where run: "build_router sample_app sample_framework sample_hiding ?w = (out, w')" by fastforce
  have "db_ok (wd_db ?w)" using sample_db_ok by (simp add: sample_world_def)
  from application_answers_safely [OF sample_others_ok this sample_framework_ok(2) _ run] show ?thesis
    by (simp add: run hardening_def)
qed

end
